(* ===== verification/Prelude.thy ===== *)
theory Prelude
  imports Main
begin

text \<open>
  What every component of the client uses: strings and the JavaScript string operations
  the code calls, JSON values, the small picture of a rendered page (which controls it
  offers, which texts it shows), and generic lemmas on lists.

  A JavaScript string is a list of code units; the model keeps the code units below 256
  (\<open>string\<close>), which covers every literal of the code and every identifier the services
  issue. Undefined values and \<open>null\<close> are \<open>None\<close> where the code does not tell them apart.
\<close>

named_theorems js_simps \<open>unfolding of the JavaScript operations\<close>

section \<open>Strings\<close>

text \<open>White space as \<open>String.prototype.trim\<close> removes it, for code units below 256.\<close>

definition is_ws :: "char \<Rightarrow> bool" where
  "is_ws c \<longleftrightarrow> c \<in> {CHR 0x09, CHR 0x0A, CHR 0x0B, CHR 0x0C, CHR 0x0D, CHR 0x20, CHR 0xA0}"

definition trim :: "string \<Rightarrow> string" where
  "trim s = rev (dropWhile is_ws (rev (dropWhile is_ws s)))"

text \<open>Truthiness of a string: only the empty string is falsy.\<close>

definition blank :: "string \<Rightarrow> bool" where
  "blank s \<longleftrightarrow> trim s = []"

text \<open>\<open>a || d\<close> on a string or undefined.\<close>

definition or_default :: "string option \<Rightarrow> string \<Rightarrow> string" where
  "or_default a d = (case a of None \<Rightarrow> d | Some s \<Rightarrow> if s = [] then d else s)"

text \<open>\<open>a ?? d\<close>.\<close>

definition nullish :: "'a option \<Rightarrow> 'a \<Rightarrow> 'a" where
  "nullish a d = (case a of None \<Rightarrow> d | Some s \<Rightarrow> s)"

definition starts_with :: "string \<Rightarrow> string \<Rightarrow> bool" where
  "starts_with p s \<longleftrightarrow> take (length p) s = p"

text \<open>ASCII case folding, as the \<open>i\<close> flag of the code's patterns and header names use it.\<close>

definition lower_char :: "char \<Rightarrow> char" where
  "lower_char c =
     (let n = (of_char c :: nat) in if 65 \<le> n \<and> n \<le> 90 then char_of (n + 32) else c)"

definition lower :: "string \<Rightarrow> string" where
  "lower s = map lower_char s"

text \<open>
  \<open>toUpperCase\<close> of one code unit below 256. The two letters whose capital lies above 255
  (\<open>\<mu>\<close> and y with diaeresis) are left as they are.
\<close>

definition upper_char :: "char \<Rightarrow> string" where
  "upper_char c =
     (let n = (of_char c :: nat) in
      if (97 \<le> n \<and> n \<le> 122) \<or> (224 \<le> n \<and> n \<le> 254 \<and> n \<noteq> 247) then [char_of (n - 32)]
      else if n = 223 then ''SS'' else [c])"

definition upper :: "string \<Rightarrow> string" where
  "upper s = concat (map upper_char s)"

text \<open>\<open>s.trim().charAt(0).toUpperCase()\<close>, the letter on an avatar.\<close>

definition initial :: "string \<Rightarrow> string" where
  "initial s = upper (take 1 (trim s))"

lemma blank_Nil [simp]: "blank []"
  by (simp add: blank_def trim_def)

lemma trim_Nil [simp]: "trim [] = []"
  by (simp add: trim_def)

lemma dropWhile_idem_rev:
  "dropWhile P (rev (dropWhile P (rev (dropWhile P xs)))) = rev (dropWhile P (rev (dropWhile P xs)))"
proof (cases "dropWhile P xs")
  case Nil
  then show ?thesis by (simp only: Nil rev.simps dropWhile.simps)
next
  case (Cons a as)
  then have a: "\<not> P a"
    by (metis hd_dropWhile list.sel(1) list.distinct(1))
  have "dropWhile P (rev (a # as)) = dropWhile P (rev as) @ [a]"
    using a by (simp add: dropWhile_append)
  with Cons a show ?thesis by simp
qed

lemma trim_trim [simp]: "trim (trim s) = trim s"
  by (simp add: trim_def dropWhile_idem_rev)

lemma blank_trim [simp]: "blank (trim s) = blank s"
  by (simp add: blank_def)

lemma trim_not_blank: "\<not> blank s \<Longrightarrow> trim s \<noteq> []"
  by (simp add: blank_def)

lemma starts_with_append [simp]: "starts_with p (p @ s)"
  by (simp add: starts_with_def)

lemma starts_with_iff: "starts_with p s \<longleftrightarrow> (\<exists>t. s = p @ t)"
  unfolding starts_with_def by (metis append_eq_conv_conj append_take_drop_id)

section \<open>JSON values\<close>

datatype json =
    JNull
  | JBool bool
  | JNum int
  | JStr string
  | JArr "json list"
  | JObj "(string \<times> json) list"

text \<open>
  Reading a property: undefined (\<open>Some None\<close>) when the value has no such property, a
  \<open>TypeError\<close> (\<open>None\<close>) when the value is \<open>null\<close>.
\<close>

fun get_prop :: "string \<Rightarrow> json \<Rightarrow> json option option" where
  "get_prop k JNull = None"
| "get_prop k (JObj fs) = Some (map_of fs k)"
| "get_prop k _ = Some None"

text \<open>The values \<open>!v\<close> and \<open>a || b\<close> take for false; \<open>None\<close> is undefined.\<close>

definition falsy :: "json option \<Rightarrow> bool" where
  "falsy v \<longleftrightarrow> v \<in> {None, Some JNull, Some (JBool False), Some (JNum 0), Some (JStr [])}"

lemma falsy_text [simp]: "falsy (Some (JStr v)) \<longleftrightarrow> v = []"
  by (simp add: falsy_def)

text \<open>\<open>v?.k\<close>: undefined on undefined and on \<open>null\<close>.\<close>

definition opt_prop :: "string \<Rightarrow> json option \<Rightarrow> json option" where
  "opt_prop k v = (case v of None \<Rightarrow> None | Some j \<Rightarrow> (case get_prop k j of None \<Rightarrow> None | Some r \<Rightarrow> r))"

definition or_json :: "json option \<Rightarrow> json \<Rightarrow> json" where
  "or_json v d = (case v of None \<Rightarrow> d | Some j \<Rightarrow> if falsy (Some j) then d else j)"

text \<open>A string, a boolean and a list property of an object that has the declared type.\<close>

definition str_field :: "string \<Rightarrow> json \<Rightarrow> string option" where
  "str_field k j = (case get_prop k j of Some (Some (JStr s)) \<Rightarrow> Some s | _ \<Rightarrow> None)"

definition bool_field :: "string \<Rightarrow> json \<Rightarrow> bool option" where
  "bool_field k j = (case get_prop k j of Some (Some (JBool b)) \<Rightarrow> Some b | _ \<Rightarrow> None)"

definition num_field :: "string \<Rightarrow> json \<Rightarrow> int option" where
  "num_field k j = (case get_prop k j of Some (Some (JNum n)) \<Rightarrow> Some n | _ \<Rightarrow> None)"

definition as_list :: "(json \<Rightarrow> 'a option) \<Rightarrow> json \<Rightarrow> 'a list option" where
  "as_list f j = (case j of JArr xs \<Rightarrow> those (map f xs) | _ \<Rightarrow> None)"

lemma as_list_length:
  "as_list f (JArr js) = Some xs \<Longrightarrow> length xs = length js"
proof (induction js arbitrary: xs)
  case Nil
  then show ?case by (simp add: as_list_def)
next
  case (Cons j js)
  then show ?case by (auto simp: as_list_def split: option.splits)
qed

section \<open>Pages\<close>

text \<open>
  What a render puts on the page, less its styling: texts, buttons (label, whether
  disabled, the events a click fires) and inputs (placeholder, value, the events a change
  fires). An event can only come from a control that is rendered and not disabled.
\<close>

datatype 'e ui =
    Txt string
  | Btn string bool "'e \<Rightarrow> bool"
  | Inp string string "'e \<Rightarrow> bool"
  | Box "'e ui list"

fun offers :: "'e ui \<Rightarrow> 'e \<Rightarrow> bool" where
  "offers (Txt s) e = False"
| "offers (Btn l d p) e = (\<not> d \<and> p e)"
| "offers (Inp l v p) e = p e"
| "offers (Box us) e = list_ex (\<lambda>u. offers u e) us"

fun texts :: "'e ui \<Rightarrow> string list" where
  "texts (Txt s) = [s]"
| "texts (Btn l d p) = [l]"
| "texts (Inp l v p) = [v]"
| "texts (Box us) = concat (map texts us)"

text \<open>\<open>cond && node\<close> and \<open>cond ? a : b\<close> of the markup.\<close>

definition when_ui :: "bool \<Rightarrow> 'e ui \<Rightarrow> 'e ui" where
  "when_ui c u = (if c then u else Box [])"

lemma offers_when [simp]: "offers (when_ui c u) e = (c \<and> offers u e)"
  by (simp add: when_ui_def)

lemma shows_when [simp]: "texts (when_ui c u) = (if c then texts u else [])"
  by (simp add: when_ui_def)

lemma offers_map_Box: "offers (Box (map f xs)) e = (\<exists>x\<in>set xs. offers (f x) e)"
  by (simp add: list_ex_iff)

section \<open>Lists of records with a key\<close>

text \<open>The shapes of list update the components share: append unless present, drop by key.\<close>

definition add_new :: "('a \<Rightarrow> 'k) \<Rightarrow> 'a \<Rightarrow> 'a list \<Rightarrow> 'a list" where
  "add_new key x xs = (if \<exists>y\<in>set xs. key y = key x then xs else xs @ [x])"

definition drop_key :: "('a \<Rightarrow> 'k) \<Rightarrow> 'k \<Rightarrow> 'a list \<Rightarrow> 'a list" where
  "drop_key key k xs = filter (\<lambda>y. key y \<noteq> k) xs"

lemma add_new_code [code]:
  "add_new key x xs = (if list_ex (\<lambda>y. key y = key x) xs then xs else xs @ [x])"
  by (simp add: add_new_def list_ex_iff)

lemma distinct_add_new [intro]:
  "distinct (map key xs) \<Longrightarrow> distinct (map key (add_new key x xs))"
  by (auto simp: add_new_def)

lemma set_add_new: "set (add_new key x xs) \<subseteq> insert x (set xs)"
  by (auto simp: add_new_def)

lemma add_new_has: "\<exists>y\<in>set (add_new key x xs). key y = key x"
  by (auto simp: add_new_def)

lemma add_new_idem [simp]: "add_new key x (add_new key x xs) = add_new key x xs"
  by (auto simp: add_new_def)

lemma distinct_drop_key [intro]:
  "distinct (map key xs) \<Longrightarrow> distinct (map key (drop_key key k xs))"
  by (simp add: drop_key_def distinct_map_filter)

lemma drop_key_absent [simp]: "k \<notin> key ` set (drop_key key k xs)"
  by (auto simp: drop_key_def)

lemma drop_key_id: "k \<notin> key ` set xs \<Longrightarrow> drop_key key k xs = xs"
  by (induction xs) (auto simp: drop_key_def)

lemma drop_key_append [simp]: "drop_key key k (xs @ ys) = drop_key key k xs @ drop_key key k ys"
  by (simp add: drop_key_def)

lemma set_drop_key [simp]: "set (drop_key key k xs) = {x \<in> set xs. key x \<noteq> k}"
  by (auto simp: drop_key_def)

end
