(* ===== verification/Runtime.thy ===== *)
theory Runtime
  imports Prelude
begin

text \<open>
  The event loop the client runs on. A handler is a program that runs without
  interruption up to its next \<open>await\<close>; other events, and other suspended handlers, run in
  between. \<open>('w, 'a) io\<close> is such a program over the state \<open>'w\<close> of a component and the
  browser, \<open>seg\<close> runs it to its next suspension point, and \<open>sched_step\<close> is one turn of the
  event loop: a new event, an answer to an awaited call, or the continuation of a settled
  promise. \<open>reachable\<close> collects every interleaving of them.
\<close>

named_theorems io_simps \<open>equations that run programs\<close>

section \<open>Calls that are awaited and their answers\<close>

datatype http_method = GET | POST | DELETE

datatype req_body = NoBody | JsonBody json | FormBody string

record request =
  r_url :: string
  r_method :: http_method
  r_headers :: "(string \<times> string) list"
  r_body :: req_body

text \<open>A response: its status and its body (\<open>None\<close>: \<open>json()\<close> rejects).\<close>

record response =
  status :: int
  body :: "json option"

definition ok :: "response \<Rightarrow> bool" where
  "ok r \<longleftrightarrow> 200 \<le> status r \<and> status r \<le> 299"

text \<open>\<open>Platform op arg\<close> is a promise of the browser or of the desktop shell, such as the one
  \<open>getUserMedia\<close> returns; \<open>Value\<close> is what it is fulfilled with.\<close>

datatype call = HttpFetch request | Microtask | Platform string json

datatype reply = HttpResp response | Value json | Rejected

datatype exn = TypeError | SyntaxError | FetchFailed | ErrorMsg string | Detached

section \<open>Programs\<close>

text \<open>
  \<open>Await cs k\<close> is suspended on the calls \<open>cs\<close>: the answer \<open>r\<close> to the \<open>i\<close>th of them
  resumes it with \<open>k i r\<close>. \<open>Microtask\<close> is a promise that is already settled. \<open>Spawn p m\<close>
  calls an asynchronous function without awaiting it: \<open>p\<close> runs to its first suspension
  point and goes on by itself, and \<open>m\<close> continues.
\<close>

datatype ('w, 'a) io =
    Ret 'a
  | Throw exn
  | Get "'w \<Rightarrow> ('w, 'a) io"
  | Put "'w \<Rightarrow> 'w" "('w, 'a) io"
  | Await "call list" "nat \<Rightarrow> reply \<Rightarrow> ('w, 'a) io"
  | Spawn "('w, 'a) io" "('w, 'a) io"

lemma io_induct [case_names Ret Throw Get Put Await Spawn, induct type: io]:
  assumes "\<And>x. P (Ret x)" "\<And>e. P (Throw e)"
    and "\<And>g. (\<And>w. P (g w)) \<Longrightarrow> P (Get g)"
    and "\<And>u m. P m \<Longrightarrow> P (Put u m)"
    and "\<And>cs k. (\<And>i r. P (k i r)) \<Longrightarrow> P (Await cs k)"
    and "\<And>p m. P p \<Longrightarrow> P m \<Longrightarrow> P (Spawn p m)"
  shows "P m"
proof (induction m rule: io.induct)
  case (Await cs k)
  show ?case by (rule assms(5)) (rule Await.IH, rule rangeI, rule rangeI)
qed (use assms(1,2,3,4,6) in \<open>simp_all add: full_SetCompr_eq\<close>)

primrec bind :: "('w, 'a) io \<Rightarrow> ('a \<Rightarrow> ('w, 'b) io) \<Rightarrow> ('w, 'b) io" where
  "bind (Ret x) f = f x"
| "bind (Throw e) f = Throw e"
| "bind (Get g) f = Get (\<lambda>w. bind (g w) f)"
| "bind (Put u m) f = Put u (bind m f)"
| "bind (Await cs k) f = Await cs (\<lambda>i r. bind (k i r) f)"
| "bind (Spawn p m) f = Spawn (bind p (\<lambda>_. Throw Detached)) (bind m f)"

text \<open>\<open>try m catch (e) h\<close>.\<close>

primrec try_catch :: "('w, 'a) io \<Rightarrow> (exn \<Rightarrow> ('w, 'a) io) \<Rightarrow> ('w, 'a) io" where
  "try_catch (Ret x) h = Ret x"
| "try_catch (Throw e) h = h e"
| "try_catch (Get g) h = Get (\<lambda>w. try_catch (g w) h)"
| "try_catch (Put u m) h = Put u (try_catch m h)"
| "try_catch (Await cs k) h = Await cs (\<lambda>i r. try_catch (k i r) h)"
| "try_catch (Spawn p m) h = Spawn p (try_catch m h)"

text \<open>\<open>try m finally u\<close>, for a \<open>finally\<close> block that only updates the state.\<close>

primrec finally_do :: "('w, 'a) io \<Rightarrow> ('w \<Rightarrow> 'w) \<Rightarrow> ('w, 'a) io" where
  "finally_do (Ret x) u = Put u (Ret x)"
| "finally_do (Throw e) u = Put u (Throw e)"
| "finally_do (Get g) u = Get (\<lambda>w. finally_do (g w) u)"
| "finally_do (Put v m) u = Put v (finally_do m u)"
| "finally_do (Await cs k) u = Await cs (\<lambda>i r. finally_do (k i r) u)"
| "finally_do (Spawn p m) u = Spawn p (finally_do m u)"

definition upd :: "('w \<Rightarrow> 'w) \<Rightarrow> ('w, unit) io" where
  "upd u = Put u (Ret ())"

definition skip :: "('w, unit) io" where
  "skip = Ret ()"

text \<open>\<open>await fetch(req)\<close>: any answer that is not a response is a rejected promise.\<close>

definition fetch :: "request \<Rightarrow> ('w, response) io" where
  "fetch q = Await [HttpFetch q]
     (\<lambda>_ r. case r of HttpResp x \<Rightarrow> Ret x | _ \<Rightarrow> Throw FetchFailed)"

definition invoke :: "string \<Rightarrow> json \<Rightarrow> ('w, json) io" where
  "invoke op arg = Await [Platform op arg]
     (\<lambda>_ r. case r of Value v \<Rightarrow> Ret v | _ \<Rightarrow> Throw FetchFailed)"

definition yield :: "('w, 'a) io \<Rightarrow> ('w, 'a) io" where
  "yield m = Await [Microtask] (\<lambda>_ _. m)"

text \<open>\<open>await res.json()\<close>: a suspension point whose outcome the response already carries.\<close>

definition read_json :: "response \<Rightarrow> ('w, json) io" where
  "read_json r = yield (case body r of Some j \<Rightarrow> Ret j | None \<Rightarrow> Throw SyntaxError)"

text \<open>
  \<open>(await res.json()) as T\<close>: the cast is not checked. A body that does not have the
  declared type is outside the contract of the services; reading it is an exception here.
\<close>

definition read_as :: "(json \<Rightarrow> 'a option) \<Rightarrow> response \<Rightarrow> ('w, 'a) io" where
  "read_as f r = bind (read_json r) (\<lambda>j. case f j of Some x \<Rightarrow> Ret x | None \<Rightarrow> Throw TypeError)"

text \<open>
  \<open>Promise.all([m1, m2])\<close>: both start at once and their calls are pending together. When
  one fails, the other goes on by itself and the whole fails.
\<close>

primrec par_await ::
  "call list \<Rightarrow> (nat \<Rightarrow> reply \<Rightarrow> ('w, 'b) io \<Rightarrow> ('w, 'c) io) \<Rightarrow>
     (nat \<Rightarrow> reply \<Rightarrow> ('w, 'c) io) \<Rightarrow> ('w, 'b) io \<Rightarrow> ('w, 'c) io" where
  "par_await cs K D (Ret y) = Await cs (\<lambda>i r. K i r (Ret y))"
| "par_await cs K D (Throw e) = Spawn (Await cs D) (Throw e)"
| "par_await cs K D (Get g) = Get (\<lambda>w. par_await cs K D (g w))"
| "par_await cs K D (Put u m) = Put u (par_await cs K D m)"
| "par_await cs K D (Await ds l) = Await (cs @ ds)
     (\<lambda>i r. if i < length cs then K i r (Await ds l)
            else par_await cs K D (l (i - length cs) r))"
| "par_await cs K D (Spawn p m) = Spawn (bind p (\<lambda>_. Throw Detached)) (par_await cs K D m)"

definition detach :: "('w, 'a) io \<Rightarrow> ('w, 'b) io" where
  "detach p = bind p (\<lambda>_. Throw Detached)"

primrec par :: "('w, 'a) io \<Rightarrow> ('w, 'b) io \<Rightarrow> ('w, 'a \<times> 'b) io" where
  "par (Ret x) = (\<lambda>m2. bind m2 (\<lambda>y. Ret (x, y)))"
| "par (Throw e) = (\<lambda>m2. Spawn (detach m2) (Throw e))"
| "par (Get g) = (\<lambda>m2. Get (\<lambda>w. par (g w) m2))"
| "par (Put u m) = (\<lambda>m2. Put u (par m m2))"
| "par (Await cs k) =
     par_await cs (\<lambda>i r. par (k i r)) (\<lambda>i r. bind (k i r) (\<lambda>_. Throw Detached))"
| "par (Spawn p m) = (\<lambda>m2. Spawn (detach p) (par m m2))"

declare bind.simps [io_simps] try_catch.simps [io_simps] finally_do.simps [io_simps]
  upd_def [io_simps] skip_def [io_simps] fetch_def [io_simps] invoke_def [io_simps] yield_def [io_simps]
  read_json_def [io_simps] read_as_def [io_simps] par.simps [io_simps] par_await.simps [io_simps]
  detach_def [io_simps]

section \<open>Running a program\<close>

text \<open>
  Up to the next suspension point: the state, the programs it set going and what is left.
\<close>

primrec seg :: "('w, 'a) io \<Rightarrow> 'w \<Rightarrow> 'w \<times> ('w, 'a) io list \<times> ('w, 'a) io" where
  "seg (Ret x) w = (w, [], Ret x)"
| "seg (Throw e) w = (w, [], Throw e)"
| "seg (Get g) w = seg (g w) w"
| "seg (Put u m) w = seg m (u w)"
| "seg (Await cs k) w = (w, [], Await cs k)"
| "seg (Spawn p m) w =
     (case seg p w of (w1, ps, p') \<Rightarrow> case seg m w1 of (w2, ms, m') \<Rightarrow> (w2, ps @ p' # ms, m'))"

text \<open>
  Alone, with the answers given in the order of the calls: the calls made, the final state
  and the outcome; \<open>None\<close> when the answers run out before the program ends, or when the
  program does not make its calls one after the other.
\<close>

datatype 'a outcome = Returned 'a | Raised exn

primrec run :: "('w, 'a) io \<Rightarrow> reply list \<Rightarrow> 'w \<Rightarrow> (call list \<times> 'w \<times> 'a outcome) option" where
  "run (Ret x) rs w = Some ([], w, Returned x)"
| "run (Throw e) rs w = Some ([], w, Raised e)"
| "run (Get g) rs w = run (g w) rs w"
| "run (Put u m) rs w = run m rs (u w)"
| "run (Await cs k) rs w =
     (if cs = [Microtask] then run (k 0 Rejected) rs w
      else case (cs, rs) of
        ([c], r # rs') \<Rightarrow> map_option (\<lambda>(cs', w', x). (c # cs', w', x)) (run (k 0 r) rs' w)
      | _ \<Rightarrow> None)"
| "run (Spawn p m) rs w = None"

declare seg.simps [io_simps] run.simps [io_simps]

text \<open>How many requests a program can still make, whatever the answers and the state.\<close>

primrec calls_le :: "nat \<Rightarrow> ('w, 'a) io \<Rightarrow> bool" where
  "calls_le n (Ret x) = True"
| "calls_le n (Throw e) = True"
| "calls_le n (Get g) = (\<forall>w. calls_le n (g w))"
| "calls_le n (Put u m) = calls_le n m"
| "calls_le n (Await cs k) =
     (if cs = [Microtask] then \<forall>i r. calls_le n (k i r)
      else 0 < n \<and> length cs = 1 \<and> (\<forall>i r. calls_le (n - 1) (k i r)))"
| "calls_le n (Spawn p m) = False"

lemma calls_le_run:
  "calls_le n m \<Longrightarrow> n \<le> length rs \<Longrightarrow> \<exists>cs w' x. run m rs w = Some (cs, w', x) \<and> length cs \<le> n"
proof (induction m arbitrary: n rs w)
  case (Await cs k)
  show ?case
  proof (cases "cs = [Microtask]")
    case True
    with Await show ?thesis by auto
  next
    case False
    with Await.prems obtain c r rs' where rs: "rs = r # rs'" "cs = [c]"
      by (cases rs; cases cs) auto
    with Await.prems False have "calls_le (n - 1) (k 0 r)" "n - 1 \<le> length rs'"
      by auto
    then obtain cs' w' x where "run (k 0 r) rs' w = Some (cs', w', x)" "length cs' \<le> n - 1"
      using Await.IH by blast
    with Await.prems rs False show ?thesis by auto
  qed
qed auto

section \<open>The event loop\<close>

type_synonym 'w threads = "('w, unit) io list"

text \<open>A new event, or the answer to a pending call of a suspended program.\<close>

datatype 'e turn = Event 'e | Answer nat nat reply

text \<open>
  \<open>en e w\<close>: the environment can fire \<open>e\<close> in state \<open>w\<close>; \<open>h e\<close>: the handler of \<open>e\<close>.
\<close>

fun sched_step ::
  "('e \<Rightarrow> 'w \<Rightarrow> bool) \<Rightarrow> ('e \<Rightarrow> ('w, unit) io) \<Rightarrow> 'e turn \<Rightarrow> 'w \<times> 'w threads
     \<Rightarrow> ('w \<times> 'w threads) option" where
  "sched_step en h (Event e) (w, ts) =
     (if en e w then (case seg (h e) w of (w', ps, t) \<Rightarrow> Some (w', ts @ ps @ [t])) else None)"
| "sched_step en h (Answer i j r) (w, ts) =
     (if i < length ts then
        (case ts ! i of
           Await cs k \<Rightarrow>
             (if j < length cs
              then (case seg (k j r) w of (w', ps, t) \<Rightarrow> Some (w', ts[i := t] @ ps)) else None)
         | _ \<Rightarrow> None)
      else None)"

fun exec ::
  "('e \<Rightarrow> 'w \<Rightarrow> bool) \<Rightarrow> ('e \<Rightarrow> ('w, unit) io) \<Rightarrow> 'e turn list \<Rightarrow> 'w \<times> 'w threads
     \<Rightarrow> ('w \<times> 'w threads) option" where
  "exec en h [] c = Some c"
| "exec en h (t # ts) c =
     (case sched_step en h t c of None \<Rightarrow> None | Some c' \<Rightarrow> exec en h ts c')"

inductive reachable ::
  "('e \<Rightarrow> 'w \<Rightarrow> bool) \<Rightarrow> ('e \<Rightarrow> ('w, unit) io) \<Rightarrow> 'w \<Rightarrow> 'w \<times> 'w threads \<Rightarrow> bool"
  for en h w0 where
  start: "reachable en h w0 (w0, [])"
| turn: "reachable en h w0 c \<Longrightarrow> sched_step en h t c = Some c' \<Longrightarrow> reachable en h w0 c'"

inductive_cases reachable_cases: "reachable en h w0 c"

lemma exec_append:
  "exec en h (xs @ ys) c = (case exec en h xs c of None \<Rightarrow> None | Some c' \<Rightarrow> exec en h ys c')"
  by (induction xs arbitrary: c) (auto split: option.split)

lemma exec_then:
  "exec en h xs c = Some c' \<Longrightarrow> exec en h ys c' = r \<Longrightarrow> exec en h (xs @ ys) c = r"
  by (simp add: exec_append)

text \<open>One turn: an event, and the answer to a program that waits for one call.\<close>

lemma exec_event:
  "en ev w \<Longrightarrow> seg (h ev) w = (w', ps, t) \<Longrightarrow>
     exec en h (Event ev # turns) (w, ts) = exec en h turns (w', ts @ ps @ [t])"
  by simp

lemma exec_answer:
  "n < length ts \<Longrightarrow> ts ! n = Await [c] k \<Longrightarrow> seg (k 0 r) w = (w', ps, t) \<Longrightarrow>
     exec en h (Answer n 0 r # turns) (w, ts) = exec en h turns (w', ts[n := t] @ ps)"
  by simp

lemma exec_result: "\<exists>ts. x = Some (w, ts) \<Longrightarrow> P w \<Longrightarrow> \<exists>w' ts. x = Some (w', ts) \<and> P w'"
  by blast

lemma exec_reachable:
  "reachable en h w0 c \<Longrightarrow> exec en h ts c = Some c' \<Longrightarrow> reachable en h w0 c'"
proof (induction ts arbitrary: c)
  case Nil
  then show ?case by simp
next
  case (Cons t ts)
  then show ?case
    by (auto split: option.splits intro: reachable.turn)
qed

lemma exec_reachable_init: "exec en h ts (w0, []) = Some c' \<Longrightarrow> reachable en h w0 c'"
  by (rule exec_reachable [OF reachable.start])

lemma exec_reaches:
  "\<exists>w ts. exec en h turns (w0, []) = Some (w, ts) \<and> P w \<Longrightarrow>
     \<exists>w ts. reachable en h w0 (w, ts) \<and> P w"
  using exec_reachable_init by metis

section \<open>Invariants under every interleaving\<close>

text \<open>
  \<open>wps I Q m w\<close>: the first uninterrupted stretch of \<open>m\<close>, run from \<open>w\<close>, ends in a state that
  satisfies \<open>Q\<close>, and every later stretch, of \<open>m\<close> and of what it set going, ends in a state
  that satisfies \<open>I\<close>, whatever other handlers that keep \<open>I\<close> did in between and whatever the
  answers are. Within a stretch \<open>I\<close> may be broken.
\<close>

primrec wps :: "('w \<Rightarrow> bool) \<Rightarrow> ('w \<Rightarrow> bool) \<Rightarrow> ('w, 'a) io \<Rightarrow> 'w \<Rightarrow> bool" where
  "wps I Q (Ret x) w = Q w"
| "wps I Q (Throw e) w = Q w"
| "wps I Q (Get g) w = wps I Q (g w) w"
| "wps I Q (Put u m) w = wps I Q m (u w)"
| "wps I Q (Await cs k) w = (Q w \<and> (\<forall>i r w'. I w' \<longrightarrow> wps I I (k i r) w'))"
| "wps I Q (Spawn p m) w = wps I (\<lambda>w'. wps I Q m w') p w"

abbreviation wp :: "('w \<Rightarrow> bool) \<Rightarrow> ('w, 'a) io \<Rightarrow> 'w \<Rightarrow> bool" where
  "wp I \<equiv> wps I I"

declare wps.simps [io_simps]

text \<open>What a suspended program guarantees when it goes on.\<close>

fun settles :: "('w \<Rightarrow> bool) \<Rightarrow> ('w, 'a) io \<Rightarrow> bool" where
  "settles I (Await cs k) = (\<forall>i r w. I w \<longrightarrow> wp I (k i r) w)"
| "settles I _ = True"

lemma wps_seg:
  "wps I Q m w \<Longrightarrow> seg m w = (w', ps, t) \<Longrightarrow> Q w' \<and> settles I t \<and> (\<forall>p\<in>set ps. settles I p)"
proof (induction m arbitrary: w w' Q ps t)
  case (Spawn p m)
  from Spawn.prems(2) obtain w1 ps1 p' ms where
    p: "seg p w = (w1, ps1, p')" and m: "seg m w1 = (w', ms, t)" and ps: "ps = ps1 @ p' # ms"
    by (auto split: prod.splits)
  from Spawn.prems(1) have "wps I (\<lambda>w'. wps I Q m w') p w" by simp
  from Spawn.IH(1) [OF this p] have "wps I Q m w1" "settles I p'" "\<forall>p\<in>set ps1. settles I p"
    by auto
  with Spawn.IH(2) [OF this(1) m] ps show ?case by auto
next
  case (Get g)
  then show ?case by (metis wps.simps(3) seg.simps(3))
next
  case (Put u m)
  then show ?case by (metis wps.simps(4) seg.simps(4))
qed auto

lemma wps_mono: "wps I Q m w \<Longrightarrow> (\<And>w. Q w \<Longrightarrow> R w) \<Longrightarrow> wps I R m w"
proof (induction m arbitrary: w Q R)
  case (Spawn p m)
  then show ?case by (metis wps.simps(6))
qed auto

lemma wps_bind:
  fixes f :: "'a \<Rightarrow> ('w, 'b) io"
  assumes "wps I Q m w" "\<And>x w'. Q w' \<Longrightarrow> wps I R (f x) w'" "\<And>x w'. I w' \<Longrightarrow> wp I (f x) w'"
    "\<And>w. Q w \<Longrightarrow> R w"
  shows "wps I R (bind m f) w"
  using assms
proof (induction m arbitrary: w Q R f)
  case (Await cs k)
  have "wp I (bind (k i r) f) w'" if "I w'" for i r w'
    by (rule Await.IH [where Q = I]) (use Await.prems that in auto)
  with Await.prems show ?case by auto
next
  case (Spawn p m)
  have m: "wps I R (bind m f) w'" if "wps I Q m w'" for w'
    by (rule Spawn.IH(2) [OF that]) (use Spawn.prems in auto)
  have "wps I (wps I R (bind m f)) (bind p (\<lambda>_. Throw Detached :: ('w, 'b) io)) w"
  proof (rule Spawn.IH(1) [where Q = "wps I Q m"])
    show "wps I (wps I Q m) p w" using Spawn.prems(1) by simp
  qed (simp_all add: m)
  then show ?case by simp
qed auto

lemma wp_bind:
  "wp I m w \<Longrightarrow> (\<And>x w'. I w' \<Longrightarrow> wp I (f x) w') \<Longrightarrow> wp I (bind m f) w"
  by (rule wps_bind)

lemma wp_detach: "wp I m w \<Longrightarrow> wp I (detach m) w"
  unfolding detach_def by (rule wp_bind) auto

lemma wps_try:
  assumes "wps I Q m w" "\<And>e w'. Q w' \<Longrightarrow> wps I Q (h e) w'" "\<And>e w'. I w' \<Longrightarrow> wp I (h e) w'"
  shows "wps I Q (try_catch m h) w"
  using assms
proof (induction m arbitrary: w Q h)
  case (Spawn p m)
  from Spawn.prems(1) have "wps I (\<lambda>w'. wps I Q m w') p w" by simp
  then have "wps I (\<lambda>w'. wps I Q (try_catch m h) w') p w"
    by (rule wps_mono) (use Spawn in blast)
  then show ?case by simp
qed auto

lemma wp_try:
  "wp I m w \<Longrightarrow> (\<And>e w'. I w' \<Longrightarrow> wp I (h e) w') \<Longrightarrow> wp I (try_catch m h) w"
  by (rule wps_try)

lemma wps_finally:
  assumes "wps I Q m w" "\<And>w. Q w \<Longrightarrow> Q (u w)" "\<And>w. I w \<Longrightarrow> I (u w)"
  shows "wps I Q (finally_do m u) w"
  using assms
proof (induction m arbitrary: w Q)
  case (Spawn p m)
  from Spawn.prems(1) have "wps I (\<lambda>w'. wps I Q m w') p w" by simp
  then have "wps I (\<lambda>w'. wps I Q (finally_do m u) w') p w"
    by (rule wps_mono) (use Spawn in blast)
  then show ?case by simp
qed auto

lemma wp_finally:
  "wp I m w \<Longrightarrow> (\<And>w'. I w' \<Longrightarrow> I (u w')) \<Longrightarrow> wp I (finally_do m u) w"
  by (rule wps_finally)

lemma wp_spawn: "wp I p w \<Longrightarrow> (\<And>w'. I w' \<Longrightarrow> wp I m w') \<Longrightarrow> wp I (Spawn p m) w"
  using wps_mono by (metis wps.simps(6))

lemma wp_fetch [intro]: "I w \<Longrightarrow> wp I (fetch q) w"
  by (auto simp: fetch_def split: reply.split)

lemma wp_yield: "I w \<Longrightarrow> (\<And>w'. I w' \<Longrightarrow> wp I m w') \<Longrightarrow> wp I (yield m) w"
  by (simp add: yield_def)

lemma wp_read_json [intro]: "I w \<Longrightarrow> wp I (read_json r) w"
  unfolding read_json_def by (rule wp_yield) (auto split: option.split)

lemma wp_read_as [intro]: "I w \<Longrightarrow> wp I (read_as f r) w"
  unfolding read_as_def by (rule wp_bind) (auto split: option.split)

text \<open>
  The contract between a component and the event loop: the initial state satisfies the
  invariant and every handler the environment can start keeps it. The loop then keeps it
  under every interleaving.
\<close>

locale handlers =
  fixes en :: "'e \<Rightarrow> 'w \<Rightarrow> bool"
    and h :: "'e \<Rightarrow> ('w, unit) io"
    and I :: "'w \<Rightarrow> bool"
  assumes keeps: "I w \<Longrightarrow> en e w \<Longrightarrow> wp I (h e) w"
begin

lemma step_inv:
  assumes "sched_step en h t (w, ts) = Some (w', ts')" "I w" "\<forall>m\<in>set ts. settles I m"
  shows "I w' \<and> (\<forall>m\<in>set ts'. settles I m)"
proof (cases t)
  case (Event e)
  with assms obtain ps u where en: "en e w" and s: "seg (h e) w = (w', ps, u)" and ts': "ts' = ts @ ps @ [u]"
    by (auto split: if_splits prod.splits)
  from wps_seg [OF keeps [OF assms(2) en] s] show ?thesis
    using assms(3) ts' by auto
next
  case (Answer i j r)
  with assms obtain cs k ps u where *: "i < length ts" "ts ! i = Await cs k" "seg (k j r) w = (w', ps, u)"
    "ts' = ts[i := u] @ ps"
    by (auto split: if_splits io.splits prod.splits)
  from assms(3) * have "settles I (Await cs k)" by (metis nth_mem)
  with assms(2) have "wp I (k j r) w" by simp
  from wps_seg [OF this *(3)] show ?thesis
    using assms(3) * by (auto dest: set_update_subset_insert [THEN subsetD])
qed

lemma exec_inv:
  "exec en h turns c = Some c' \<Longrightarrow> I (fst c) \<and> (\<forall>m\<in>set (snd c). settles I m) \<Longrightarrow>
     I (fst c') \<and> (\<forall>m\<in>set (snd c'). settles I m)"
proof (induction turns arbitrary: c)
  case (Cons t turns)
  from Cons.prems(1) obtain c1 where "sched_step en h t c = Some c1" "exec en h turns c1 = Some c'"
    by (auto split: option.splits)
  with Cons.IH [of c1] Cons.prems(2) show ?case by (metis prod.collapse step_inv)
qed simp

end

locale component = handlers en h I
  for en :: "'e \<Rightarrow> 'w \<Rightarrow> bool"
    and h :: "'e \<Rightarrow> ('w, unit) io"
    and w0 :: "'w"
    and I :: "'w \<Rightarrow> bool" +
  assumes init: "I w0"
begin

lemma reachable_settles: "reachable en h w0 c \<Longrightarrow> I (fst c) \<and> (\<forall>m\<in>set (snd c). settles I m)"
proof (induction rule: reachable.induct)
  case start
  show ?case using init by simp
next
  case (turn c t c')
  then show ?case by (metis prod.collapse step_inv)
qed

lemma invariant: "reachable en h w0 (w, ts) \<Longrightarrow> I w"
  using reachable_settles by fastforce

end

section \<open>One operation in flight\<close>

text \<open>
  The pattern of a form: a flag is raised before the request, its button is disabled while
  the flag is up, and the flag is lowered on every way out. \<open>flight B m w\<close>: run from \<open>w\<close>,
  \<open>m\<close> holds the flag \<open>B\<close> at every suspension point, if others leave it up meanwhile, and
  lowers it at the end.
\<close>

primrec flight :: "('w \<Rightarrow> bool) \<Rightarrow> ('w, 'a) io \<Rightarrow> 'w \<Rightarrow> bool" where
  "flight B (Ret x) w = (\<not> B w)"
| "flight B (Throw e) w = (\<not> B w)"
| "flight B (Get g) w = flight B (g w) w"
| "flight B (Put u m) w = flight B m (u w)"
| "flight B (Await cs k) w = (B w \<and> (\<forall>i r w'. B w' \<longrightarrow> flight B (k i r) w'))"
| "flight B (Spawn p m) w = False"

fun suspended :: "('w, 'a) io \<Rightarrow> bool" where
  "suspended (Await cs k) = True"
| "suspended _ = False"

text \<open>The calls a program waits for.\<close>

fun pending_calls :: "('w, 'a) io \<Rightarrow> call list" where
  "pending_calls (Await cs k) = cs"
| "pending_calls _ = []"

fun lands :: "('w \<Rightarrow> bool) \<Rightarrow> ('w, 'a) io \<Rightarrow> bool" where
  "lands B (Await cs k) = (\<forall>i r w. B w \<longrightarrow> flight B (k i r) w)"
| "lands B _ = True"

text \<open>A program that sets nothing going.\<close>

primrec single :: "('w, 'a) io \<Rightarrow> bool" where
  "single (Ret x) = True"
| "single (Throw e) = True"
| "single (Get g) = (\<forall>w. single (g w))"
| "single (Put u m) = single m"
| "single (Await cs k) = (\<forall>i r. single (k i r))"
| "single (Spawn p m) = False"

declare flight.simps [io_simps]

lemma flight_seg:
  "flight B m w \<Longrightarrow> seg m w = (w', ps, t) \<Longrightarrow> suspended t = B w' \<and> lands B t \<and> ps = []"
  by (induction m arbitrary: w) auto

lemma flight_finally:
  "wp B m w \<Longrightarrow> single m \<Longrightarrow> (\<And>w'. B w' \<Longrightarrow> \<not> B (u w')) \<Longrightarrow> flight B (finally_do m u) w"
  by (induction m arbitrary: w) auto

lemma flight_upd [simp]: "flight B (upd u) w = (\<not> B (u w))"
  by (simp add: upd_def)

lemma single_bind: "single m \<Longrightarrow> (\<And>x. single (f x)) \<Longrightarrow> single (bind m f)"
  by (induction m) auto

lemma single_try: "single m \<Longrightarrow> (\<And>e. single (h e)) \<Longrightarrow> single (try_catch m h)"
  by (induction m) auto

lemma single_finally: "single m \<Longrightarrow> single (finally_do m u)"
  by (induction m) auto

lemma single_basic [simp, intro]:
  "single (fetch q)" "single (read_json r)" "single (read_as f r)" "single (upd u)" "single skip"
  by (simp_all add: io_simps split: reply.split option.split)

definition in_flight :: "'w threads \<Rightarrow> nat" where
  "in_flight ts = length (filter suspended ts)"

lemma in_flight_snoc [simp]: "in_flight (ts @ [t]) = in_flight ts + (if suspended t then 1 else 0)"
  by (simp add: in_flight_def)

lemma in_flight_update:
  assumes "i < length ts" "suspended (ts ! i)"
  shows "in_flight (ts[i := t]) = in_flight ts - (if suspended t then 0 else 1)"
    and "0 < in_flight ts"
proof -
  from assms(1) have "ts = take i ts @ ts ! i # drop (Suc i) ts"
    by (rule id_take_nth_drop)
  then have "filter suspended ts =
      filter suspended (take i ts) @ ts ! i # filter suspended (drop (Suc i) ts)"
    by (metis assms(2) filter.simps(2) filter_append)
  then show "in_flight (ts[i := t]) = in_flight ts - (if suspended t then 0 else 1)"
    and "0 < in_flight ts"
    using assms(1) by (simp_all add: in_flight_def upd_conv_take_nth_drop)
qed

locale single_flight =
  fixes en :: "'e \<Rightarrow> 'w \<Rightarrow> bool"
    and h :: "'e \<Rightarrow> ('w, unit) io"
    and w0 :: "'w"
    and busy :: "'w \<Rightarrow> bool"
  assumes idle: "\<not> busy w0"
    and takes_off: "en e w \<Longrightarrow> \<not> busy w \<Longrightarrow> flight busy (h e) w"
    and waits: "en e w \<Longrightarrow> busy w \<Longrightarrow> seg (h e) w = (w', ps, t) \<Longrightarrow>
      busy w' \<and> \<not> suspended t \<and> ps = []"
begin

definition one_flight :: "'w \<times> 'w threads \<Rightarrow> bool" where
  "one_flight c \<longleftrightarrow> in_flight (snd c) = (if busy (fst c) then 1 else 0) \<and>
     (\<forall>t\<in>set (snd c). lands busy t)"

lemma step_one_flight:
  assumes "sched_step en h t (w, ts) = Some (w', ts')" "one_flight (w, ts)"
  shows "one_flight (w', ts')"
proof (cases t)
  case (Event e)
  with assms(1) obtain u ps where en: "en e w" and s: "seg (h e) w = (w', ps, u)" and ts': "ts' = ts @ ps @ [u]"
    by (auto split: if_splits prod.splits)
  show ?thesis
  proof (cases "busy w")
    case True
    have "busy w' \<and> \<not> suspended u \<and> ps = []" by (rule waits [OF en True s])
    moreover have "lands busy u" using calculation by (cases u) auto
    ultimately show ?thesis using assms(2) True ts' by (auto simp: one_flight_def)
  next
    case False
    with en have "flight busy (h e) w" by (blast intro: takes_off)
    from flight_seg [OF this s] show ?thesis
      using assms(2) False ts' by (auto simp: one_flight_def)
  qed
next
  case (Answer i j r)
  with assms(1) obtain cs k u ps where *: "i < length ts" "ts ! i = Await cs k"
    "seg (k j r) w = (w', ps, u)" "ts' = ts[i := u] @ ps"
    by (auto split: if_splits io.splits prod.splits)
  have inf: "0 < in_flight ts" using * by (intro in_flight_update) auto
  with assms(2) have b: "busy w" by (auto simp: one_flight_def split: if_splits)
  from assms(2) * have "lands busy (Await cs k)" by (metis nth_mem one_flight_def snd_conv)
  with b have "flight busy (k j r) w" by simp
  note fs = flight_seg [OF this *(3)]
  with * have ts': "ts' = ts[i := u]" by simp
  have "in_flight ts' = in_flight ts - (if suspended u then 0 else 1)"
    unfolding ts' by (rule in_flight_update) (use * in auto)
  with assms(2) b fs inf ts' show ?thesis
    by (auto simp: one_flight_def dest: set_update_subset_insert [THEN subsetD])
qed

lemma reachable_one_flight: "reachable en h w0 c \<Longrightarrow> one_flight c"
proof (induction rule: reachable.induct)
  case start
  show ?case using idle by (simp add: one_flight_def in_flight_def)
next
  case (turn c t c')
  then show ?case by (metis prod.collapse step_one_flight)
qed

lemma at_most_one: "reachable en h w0 (w, ts) \<Longrightarrow> in_flight ts = (if busy w then 1 else 0)"
  using reachable_one_flight by (fastforce simp: one_flight_def)

end


section \<open>What suspended programs leave alone\<close>

text \<open>
  \<open>frames f m\<close>: no stretch of \<open>m\<close> changes \<open>f\<close> of the state; \<open>tail_frames f m\<close>: none but
  the first one does. When every handler is of the second kind, \<open>f\<close> changes only when an
  event is handled, never when a suspended program goes on.
\<close>

primrec frames :: "('w \<Rightarrow> 'v) \<Rightarrow> ('w, 'a) io \<Rightarrow> bool" where
  "frames f (Ret x) = True"
| "frames f (Throw e) = True"
| "frames f (Get g) = (\<forall>w. frames f (g w))"
| "frames f (Put u m) = ((\<forall>w. f (u w) = f w) \<and> frames f m)"
| "frames f (Await cs k) = (\<forall>i r. frames f (k i r))"
| "frames f (Spawn p m) = (frames f p \<and> frames f m)"

primrec tail_frames :: "('w \<Rightarrow> 'v) \<Rightarrow> ('w, 'a) io \<Rightarrow> bool" where
  "tail_frames f (Ret x) = True"
| "tail_frames f (Throw e) = True"
| "tail_frames f (Get g) = (\<forall>w. tail_frames f (g w))"
| "tail_frames f (Put u m) = tail_frames f m"
| "tail_frames f (Await cs k) = (\<forall>i r. frames f (k i r))"
| "tail_frames f (Spawn p m) = (tail_frames f p \<and> tail_frames f m)"

declare frames.simps [io_simps] tail_frames.simps [io_simps]

lemma frames_tail: "frames f m \<Longrightarrow> tail_frames f m"
  by (induction m) auto

lemma frames_seg:
  assumes "frames f m" "seg m w = (w', ps, t)"
  shows "f w' = f w \<and> frames f t \<and> (\<forall>p\<in>set ps. frames f p)"
  using assms
proof (induction m arbitrary: w w' ps t)
  case (Spawn p m)
  from Spawn.prems(2) obtain w1 ps1 p' ms where
    p: "seg p w = (w1, ps1, p')" and m: "seg m w1 = (w', ms, t)" and ps: "ps = ps1 @ p' # ms"
    by (auto split: prod.splits)
  from Spawn.prems(1) have fr: "frames f p" "frames f m" by simp_all
  from Spawn.IH(1) [OF fr(1) p] Spawn.IH(2) [OF fr(2) m] ps show ?case
    by (metis UnE set_append set_ConsD)
next
  case (Get g)
  have "frames f (g w)" "seg (g w) w = (w', ps, t)" using Get.prems by simp_all
  then show ?case by (rule Get.IH)
next
  case (Put u m)
  have fr: "frames f m" "seg m (u w) = (w', ps, t)" and u: "f (u w) = f w" using Put.prems by simp_all
  from Put.IH [OF fr] u show ?case by metis
next
  case (Await cs k)
  have "w' = w \<and> ps = [] \<and> t = Await cs k" using Await.prems(2) by auto
  with Await.prems(1) show ?case by simp
qed auto

lemma tail_frames_seg:
  "tail_frames f m \<Longrightarrow> seg m w = (w', ps, t) \<Longrightarrow> frames f t \<and> (\<forall>p\<in>set ps. frames f p)"
proof (induction m arbitrary: w w' ps t)
  case (Spawn p m)
  from Spawn.prems(2) obtain w1 ps1 p' ms where
    p: "seg p w = (w1, ps1, p')" and m: "seg m w1 = (w', ms, t)" and ps: "ps = ps1 @ p' # ms"
    by (auto split: prod.splits)
  from Spawn.prems(1) have fr: "tail_frames f p" "tail_frames f m" by simp_all
  from Spawn.IH(1) [OF fr(1) p] Spawn.IH(2) [OF fr(2) m] ps show ?case
    by (metis UnE set_append set_ConsD)
next
  case (Get g)
  have "tail_frames f (g w)" "seg (g w) w = (w', ps, t)" using Get.prems by simp_all
  then show ?case by (rule Get.IH)
next
  case (Put u m)
  have "tail_frames f m" "seg m (u w) = (w', ps, t)" using Put.prems by simp_all
  then show ?case by (rule Put.IH)
qed simp_all

lemma frames_bind: "frames f m \<Longrightarrow> (\<And>x. frames f (g x)) \<Longrightarrow> frames f (bind m g)"
  by (induction m arbitrary: g) auto

lemma frames_try: "frames f m \<Longrightarrow> (\<And>e. frames f (h e)) \<Longrightarrow> frames f (try_catch m h)"
  by (induction m) auto

lemma frames_finally: "frames f m \<Longrightarrow> (\<And>w. f (u w) = f w) \<Longrightarrow> frames f (finally_do m u)"
  by (induction m) auto

lemma frames_par_await:
  "(\<And>i r m'. frames f m' \<Longrightarrow> frames f (K i r m')) \<Longrightarrow> (\<And>i r. frames f (D i r)) \<Longrightarrow> frames f m \<Longrightarrow>
     frames f (par_await cs K D m)"
  by (induction m) (auto simp: frames_bind)

lemma frames_par: "frames f m1 \<Longrightarrow> frames f m2 \<Longrightarrow> frames f (par m1 m2)"
proof (induction m1 arbitrary: m2)
  case (Await cs k)
  have "frames f (par_await cs (\<lambda>i r. par (k i r)) (\<lambda>i r. bind (k i r) (\<lambda>_. Throw Detached)) m2)"
    using Await by (intro frames_par_await frames_bind) simp_all
  then show ?case by simp
qed (simp_all add: detach_def frames_bind)

lemma frames_basic [simp, intro]:
  "frames f (fetch q)" "frames f (read_json r)" "frames f (read_as d r)" "frames f skip"
  by (simp_all add: io_simps split: reply.split option.split)

lemma frames_upd [simp]: "frames f (upd u) = (\<forall>w. f (u w) = f w)"
  by (simp add: upd_def)

text \<open>A program that leaves \<open>f\<close> alone keeps whatever depends on \<open>f\<close> only.\<close>

lemma wps_frames:
  assumes "frames f m" "\<And>w w'. f w' = f w \<Longrightarrow> I w \<Longrightarrow> I w'"
    and "\<And>w w'. f w' = f w \<Longrightarrow> Q w \<Longrightarrow> Q w'" "Q w"
  shows "wps I Q m w"
  using assms(1,3,4)
proof (induction m arbitrary: w Q)
  case (Put u m)
  from Put.prems have "Q (u w)" "frames f m" by auto
  with Put.IH Put.prems(2) show ?case by simp
next
  case (Await cs k)
  then show ?case using assms(2) by simp
next
  case (Spawn p m)
  have "wps I Q p w" by (rule Spawn.IH(1)) (use Spawn.prems in auto)
  moreover have "wps I Q m w'" if "Q w'" for w'
    by (rule Spawn.IH(2)) (use Spawn.prems that in auto)
  ultimately show ?case using wps_mono by (metis wps.simps(6))
qed simp_all

lemma wp_frames:
  "frames f m \<Longrightarrow> (\<And>w w'. f w' = f w \<Longrightarrow> I w \<Longrightarrow> I w') \<Longrightarrow> I w \<Longrightarrow> wp I m w"
  by (rule wps_frames)

lemma seg_wps:
  "seg m w = (w', ps, t) \<Longrightarrow> Q w' \<Longrightarrow> settles I t \<Longrightarrow> \<forall>p\<in>set ps. settles I p \<Longrightarrow> wps I Q m w"
proof (induction m arbitrary: w w' Q ps t)
  case (Spawn p m)
  from Spawn.prems(1) obtain w1 ps1 p' ms where
    p: "seg p w = (w1, ps1, p')" and m: "seg m w1 = (w', ms, t)" and ps: "ps = ps1 @ p' # ms"
    by (auto split: prod.splits)
  have "wps I Q m w1" by (rule Spawn.IH(2) [OF m]) (use Spawn.prems ps in auto)
  then have "wps I (\<lambda>w'. wps I Q m w') p w"
    by (rule Spawn.IH(1) [OF p]) (use Spawn.prems ps in auto)
  then show ?case by simp
qed auto

lemma frames_settles:
  assumes "frames f t" "\<And>w w'. f w' = f w \<Longrightarrow> I w \<Longrightarrow> I w'"
  shows "settles I t"
proof (cases t)
  case (Await cs k)
  have "wp I (k i r) w" if "I w" for i r w
    by (rule wp_frames [where f = f]) (use assms Await that in auto)
  with Await show ?thesis by simp
qed simp_all

lemma wps_seg_frames:
  assumes "frames f m" "\<And>w w'. f w' = f w \<Longrightarrow> I w \<Longrightarrow> I w'"
    and "seg m w = (w', ps, t)" "Q w'"
  shows "wps I Q m w"
proof (rule seg_wps [of m w w' ps t Q, OF assms(3,4)])
  from frames_seg [OF assms(1,3)] have "frames f t" "\<forall>p\<in>set ps. frames f p" by auto
  then show "settles I t" "\<forall>p\<in>set ps. settles I p"
    using frames_settles assms(2) by blast+
qed

locale quiet_threads =
  fixes en :: "'e \<Rightarrow> 'w \<Rightarrow> bool"
    and h :: "'e \<Rightarrow> ('w, unit) io"
    and w0 :: "'w"
    and f :: "'w \<Rightarrow> 'v"
  assumes quiet: "tail_frames f (h e)"
begin

lemma reachable_frames: "reachable en h w0 c \<Longrightarrow> \<forall>t\<in>set (snd c). frames f t"
proof (induction rule: reachable.induct)
  case start
  show ?case by simp
next
  case (turn c t c')
  obtain w ts where c: "c = (w, ts)" by (cases c)
  show ?case
  proof (cases t)
    case (Event e)
    with turn(2) c obtain w' ps u where "seg (h e) w = (w', ps, u)" "c' = (w', ts @ ps @ [u])"
      by (auto split: if_splits prod.splits)
    with tail_frames_seg [OF quiet this(1)] turn(3) c show ?thesis by auto
  next
    case (Answer i j r)
    with turn(2) c obtain cs k w' ps u where *: "i < length ts" "ts ! i = Await cs k"
      "seg (k j r) w = (w', ps, u)" "c' = (w', ts[i := u] @ ps)"
      by (auto split: if_splits io.splits prod.splits)
    from turn(3) c * have "frames f (Await cs k)" by (metis nth_mem snd_conv)
    then have "frames f (k j r)" by simp
    from frames_seg [OF this *(3)] turn(3) c * show ?thesis
      by (auto dest: set_update_subset_insert [THEN subsetD])
  qed
qed

lemma answer_frames:
  assumes "reachable en h w0 (w, ts)" "sched_step en h (Answer i j r) (w, ts) = Some (w', ts')"
  shows "f w' = f w"
proof -
  from assms(2) obtain cs k ps u where *: "i < length ts" "ts ! i = Await cs k"
    "seg (k j r) w = (w', ps, u)"
    by (auto split: if_splits io.splits prod.splits)
  from reachable_frames [OF assms(1)] * have "frames f (Await cs k)" by (metis nth_mem snd_conv)
  then have "frames f (k j r)" by simp
  from frames_seg [OF this *(3)] show ?thesis by simp
qed

end

section \<open>One guarded operation among others\<close>

text \<open>
  A component that runs several kinds of programs at once, one of which is guarded by a flag:
  \<open>owners B ts\<close> counts the suspended programs that can still change the flag \<open>B\<close>.
\<close>

definition owns :: "('w \<Rightarrow> bool) \<Rightarrow> ('w, 'a) io \<Rightarrow> bool" where
  "owns B t \<longleftrightarrow> suspended t \<and> \<not> frames B t"

definition owners :: "('w \<Rightarrow> bool) \<Rightarrow> 'w threads \<Rightarrow> nat" where
  "owners B ts = length (filter (owns B) ts)"

lemma owners_Nil [simp]: "owners B [] = 0"
  by (simp add: owners_def)

lemma owners_append [simp]: "owners B (ts @ us) = owners B ts + owners B us"
  by (simp add: owners_def)

lemma owners_single [simp]: "owners B [t] = (if owns B t then 1 else 0)"
  by (simp add: owners_def)

lemma owners_frames: "\<forall>t\<in>set ts. frames B t \<Longrightarrow> owners B ts = 0"
  by (simp add: owners_def owns_def)

lemma owners_update:
  assumes "i < length ts"
  shows "owners B (ts[i := t]) + (if owns B (ts ! i) then 1 else 0) =
    owners B ts + (if owns B t then 1 else 0)"
proof -
  from assms have "ts = take i ts @ ts ! i # drop (Suc i) ts"
    by (rule id_take_nth_drop)
  then have "filter (owns B) ts =
      filter (owns B) (take i ts) @ filter (owns B) [ts ! i] @ filter (owns B) (drop (Suc i) ts)"
    by (metis append_Cons append_Nil filter_append)
  then show ?thesis using assms by (simp add: owners_def upd_conv_take_nth_drop)
qed

lemma owners_pos: "t \<in> set ts \<Longrightarrow> owns B t \<Longrightarrow> 0 < owners B ts"
  by (induction ts) (auto simp: owners_def)

text \<open>A program that must clear the flag before it ends can change it.\<close>

lemma flight_not_frames: "flight B m w \<Longrightarrow> B w \<Longrightarrow> \<not> frames B m"
  by (induction m arbitrary: w) (simp_all, blast, metis)

lemma lands_owns: "lands B t \<Longrightarrow> B w \<Longrightarrow> suspended t \<Longrightarrow> owns B t"
  by (cases t) (auto simp: owns_def, metis flight_not_frames)

locale guarded_flight =
  fixes en :: "'e \<Rightarrow> 'w \<Rightarrow> bool"
    and h :: "'e \<Rightarrow> ('w, unit) io"
    and w0 :: "'w"
    and busy :: "'w \<Rightarrow> bool"
  assumes idle: "\<not> busy w0"
    and each: "en e w \<Longrightarrow> frames busy (h e) \<or>
      (if busy w
       then \<forall>w' ps t. seg (h e) w = (w', ps, t) \<longrightarrow> busy w' \<and> \<not> suspended t \<and> ps = []
       else flight busy (h e) w)"
begin

definition guarded :: "'w \<times> 'w threads \<Rightarrow> bool" where
  "guarded c \<longleftrightarrow> owners busy (snd c) = (if busy (fst c) then 1 else 0) \<and>
     (\<forall>t\<in>set (snd c). frames busy t \<or> lands busy t)"

lemma step_event:
  assumes "en e w" "seg (h e) w = (w', ps, u)" "guarded (w, ts)"
  shows "guarded (w', ts @ ps @ [u])"
proof (cases "frames busy (h e)")
  case True
  from frames_seg [OF this assms(2)] assms(3) show ?thesis
    by (simp add: guarded_def owners_frames owns_def ball_Un)
next
  case False
  show ?thesis
  proof (cases "busy w")
    case True
    with each [OF assms(1)] False assms(2) have "busy w' \<and> \<not> suspended u \<and> ps = []" by simp
    moreover from this have "lands busy u" by (cases u) auto
    ultimately show ?thesis using assms(3) True by (simp add: guarded_def owns_def)
  next
    case idle: False
    with each [OF assms(1)] False have "flight busy (h e) w" by simp
    from flight_seg [OF this assms(2)] have *: "suspended u = busy w'" "lands busy u" "ps = []"
      by auto
    have "owns busy u = busy w'" using * lands_owns [of busy u w'] by (auto simp: owns_def)
    with * assms(3) idle show ?thesis by (simp add: guarded_def)
  qed
qed

lemma step_answer:
  assumes "i < length ts" "ts ! i = Await cs k" "seg (k j r) w = (w', ps, u)" "guarded (w, ts)"
  shows "guarded (w', ts[i := u] @ ps)"
proof (cases "frames busy (Await cs k)")
  case True
  then have "frames busy (k j r)" by simp
  note f = frames_seg [OF this assms(3)]
  have "owners busy (ts[i := u]) = owners busy ts"
    using owners_update [OF assms(1), of busy u] f True assms(2) by (simp add: owns_def)
  with f assms(4) show ?thesis
    by (auto simp: guarded_def owners_frames dest: set_update_subset_insert [THEN subsetD])
next
  case False
  then have o: "owns busy (ts ! i)" using assms(2) by (simp add: owns_def)
  with assms(1) have "0 < owners busy ts" by (intro owners_pos [of "ts ! i"]) simp_all
  with assms(4) have b: "busy w" by (simp add: guarded_def split: if_splits)
  have "lands busy (Await cs k)"
    using assms False by (metis guarded_def nth_mem snd_conv)
  with b have "flight busy (k j r) w" by simp
  from flight_seg [OF this assms(3)] have *: "suspended u = busy w'" "lands busy u" "ps = []"
    by auto
  have "owns busy u = busy w'" using * lands_owns [of busy u w'] by (auto simp: owns_def)
  with owners_update [OF assms(1), of busy u] o * b assms(4) show ?thesis
    by (auto simp: guarded_def dest: set_update_subset_insert [THEN subsetD])
qed

lemma reachable_guarded: "reachable en h w0 c \<Longrightarrow> guarded c"
proof (induction rule: reachable.induct)
  case start
  show ?case using idle by (simp add: guarded_def)
next
  case (turn c t c')
  obtain w ts where c: "c = (w, ts)" by (cases c)
  show ?case
  proof (cases t)
    case (Event e)
    with turn(2) c obtain w' ps u where "en e w" "seg (h e) w = (w', ps, u)" "c' = (w', ts @ ps @ [u])"
      by (auto split: if_splits prod.splits)
    with step_event turn(3) c show ?thesis by simp
  next
    case (Answer i j r)
    with turn(2) c obtain cs k w' ps u where "i < length ts" "ts ! i = Await cs k"
      "seg (k j r) w = (w', ps, u)" "c' = (w', ts[i := u] @ ps)"
      by (auto split: if_splits io.splits prod.splits)
    with step_answer turn(3) c show ?thesis by simp
  qed
qed

lemma one_owner: "reachable en h w0 (w, ts) \<Longrightarrow> owners busy ts = (if busy w then 1 else 0)"
  using reachable_guarded by (fastforce simp: guarded_def)

end

text \<open>The invariants of \<open>Promise.all\<close>.\<close>

lemma wps_par_await:
  fixes m :: "('w, 'b) io" and D :: "nat \<Rightarrow> reply \<Rightarrow> ('w, 'c) io"
  assumes K: "\<And>i r m' w. (\<And>w. I w \<Longrightarrow> wp I m' w) \<Longrightarrow> I w \<Longrightarrow> wp I (K i r m') w"
    and D: "\<And>i r w. I w \<Longrightarrow> wp I (D i r) w"
    and "wps I Q m w" "\<And>w. Q w \<Longrightarrow> R w"
  shows "wps I R (par_await cs K D m) w"
  using assms(3,4)
proof (induction m arbitrary: w Q R)
  case (Await ds l)
  have "wp I (par_await cs K D (l i r)) w'" if "I w'" for i r w'
    by (rule Await.IH [where Q = I]) (use Await.prems(1) that in simp_all)
  moreover have "wp I (K i r (Await ds l)) w'" if "I w'" for i r w'
    by (rule K) (use Await.prems(1) that in simp_all)
  ultimately show ?case using Await.prems by simp
next
  case (Ret y)
  have "wp I (K i r (Ret y)) w'" if "I w'" for i r w'
    by (rule K) (use that in simp_all)
  with Ret show ?case by simp
next
  case (Throw e)
  with D show ?case by simp
next
  case (Get g)
  have "wps I R (par_await cs K D (g w)) w"
    by (rule Get.IH [where Q = Q]) (use Get.prems in simp_all)
  then show ?case by simp
next
  case (Put u m)
  have "wps I R (par_await cs K D m) (u w)"
    by (rule Put.IH [where Q = Q]) (use Put.prems in simp_all)
  then show ?case by simp
next
  case (Spawn p m)
  have m: "wps I R (par_await cs K D m) w'" if "wps I Q m w'" for w'
    by (rule Spawn.IH(2) [OF that]) (use Spawn.prems in simp)
  have "wps I (wps I R (par_await cs K D m)) (bind p (\<lambda>_. Throw Detached :: ('w, 'c) io)) w"
  proof (rule wps_bind [where Q = "wps I Q m"])
    show "wps I (wps I Q m) p w" using Spawn.prems(1) by simp
  qed (simp_all add: m)
  then show ?case by simp
qed

lemma wps_par:
  fixes m1 :: "('w, 'b) io" and m2 :: "('w, 'c) io"
  assumes "wps I Q m1 w" "\<And>w. Q w \<Longrightarrow> wps I R m2 w" "\<And>w. I w \<Longrightarrow> wp I m2 w"
  shows "wps I R (par m1 m2) w"
  using assms
proof (induction m1 arbitrary: w Q R m2)
  case (Ret x)
  show ?case by simp (rule wps_bind [where Q = R], use Ret in simp_all)
next
  case (Throw e)
  have "wps I R (detach m2 :: ('w, 'b \<times> 'c) io) w"
    unfolding detach_def by (rule wps_bind [where Q = R]) (use Throw in simp_all)
  then show ?case by simp
next
  case (Get g)
  have "wps I R (par (g w) m2) w"
    by (rule Get.IH [where Q = Q]) (use Get.prems in simp_all)
  then show ?case by simp
next
  case (Put u m)
  have "wps I R (par m m2) (u w)"
    by (rule Put.IH [where Q = Q]) (use Put.prems in simp_all)
  then show ?case by simp
next
  case (Await cs k)
  have 1: "wp I (par (k i r) m') w'" if "\<And>w. I w \<Longrightarrow> wp I m' w" "I w'"
    for i r w' and m' :: "('w, 'c) io"
    by (rule Await.IH [where Q = I]) (use Await.prems(1) that in simp_all)
  have 2: "wp I (bind (k i r) (\<lambda>_. Throw Detached :: ('w, 'b \<times> 'c) io)) w'" if "I w'" for i r w'
    by (rule wp_bind) (use Await.prems(1) that in simp_all)
  have "wps I R m2 w" using Await.prems by simp
  then have "wps I R (par_await cs (\<lambda>i r. par (k i r)) (\<lambda>i r. bind (k i r) (\<lambda>_. Throw Detached)) m2) w"
    by (intro wps_par_await 1 2) simp_all
  then show ?case by simp
next
  case (Spawn p m)
  have m: "wps I R (par m m2) w'" if "wps I Q m w'" for w'
    by (rule Spawn.IH(2) [OF that]) (use Spawn.prems in simp_all)
  have "wps I (wps I R (par m m2)) (detach p :: ('w, 'b \<times> 'c) io) w"
    unfolding detach_def
  proof (rule wps_bind [where Q = "wps I Q m"])
    show "wps I (wps I Q m) p w" using Spawn.prems(1) by simp
  qed (simp_all add: m)
  then show ?case by simp
qed

lemma wp_par: "wp I m1 w \<Longrightarrow> (\<And>w. I w \<Longrightarrow> wp I m2 w) \<Longrightarrow> wp I (par m1 m2) w"
  by (rule wps_par)

end
