(* ===== verification/Browser.thy ===== *)
theory Browser
  imports Runtime
begin

text \<open>
  The part of the browser every page shares: \<open>localStorage\<close>, the navigations a script asks
  for by assigning \<open>window.location.href\<close>, and the build-time environment. A component's
  state extends \<open>browser\<close>, so a program over the browser runs in every component.
\<close>

named_theorems browser_ops \<open>the operations scripts apply to the browser\<close>

record browser =
  storage :: "string \<Rightarrow> string option"
  hrefs :: "string list"

text \<open>
  \<open>api_url\<close> is \<open>process.env.NEXT_PUBLIC_API_URL\<close>; \<open>window\<close> holds the protocol and the host
  of \<open>window.location\<close>, \<open>None\<close> where \<open>window\<close> is undefined (server-side rendering).
\<close>

record env =
  api_url :: "string option"
  window :: "(string \<times> string) option"

section \<open>localStorage\<close>

definition getItem :: "'z browser_scheme \<Rightarrow> string \<Rightarrow> string option" where
  "getItem w k = storage w k"

definition setItem :: "string \<Rightarrow> string \<Rightarrow> 'z browser_scheme \<Rightarrow> 'z browser_scheme" where
  "setItem k v w = w\<lparr>storage := (storage w)(k := Some v)\<rparr>"

definition removeItem :: "string \<Rightarrow> 'z browser_scheme \<Rightarrow> 'z browser_scheme" where
  "removeItem k w = w\<lparr>storage := (storage w)(k := None)\<rparr>"

definition set_href :: "string \<Rightarrow> 'z browser_scheme \<Rightarrow> 'z browser_scheme" where
  "set_href u w = w\<lparr>hrefs := hrefs w @ [u]\<rparr>"

declare getItem_def [browser_ops] setItem_def [browser_ops] removeItem_def [browser_ops]
  set_href_def [browser_ops]

text \<open>The token a script finds: an absent and an empty item are both falsy.\<close>

definition truthy :: "string option \<Rightarrow> string option" where
  "truthy s = (case s of None \<Rightarrow> None | Some t \<Rightarrow> if t = [] then None else Some t)"

lemma truthy_simps [simp]:
  "truthy None = None" "truthy (Some []) = None" "t \<noteq> [] \<Longrightarrow> truthy (Some t) = Some t"
  by (simp_all add: truthy_def)

lemma truthy_Some_iff: "truthy s = Some t \<longleftrightarrow> s = Some t \<and> t \<noteq> []"
  by (auto simp: truthy_def split: option.splits if_splits)

text \<open>
  The storage contract the session code relies on, and what it gives: a value is read back
  until it is overwritten or removed, and other keys are not touched.
\<close>

locale item_store =
  fixes get :: "'s \<Rightarrow> 'k \<Rightarrow> 'v option"
    and put :: "'k \<Rightarrow> 'v \<Rightarrow> 's \<Rightarrow> 's"
    and del :: "'k \<Rightarrow> 's \<Rightarrow> 's"
  assumes get_put: "get (put k v s) k' = (if k' = k then Some v else get s k')"
    and get_del: "get (del k s) k' = (if k' = k then None else get s k')"
begin

lemma put_put: "get (put k v (put k u s)) k' = get (put k v s) k'"
  by (simp add: get_put)

lemma del_both: "get (del a (del b s)) k = (if k = a \<or> k = b then None else get s k)"
  by (simp add: get_del)

lemma put_both:
  "a \<noteq> b \<Longrightarrow> get (put b y (put a x s)) a = Some x \<and> get (put b y (put a x s)) b = Some y"
  by (simp add: get_put)

lemma put_frame: "k' \<noteq> k \<Longrightarrow> get (put k v s) k' = get s k'"
  by (simp add: get_put)

end

interpretation local_storage: item_store getItem setItem removeItem
  by unfold_locales (simp_all add: getItem_def setItem_def removeItem_def)

lemma getItem_set_href [simp]: "getItem (set_href u w) k = getItem w k"
  by (simp add: getItem_def set_href_def)

lemma storage_updates [simp]:
  "storage (setItem k v w) = (storage w)(k := Some v)"
  "storage (removeItem k w) = (storage w)(k := None)"
  "storage (set_href u w) = storage w"
  "hrefs (setItem k v w) = hrefs w"
  "hrefs (removeItem k w) = hrefs w"
  "hrefs (set_href u w) = hrefs w @ [u]"
  by (simp_all add: setItem_def removeItem_def set_href_def)

lemma more_updates [simp]:
  "browser.more (setItem k v w) = browser.more w"
  "browser.more (removeItem k w) = browser.more w"
  "browser.more (set_href u w) = browser.more w"
  by (simp_all add: setItem_def removeItem_def set_href_def)

section \<open>Coercion to a string\<close>

text \<open>
  \<open>String(v)\<close>, as \<open>setItem\<close> and template literals apply it; undefined is \<open>None\<close>.
\<close>

fun show_nat :: "nat \<Rightarrow> string" where
  "show_nat n = (if n < 10 then [char_of (n + 48)] else show_nat (n div 10) @ [char_of (n mod 10 + 48)])"

declare show_nat.simps [simp del]

definition show_int :: "int \<Rightarrow> string" where
  "show_int i = (if i < 0 then CHR 0x2D # show_nat (nat (- i)) else show_nat (nat i))"

lemma show_nat_digits: "c \<in> set (show_nat n) \<Longrightarrow> of_char c \<in> {48 .. (57 :: nat)}"
proof (induction n rule: show_nat.induct)
  case (1 n)
  then show ?case
    by (cases "n < 10") (auto simp: show_nat.simps [of n] of_char_of)
qed

lemma show_int_no_letter: "CHR ''n'' \<notin> set (show_int i)"
  using show_nat_digits [of "CHR ''n''" "nat i"] show_nat_digits [of "CHR ''n''" "nat (- i)"]
  by (auto simp: show_int_def)

fun join_with :: "string \<Rightarrow> string list \<Rightarrow> string" where
  "join_with d [] = []"
| "join_with d [s] = s"
| "join_with d (s # ss) = s @ d @ join_with d ss"

fun json_string :: "json \<Rightarrow> string" where
  "json_string JNull = ''null''"
| "json_string (JBool b) = (if b then ''true'' else ''false'')"
| "json_string (JNum n) = show_int n"
| "json_string (JStr s) = s"
| "json_string (JArr js) =
     join_with '','' (map (\<lambda>j. if j = JNull then [] else json_string j) js)"
| "json_string (JObj fs) = ''[object Object]''"

definition js_string :: "json option \<Rightarrow> string" where
  "js_string v = (case v of None \<Rightarrow> ''undefined'' | Some j \<Rightarrow> json_string j)"

text \<open>\<open>body.error ?? fallback\<close> of a parsed error body.\<close>

definition error_or :: "string \<Rightarrow> json option \<Rightarrow> string" where
  "error_or d e = (case e of None \<Rightarrow> d | Some JNull \<Rightarrow> d | Some j \<Rightarrow> json_string j)"

end
