(* ===== verification/Api.thy ===== *)
theory Api
  imports Browser
begin

text \<open>
  \<open>apps/web-app/app/lib/api.ts\<close>: the base path of the gateway, the WebSocket address, and
  \<open>apiFetch\<close>, the authenticated request with its one refresh-and-retry.
\<close>

section \<open>Addresses\<close>

definition GATEWAY :: "env \<Rightarrow> string" where
  "GATEWAY e = or_default (api_url e) ''/api''"

text \<open>The pattern \<open>/^https?:/i\<close>.\<close>

definition absolute_url :: "string \<Rightarrow> bool" where
  "absolute_url u \<longleftrightarrow> starts_with ''http:'' (lower u) \<or> starts_with ''https:'' (lower u)"

definition getWebSocketUrl :: "env \<Rightarrow> string \<Rightarrow> 'z browser_scheme \<Rightarrow> string" where
  "getWebSocketUrl e path w =
     (let wsGateway =
        (if absolute_url (GATEWAY e) then ''ws'' @ drop 4 (GATEWAY e)
         else case window e of
           Some (protocol, host) \<Rightarrow>
             (if protocol = ''https:'' then ''wss:'' else ''ws:'') @ ''//'' @ host @ GATEWAY e
         | None \<Rightarrow> GATEWAY e);
        url = wsGateway @ path
      in case window e of
           None \<Rightarrow> url
         | Some _ \<Rightarrow>
             (case truthy (getItem w ''access_token'') of
                Some token \<Rightarrow> url @ ''?token='' @ token
              | None \<Rightarrow> url))"

section \<open>Headers\<close>

text \<open>\<open>Headers\<close> folds the case of names; a repeated name is joined with a comma.\<close>

definition header_get :: "string \<Rightarrow> (string \<times> string) list \<Rightarrow> string option" where
  "header_get k hs = map_of hs (lower k)"

definition header_set :: "string \<Rightarrow> string \<Rightarrow> (string \<times> string) list \<Rightarrow> (string \<times> string) list" where
  "header_set k v hs = filter (\<lambda>(k', _). k' \<noteq> lower k) hs @ [(lower k, v)]"

definition header_append :: "string \<Rightarrow> string \<Rightarrow> (string \<times> string) list \<Rightarrow> (string \<times> string) list" where
  "header_append k v hs =
     (case header_get k hs of
        None \<Rightarrow> hs @ [(lower k, v)]
      | Some u \<Rightarrow> header_set k (u @ '', '' @ v) hs)"

definition new_headers :: "(string \<times> string) list \<Rightarrow> (string \<times> string) list" where
  "new_headers hs = foldl (\<lambda>acc (k, v). header_append k v acc) [] hs"

section \<open>apiFetch\<close>

record req_init =
  i_method :: http_method
  i_headers :: "(string \<times> string) list"
  i_body :: req_body

definition no_init :: req_init where
  "no_init = \<lparr>i_method = GET, i_headers = [], i_body = NoBody\<rparr>"

definition post_init :: req_init where
  "post_init = \<lparr>i_method = POST, i_headers = [], i_body = NoBody\<rparr>"

definition json_init :: "http_method \<Rightarrow> json \<Rightarrow> req_init" where
  "json_init m j = \<lparr>i_method = m, i_headers = [(''Content-Type'', ''application/json'')], i_body = JsonBody j\<rparr>"

definition api_url_of :: "env \<Rightarrow> string \<Rightarrow> string" where
  "api_url_of e path = GATEWAY e @ ''/'' @ dropWhile (\<lambda>c. c = CHR 0x2F) path"

definition api_request :: "env \<Rightarrow> string \<Rightarrow> req_init \<Rightarrow> (string \<times> string) list \<Rightarrow> request" where
  "api_request e path i hs =
     \<lparr>r_url = api_url_of e path, r_method = i_method i, r_headers = hs, r_body = i_body i\<rparr>"

definition refresh_request :: "env \<Rightarrow> string \<Rightarrow> request" where
  "refresh_request e tok =
     \<lparr>r_url = GATEWAY e @ ''/auth/refresh'', r_method = POST,
      r_headers = new_headers [(''Content-Type'', ''application/json'')],
      r_body = JsonBody (JObj [(''refresh_token'', JStr tok)])\<rparr>"

text \<open>The headers of the first attempt: a caller's own \<open>Authorization\<close> is kept.\<close>

definition first_headers :: "env \<Rightarrow> req_init \<Rightarrow> 'z browser_scheme \<Rightarrow> (string \<times> string) list" where
  "first_headers e i w =
     (let hs = new_headers (i_headers i) in
      if window e = None then hs
      else case truthy (getItem w ''access_token'') of
        None \<Rightarrow> hs
      | Some token \<Rightarrow>
          if header_get ''Authorization'' hs = None
          then header_set ''Authorization'' (''Bearer '' @ token) hs else hs)"

definition end_session :: "'z browser_scheme \<Rightarrow> 'z browser_scheme" where
  "end_session w = set_href ''/login'' (removeItem ''refresh_token'' (removeItem ''access_token'' w))"

declare end_session_def [browser_ops]

definition refresh_and_retry ::
  "env \<Rightarrow> string \<Rightarrow> req_init \<Rightarrow> (string \<times> string) list \<Rightarrow> string \<Rightarrow> response
     \<Rightarrow> ('z browser_scheme, response) io" where
  "refresh_and_retry e path i hs refreshToken res =
     try_catch
       (bind (fetch (refresh_request e refreshToken)) (\<lambda>refreshRes.
          if ok refreshRes then
            bind (read_json refreshRes) (\<lambda>j.
              case get_prop ''access_token'' j of
                None \<Rightarrow> Throw TypeError
              | Some v \<Rightarrow>
                  Put (setItem ''access_token'' (js_string v))
                    (fetch (api_request e path i
                       (header_set ''Authorization'' (''Bearer '' @ js_string v) hs))))
          else Put end_session (Ret res)))
       (\<lambda>_. Ret res)"

definition apiFetch :: "env \<Rightarrow> string \<Rightarrow> req_init \<Rightarrow> ('z browser_scheme, response) io" where
  "apiFetch e path i =
     Get (\<lambda>w.
       let hs = first_headers e i w in
       bind (fetch (api_request e path i hs)) (\<lambda>res.
         if status res = 401 \<and> window e \<noteq> None then
           Get (\<lambda>w'.
             case truthy (getItem w' ''refresh_token'') of
               None \<Rightarrow> Ret res
             | Some refreshToken \<Rightarrow> refresh_and_retry e path i hs refreshToken res)
         else Ret res))"


section \<open>Lemmas\<close>

lemma map_of_filter_key: "map_of (filter (\<lambda>(k', _). k' \<noteq> k) hs) k = None"
  by (induction hs) auto

lemma header_get_set [simp]: "header_get k (header_set k v hs) = Some v"
  by (simp add: header_get_def header_set_def map_add_def map_of_filter_key)

lemma header_set_set: "header_set k v (header_set k u hs) = header_set k v hs"
  by (simp add: header_set_def)

lemma end_session_simps [simp]:
  "storage (end_session w) =
     (storage w)(''access_token'' := None, ''refresh_token'' := None)"
  "hrefs (end_session w) = hrefs w @ [''/login'']"
  "browser.more (end_session w) = browser.more w"
  by (simp_all add: end_session_def)

lemma getItem_end_session:
  "getItem (end_session w) k =
     (if k = ''access_token'' \<or> k = ''refresh_token'' then None else getItem w k)"
  by (simp add: getItem_def)

lemma calls_le_fetch: "0 < n \<Longrightarrow> calls_le n (fetch q)"
  by (simp add: fetch_def split: reply.split)

lemma calls_le_apiFetch: "calls_le 3 (apiFetch e path i)"
  by (simp add: apiFetch_def refresh_and_retry_def io_simps Let_def split: reply.split option.split)

lemma getWebSocketUrl_storage:
  "storage w' = storage w \<Longrightarrow> getWebSocketUrl e p w' = getWebSocketUrl e p w"
  by (simp add: getWebSocketUrl_def getItem_def Let_def cong: option.case_cong)

lemma single_apiFetch: "single (apiFetch e path i)"
  by (simp add: apiFetch_def refresh_and_retry_def io_simps Let_def split: reply.split option.split)

lemma frames_apiFetch:
  assumes "\<And>t w. f (setItem ''access_token'' t w) = f w" "\<And>w. f (end_session w) = f w"
  shows "frames f (apiFetch e path i)"
  using assms
  by (auto simp: apiFetch_def refresh_and_retry_def io_simps Let_def split: reply.split option.split)

text \<open>\<open>apiFetch\<close> once its headers are read.\<close>

definition api_answer :: "env \<Rightarrow> string \<Rightarrow> req_init \<Rightarrow> 'z browser_scheme \<Rightarrow> reply \<Rightarrow> ('z browser_scheme, response) io" where
  "api_answer e path i w r =
     bind (case r of HttpResp x \<Rightarrow> Ret x | _ \<Rightarrow> Throw FetchFailed) (\<lambda>res.
       if status res = 401 \<and> window e \<noteq> None then
         Get (\<lambda>w'. case truthy (getItem w' ''refresh_token'') of
             None \<Rightarrow> Ret res
           | Some tok \<Rightarrow> refresh_and_retry e path i (first_headers e i w) tok res)
       else Ret res)"

lemma apiFetch_waits:
  "apiFetch e path i =
     Get (\<lambda>w. Await [HttpFetch (api_request e path i (first_headers e i w))] (\<lambda>_. api_answer e path i w))"
  unfolding apiFetch_def fetch_def api_answer_def by (simp add: Let_def)

lemma api_answered: "status r \<noteq> 401 \<Longrightarrow> api_answer e path i w (HttpResp r) = Ret r"
  by (simp add: api_answer_def)

lemma first_headers_storage: "storage w' = storage w \<Longrightarrow> first_headers e i w' = first_headers e i w"
  by (simp add: first_headers_def getItem_def Let_def cong: option.case_cong)

text \<open>
  What a page must promise to call \<open>apiFetch\<close>: its invariant survives the two changes
  \<open>apiFetch\<close> makes to the browser behind its back. Then \<open>apiFetch\<close> keeps the invariant at
  every suspension point.
\<close>

locale api_client =
  fixes I :: "'z browser_scheme \<Rightarrow> bool"
  assumes token_stable: "I w \<Longrightarrow> I (setItem ''access_token'' t w)"
    and logout_stable: "I w \<Longrightarrow> I (end_session w)"
begin

lemma wp_retry: "I w \<Longrightarrow> wp I (refresh_and_retry e path i hs tok res) w"
  by (auto simp: refresh_and_retry_def io_simps token_stable logout_stable
      split: reply.split option.split)

lemma wp_apiFetch [intro]: "I w \<Longrightarrow> wp I (apiFetch e path i) w"
  by (auto simp: apiFetch_def Let_def fetch_def wp_retry
      split: reply.split option.split)

lemma wp_api_bind:
  assumes "I w" "\<And>r w'. I w' \<Longrightarrow> wp I (f r) w'"
  shows "wp I (bind (apiFetch e path i) f) w"
  by (rule wp_bind) (use assms in auto)

lemma wp_api_json:
  assumes "I w" "\<And>r x w'. I w' \<Longrightarrow> wp I (f r x) w'"
  shows "wp I (bind (apiFetch e path i) (\<lambda>r. bind (read_as d r) (f r))) w"
  using assms by (intro wp_api_bind wp_bind wp_read_as)

end

section \<open>The refresh-and-retry protocol\<close>

text \<open>
  A run that gets a response to its first request: the outcomes of \<open>apiFetch\<close>, one per
  branch of the code.
\<close>

lemma run_no_401:
  "status r \<noteq> 401 \<Longrightarrow>
     run (apiFetch e path i) (HttpResp r # rs) w =
       Some ([HttpFetch (api_request e path i (first_headers e i w))], w, Returned r)"
  by (simp add: apiFetch_def io_simps Let_def)

lemma run_no_refresh_token:
  "window e = None \<or> truthy (getItem w ''refresh_token'') = None \<Longrightarrow>
     run (apiFetch e path i) (HttpResp r # rs) w =
       Some ([HttpFetch (api_request e path i (first_headers e i w))], w, Returned r)"
  by (auto simp: apiFetch_def io_simps Let_def)

lemma run_401:
  assumes "status r = 401" "window e \<noteq> None" "truthy (getItem w ''refresh_token'') = Some tok"
  shows "run (apiFetch e path i) (HttpResp r # rs) w =
      map_option (\<lambda>(cs, w', x). (HttpFetch (api_request e path i (first_headers e i w)) # cs, w', x))
        (run (refresh_and_retry e path i (first_headers e i w) tok r) rs w)"
  using assms by (simp add: apiFetch_def io_simps Let_def)

lemma run_retry_rejected:
  "run (refresh_and_retry e path i hs tok res) (Rejected # rs) w =
     Some ([HttpFetch (refresh_request e tok)], w, Returned res)"
  "run (refresh_and_retry e path i hs tok res) (Value v # rs) w =
     Some ([HttpFetch (refresh_request e tok)], w, Returned res)"
  by (simp_all add: refresh_and_retry_def io_simps)

lemma run_retry_refused:
  "\<not> ok q \<Longrightarrow>
     run (refresh_and_retry e path i hs tok res) (HttpResp q # rs) w =
       Some ([HttpFetch (refresh_request e tok)], end_session w, Returned res)"
  by (simp add: refresh_and_retry_def io_simps)

lemma run_retry_granted:
  assumes "ok q" "body q = Some j" "get_prop ''access_token'' j = Some v"
  shows "run (refresh_and_retry e path i hs tok res) (HttpResp q # r2 # rs) w =
      Some ([HttpFetch (refresh_request e tok),
             HttpFetch (api_request e path i
               (header_set ''Authorization'' (''Bearer '' @ js_string v) hs))],
            setItem ''access_token'' (js_string v) w,
            Returned (case r2 of HttpResp y \<Rightarrow> y | _ \<Rightarrow> res))"
  using assms by (simp add: refresh_and_retry_def io_simps split: reply.split)

lemma run_retry_unreadable:
  assumes "ok q" "body q = None \<or> (\<exists>j. body q = Some j \<and> get_prop ''access_token'' j = None)"
  shows "run (refresh_and_retry e path i hs tok res) (HttpResp q # rs) w =
      Some ([HttpFetch (refresh_request e tok)], w, Returned res)"
  using assms by (auto simp: refresh_and_retry_def io_simps)

lemmas run_retry = run_retry_rejected run_retry_refused run_retry_granted run_retry_unreadable

text \<open>C14. Whatever the network answers, \<open>apiFetch\<close> finishes after at least one and at most
  three requests, and the first is the caller's.\<close>

theorem apiFetch_bounded:
  assumes "3 \<le> length rs"
  shows "\<exists>cs w' x. run (apiFetch e path i) rs w = Some (cs, w', x) \<and> length cs \<le> 3 \<and>
    cs \<noteq> [] \<and> hd cs = HttpFetch (api_request e path i (first_headers e i w))"
proof -
  from calls_le_run [OF calls_le_apiFetch assms] obtain cs w' x
    where r: "run (apiFetch e path i) rs w = Some (cs, w', x)" "length cs \<le> 3" by blast
  then have "cs \<noteq> [] \<and> hd cs = HttpFetch (api_request e path i (first_headers e i w))"
    by (auto simp: apiFetch_def fetch_def Let_def split: list.splits)
  with r show ?thesis by blast
qed

theorem apiFetch_bounded_witness:
  "\<exists>cs w' x. run (apiFetch \<lparr>api_url = None, window = Some (''https:'', ''h'')\<rparr> ''/tips'' no_init)
      [Rejected, Rejected, Rejected] \<lparr>storage = Map.empty, hrefs = []\<rparr> = Some (cs, w', x) \<and>
    length cs \<le> 3"
  using apiFetch_bounded [of "[Rejected, Rejected, Rejected]"
      "\<lparr>api_url = None, window = Some (''https:'', ''h'')\<rparr>" "''/tips''" no_init
      "\<lparr>storage = Map.empty, hrefs = []\<rparr>"]
  by auto




text \<open>Once the first request has been answered, \<open>apiFetch\<close> never fails: it returns that
  answer or, after a granted refresh, the answer to the retry. A refused, lost or unreadable
  refresh leaves the caller with the original answer.\<close>

theorem apiFetch_never_raises_after_answer:
  assumes "run (apiFetch e path i) (HttpResp r # rs) w = Some (cs, w', x)"
  shows "x = Returned r \<or> (\<exists>r'. x = Returned r' \<and> length cs = 3 \<and> status r = 401)"
  using assms
  by (auto simp: apiFetch_def refresh_and_retry_def io_simps Let_def
      split: if_splits option.splits list.splits reply.splits)

theorem apiFetch_never_raises_after_answer_witness:
  "\<exists>cs w' x. run (apiFetch \<lparr>api_url = None, window = None\<rparr> ''/servers'' no_init)
      [HttpResp \<lparr>status = 500, body = None\<rparr>] \<lparr>storage = Map.empty, hrefs = []\<rparr> = Some (cs, w', x) \<and>
    (x = Returned \<lparr>status = 500, body = None\<rparr> \<or>
     (\<exists>r'. x = Returned r' \<and> length cs = 3 \<and> status \<lparr>status = 500, body = None\<rparr> = 401))"
proof -
  let ?e = "\<lparr>api_url = None, window = None\<rparr>" and ?w = "\<lparr>storage = Map.empty, hrefs = []\<rparr>"
    and ?r = "\<lparr>status = 500, body = None\<rparr>"
  have "run (apiFetch ?e ''/servers'' no_init) [HttpResp ?r] ?w =
      Some ([HttpFetch (api_request ?e ''/servers'' no_init (first_headers ?e no_init ?w))], ?w, Returned ?r)"
    by (simp add: run_no_401)
  from apiFetch_never_raises_after_answer [OF this] this show ?thesis by blast
qed

section \<open>Many requests at once\<close>

text \<open>
  A page that fires requests at any time, many of them in flight together.
\<close>

definition api_page :: "env \<Rightarrow> string \<times> req_init \<Rightarrow> (browser, unit) io" where
  "api_page e c = bind (apiFetch e (fst c) (snd c)) (\<lambda>_. Ret ())"

definition session_kept :: "browser \<Rightarrow> browser \<Rightarrow> bool" where
  "session_kept w0 w \<longleftrightarrow>
     (\<forall>k. k \<noteq> ''access_token'' \<and> k \<noteq> ''refresh_token'' \<longrightarrow> getItem w k = getItem w0 k) \<and>
     (\<exists>n. hrefs w = hrefs w0 @ replicate n ''/login'' \<and>
        (if n = 0
         then getItem w ''refresh_token'' = getItem w0 ''refresh_token'' \<and>
              (getItem w0 ''access_token'' \<noteq> None \<longrightarrow> getItem w ''access_token'' \<noteq> None)
         else getItem w ''refresh_token'' = None))"

lemma session_keptI:
  assumes "\<And>k. k \<noteq> ''access_token'' \<Longrightarrow> k \<noteq> ''refresh_token'' \<Longrightarrow> getItem w k = getItem w0 k"
    and "hrefs w = hrefs w0 @ replicate n ''/login''"
    and "n = 0 \<Longrightarrow> getItem w ''refresh_token'' = getItem w0 ''refresh_token''"
    and "n = 0 \<Longrightarrow> getItem w0 ''access_token'' \<noteq> None \<Longrightarrow> getItem w ''access_token'' \<noteq> None"
    and "n \<noteq> 0 \<Longrightarrow> getItem w ''refresh_token'' = None"
  shows "session_kept w0 w"
  unfolding session_kept_def using assms by (intro conjI exI [of _ n]) auto

interpretation session: api_client "session_kept w0" for w0
proof
  fix w t assume "session_kept w0 w"
  then obtain n where n: "hrefs w = hrefs w0 @ replicate n ''/login''"
    and i: "if n = 0
         then getItem w ''refresh_token'' = getItem w0 ''refresh_token'' \<and>
              (getItem w0 ''access_token'' \<noteq> None \<longrightarrow> getItem w ''access_token'' \<noteq> None)
         else getItem w ''refresh_token'' = None"
    and k: "\<forall>k. k \<noteq> ''access_token'' \<and> k \<noteq> ''refresh_token'' \<longrightarrow> getItem w k = getItem w0 k"
    unfolding session_kept_def by blast
  show "session_kept w0 (setItem ''access_token'' t w)"
    by (rule session_keptI [where n = n]) (use n i k in \<open>simp_all add: local_storage.get_put split: if_splits\<close>)
next
  fix w assume "session_kept w0 w"
  then obtain n where n: "hrefs w = hrefs w0 @ replicate n ''/login''"
    and k: "\<forall>k. k \<noteq> ''access_token'' \<and> k \<noteq> ''refresh_token'' \<longrightarrow> getItem w k = getItem w0 k"
    unfolding session_kept_def by blast
  from n have "hrefs (end_session w) = hrefs w0 @ replicate (Suc n) ''/login''"
    by (simp add: replicate_append_same)
  then show "session_kept w0 (end_session w)"
    by (rule session_keptI [rotated]) (use k in \<open>simp_all add: getItem_end_session\<close>)
qed

interpretation api_pages: component "\<lambda>_ _. True" "api_page e" w0 "session_kept w0" for e w0
proof
  show "session_kept w0 w0"
    by (rule session_keptI [where n = 0]) simp_all
next
  fix w ev assume "session_kept w0 w"
  then show "wp (session_kept w0) (api_page e ev) w"
    unfolding api_page_def by (intro session.wp_api_bind) auto
qed

text \<open>However many requests are in flight and in whatever order they are answered: no
  other item of the store changes; the refresh token goes away only together with a
  navigation to the login page; and until then the session's tokens are both there.\<close>

theorem api_session_invariant:
  assumes "reachable (\<lambda>_ _. True) (api_page e) w0 (w, ts)"
  shows "(\<forall>k. k \<noteq> ''access_token'' \<and> k \<noteq> ''refresh_token'' \<longrightarrow> getItem w k = getItem w0 k) \<and>
    (\<exists>n. hrefs w = hrefs w0 @ replicate n ''/login'' \<and>
      (if n = 0
       then getItem w ''refresh_token'' = getItem w0 ''refresh_token'' \<and>
            (getItem w0 ''access_token'' \<noteq> None \<longrightarrow> getItem w ''access_token'' \<noteq> None)
       else getItem w ''refresh_token'' = None))"
  by (rule api_pages.invariant [OF assms, unfolded session_kept_def])


lemma session_lost_run:
  "\<exists>w ts. exec (\<lambda>_ _. True) (api_page \<lparr>api_url = None, window = Some (''https:'', ''h'')\<rparr>)
      [Event (''/tips'', no_init), Answer 0 0 (HttpResp \<lparr>status = 401, body = None\<rparr>),
       Answer 0 0 (HttpResp \<lparr>status = 401, body = None\<rparr>)]
      (\<lparr>storage = [''refresh_token'' \<mapsto> ''r1''], hrefs = []\<rparr>, []) = Some (w, ts) \<and>
    hrefs w = [''/login'']"
  by (simp add: api_page_def apiFetch_def refresh_and_retry_def io_simps ok_def getItem_def Let_def)

theorem api_session_invariant_witness:
  "\<exists>w ts. reachable (\<lambda>_ _. True) (api_page \<lparr>api_url = None, window = Some (''https:'', ''h'')\<rparr>)
      \<lparr>storage = [''refresh_token'' \<mapsto> ''r1''], hrefs = []\<rparr> (w, ts) \<and>
    getItem w ''refresh_token'' = None \<and> hrefs w = [''/login'']"
proof -
  obtain w ts where r: "reachable (\<lambda>_ _. True)
      (api_page \<lparr>api_url = None, window = Some (''https:'', ''h'')\<rparr>)
      \<lparr>storage = [''refresh_token'' \<mapsto> ''r1''], hrefs = []\<rparr> (w, ts)" and h: "hrefs w = [''/login'']"
    using session_lost_run by (blast intro: exec_reachable_init)
  from api_session_invariant [OF r, THEN conjunct2] obtain n
    where n: "hrefs w = [] @ replicate n ''/login''"
      and i: "n \<noteq> 0 \<Longrightarrow> getItem w ''refresh_token'' = None"
    by (metis browser.select_convs(2))
  from n h have "n \<noteq> 0" by (cases n) simp_all
  with i r h show ?thesis by blast
qed

end
