(* ===== verification/AuthService.thy ===== *)
theory AuthService
  imports Api
begin

text \<open>
  The token service the client's refresh talks to: \<open>AuthService.refresh\<close> of
  \<open>services/auth\<close> and the answer \<open>AuthController\<close> makes of it. It is the contract
  \<open>apiFetch\<close> has to be read against: refresh tokens are single-use. The hash, the signed
  access token and the fresh random token are parameters.
\<close>

record stored_token =
  user_id :: string
  expires_at :: int

text \<open>The table of refresh tokens, keyed by the hash of the token.\<close>

type_synonym token_table = "string \<Rightarrow> stored_token option"

definition refresh_ttl :: int where
  "refresh_ttl = 7 * 24 * 60 * 60"

definition login_response :: "string \<Rightarrow> string \<Rightarrow> json" where
  "login_response access fresh =
     JObj [(''access_token'', JStr access), (''refresh_token'', JStr fresh), (''expires_in'', JNum 900)]"

definition unauthorized :: "string \<Rightarrow> response" where
  "unauthorized msg = \<lparr>status = 401, body = Some (JObj [(''error'', JStr msg)])\<rparr>"

text \<open>
  \<open>refresh hash users sign fresh now tok db\<close>: the old token is deleted before the user is
  looked up; a new one is stored only on success.
\<close>

definition refresh ::
  "(string \<Rightarrow> string) \<Rightarrow> (string \<Rightarrow> bool) \<Rightarrow> (string \<Rightarrow> int \<Rightarrow> string) \<Rightarrow> string \<Rightarrow> int \<Rightarrow> string
     \<Rightarrow> token_table \<Rightarrow> response \<times> token_table" where
  "refresh hash users sign fresh now tok db =
     (case db (hash tok) of
        None \<Rightarrow> (unauthorized ''invalid token'', db)
      | Some old \<Rightarrow>
          if expires_at old < now
          then (unauthorized ''refresh token expired'', db(hash tok := None))
          else if users (user_id old)
          then (\<lparr>status = 200, body = Some (login_response (sign (user_id old) now) fresh)\<rparr>,
                (db(hash tok := None))
                  (hash fresh := Some \<lparr>user_id = user_id old, expires_at = now + refresh_ttl\<rparr>))
          else (unauthorized ''invalid token'', db(hash tok := None)))"

lemma refresh_consumes:
  "hash fresh \<noteq> hash tok \<Longrightarrow> snd (refresh hash users sign fresh now tok db) (hash tok) = None"
  by (simp add: refresh_def split: option.split)

lemma refresh_unknown:
  "db (hash tok) = None \<Longrightarrow>
     refresh hash users sign fresh now tok db = (unauthorized ''invalid token'', db)"
  by (simp add: refresh_def)

lemma not_ok_unauthorized [simp]: "\<not> ok (unauthorized m)"
  by (simp add: ok_def unauthorized_def)

section \<open>The client against the service\<close>

text \<open>
  A page that sends a request whose token has expired: the gateway answers 401, then the
  service answers the refresh, then the retry is answered.
\<close>

definition expired_call ::
  "env \<Rightarrow> string \<Rightarrow> req_init \<Rightarrow> response \<Rightarrow> reply \<Rightarrow> 'z browser_scheme
     \<Rightarrow> (call list \<times> 'z browser_scheme \<times> response outcome) option" where
  "expired_call e path i r2 r3 w =
     run (apiFetch e path i) [HttpResp \<lparr>status = 401, body = None\<rparr>, HttpResp r2, r3] w"

lemma refresh_granted:
  assumes "db (hash tok) = Some old" "now \<le> expires_at old" "users (user_id old)"
  shows "fst (refresh hash users sign fresh now tok db) =
    \<lparr>status = 200, body = Some (login_response (sign (user_id old) now) fresh)\<rparr>"
  using assms by (simp add: refresh_def)

lemma expired_call_granted:
  assumes "window e \<noteq> None" "getItem w ''refresh_token'' = Some tok" "tok \<noteq> []"
  shows "\<exists>cs. expired_call e path i \<lparr>status = 200, body = Some (login_response acc fresh)\<rparr> (HttpResp r3) w =
    Some (cs, setItem ''access_token'' acc w, Returned r3)"
  using assms
  by (simp add: expired_call_def run_401 truthy_Some_iff
      run_retry_granted [where v = "Some (JStr acc)" and j = "login_response acc fresh"]
      ok_def login_response_def js_string_def)

lemma expired_call_refused:
  assumes "window e \<noteq> None" "getItem w ''refresh_token'' = Some tok" "tok \<noteq> []" "\<not> ok q"
  shows "\<exists>cs. expired_call e path i q r3 w =
    Some (cs, end_session w, Returned \<lparr>status = 401, body = None\<rparr>)"
  using assms by (simp add: expired_call_def run_401 truthy_Some_iff run_retry_refused)

text \<open>C6. The session does not survive a second expiry. The service deletes a refresh token
  when it is used and returns its successor, but the client stores only the access token of
  that answer. So after a granted refresh the stored refresh token is dead, and when the new
  access token expires in turn, the refresh is refused, both tokens are dropped and the
  user is sent to the login page, although the service holds a valid token for the user.\<close>

theorem second_refresh_ends_session:
  fixes w :: "'z browser_scheme"
  assumes "window e \<noteq> None" "getItem w ''refresh_token'' = Some tok" "tok \<noteq> []"
    and "db (hash tok) = Some old" "now1 \<le> expires_at old" "users (user_id old)"
    and "hash fresh1 \<noteq> hash tok"
  shows "\<exists>cs1 cs2 w1 w2. let
      (a1, db1) = refresh hash users sign fresh1 now1 tok db;
      (a2, db2) = refresh hash users sign fresh2 now2 tok db1
    in expired_call e path1 i1 a1 (HttpResp r) w = Some (cs1, w1, Returned r) \<and>
       getItem w1 ''refresh_token'' = Some tok \<and>
       expired_call e path2 i2 a2 (HttpResp r) w1 =
         Some (cs2, w2, Returned \<lparr>status = 401, body = None\<rparr>) \<and>
       getItem w2 ''access_token'' = None \<and> getItem w2 ''refresh_token'' = None \<and>
       hrefs w2 = hrefs w @ [''/login''] \<and> db2 (hash fresh1) \<noteq> None"
proof -
  let ?acc = "sign (user_id old) now1"
  let ?w1 = "setItem ''access_token'' ?acc w"
  obtain db1 where a1: "refresh hash users sign fresh1 now1 tok db =
      (\<lparr>status = 200, body = Some (login_response ?acc fresh1)\<rparr>, db1)"
    using assms by (simp add: refresh_def)
  have dead: "db1 (hash tok) = None"
    using refresh_consumes [where hash = hash and fresh = fresh1 and tok = tok, OF assms(7), of users sign now1 db]
    by (simp add: a1)
  have a2: "refresh hash users sign fresh2 now2 tok db1 = (unauthorized ''invalid token'', db1)"
    by (rule refresh_unknown [where hash = hash and tok = tok and db = db1, OF dead])
  have alive: "db1 (hash fresh1) \<noteq> None"
    using a1 assms by (auto simp: refresh_def)
  have rt: "getItem ?w1 ''refresh_token'' = Some tok"
    using assms(2) by (simp add: local_storage.get_put)
  from expired_call_granted [OF assms(1,2,3)]
  obtain cs1 where c1: "expired_call e path1 i1
      \<lparr>status = 200, body = Some (login_response ?acc fresh1)\<rparr> (HttpResp r) w = Some (cs1, ?w1, Returned r)"
    by blast
  from expired_call_refused [OF assms(1) rt assms(3) not_ok_unauthorized]
  obtain cs2 where c2: "expired_call e path2 i2 (unauthorized ''invalid token'') (HttpResp r) ?w1 =
      Some (cs2, end_session ?w1, Returned \<lparr>status = 401, body = None\<rparr>)"
    by blast
  have "getItem (end_session ?w1) ''access_token'' = None"
    "getItem (end_session ?w1) ''refresh_token'' = None"
    "hrefs (end_session ?w1) = hrefs w @ [''/login'']"
    by (simp_all add: getItem_end_session)
  with c1 c2 rt alive show ?thesis
    unfolding a1 Let_def prod.case a2 by blast
qed

theorem second_refresh_ends_session_witness:
  "\<exists>cs1 cs2 w1 w2. let
      (a1, db1) = refresh (\<lambda>s. s) (\<lambda>_. True) (\<lambda>u _. u) ''b'' 5 ''a''
        [''a'' \<mapsto> \<lparr>user_id = ''u'', expires_at = 10\<rparr>];
      (a2, db2) = refresh (\<lambda>s. s) (\<lambda>_. True) (\<lambda>u _. u) ''c'' 6 ''a'' db1
    in expired_call \<lparr>api_url = None, window = Some (''https:'', ''h'')\<rparr> ''/tips'' no_init a1
         (HttpResp \<lparr>status = 200, body = None\<rparr>)
         \<lparr>storage = [''refresh_token'' \<mapsto> ''a''], hrefs = []\<rparr> =
         Some (cs1, w1, Returned \<lparr>status = 200, body = None\<rparr>) \<and>
       getItem w1 ''refresh_token'' = Some ''a'' \<and>
       expired_call \<lparr>api_url = None, window = Some (''https:'', ''h'')\<rparr> ''/tips'' no_init a2
         (HttpResp \<lparr>status = 200, body = None\<rparr>) w1 =
         Some (cs2, w2, Returned \<lparr>status = 401, body = None\<rparr>) \<and>
       getItem w2 ''access_token'' = None \<and> getItem w2 ''refresh_token'' = None \<and>
       hrefs w2 = hrefs \<lparr>storage = [''refresh_token'' \<mapsto> ''a''], hrefs = []\<rparr> @ [''/login''] \<and>
       db2 ''b'' \<noteq> None"
  by (rule second_refresh_ends_session [where old = "\<lparr>user_id = ''u'', expires_at = 10\<rparr>"])
    (simp_all add: getItem_def)

section \<open>Two requests at once\<close>

text \<open>
  Two requests are in flight when the access token expires: both are answered 401, both ask for
  a refresh with the one token there is, and the service answers both, one after the other. The
  answers reach the client in either order.
\<close>

definition expired :: reply where
  "expired = HttpResp \<lparr>status = 401, body = None\<rparr>"

definition refresh_race :: "response \<Rightarrow> response \<Rightarrow> (string \<times> req_init) \<Rightarrow> (string \<times> req_init) \<Rightarrow> bool \<Rightarrow>
    (string \<times> req_init) turn list" where
  "refresh_race a1 a2 c1 c2 granted_first =
     [Event c1, Event c2, Answer 0 0 expired, Answer 1 0 expired] @
     (if granted_first then [Answer 0 0 (HttpResp a1), Answer 0 0 Rejected, Answer 1 0 (HttpResp a2)]
      else [Answer 1 0 (HttpResp a2), Answer 0 0 (HttpResp a1), Answer 0 0 Rejected])"

lemma race_runs:
  fixes w :: browser
  assumes "window e \<noteq> None" "getItem w ''refresh_token'' = Some tok" "tok \<noteq> []" "\<not> ok a2"
  shows "\<exists>w' ts. exec (\<lambda>_ _. True) (api_page e)
      (refresh_race \<lparr>status = 200, body = Some (login_response acc fresh)\<rparr> a2 c1 c2 first) (w, []) = Some (w', ts) \<and>
    hrefs w' = hrefs w @ [''/login''] \<and> getItem w' ''refresh_token'' = None \<and>
    getItem w' ''access_token'' = (if first then None else Some acc)"
proof -
  from assms(1) obtain l where l: "window e = Some l" by blast
  show ?thesis
    using assms l
    by (cases first)
       (simp_all add: refresh_race_def expired_def api_page_def apiFetch_def refresh_and_retry_def io_simps Let_def
         truthy_Some_iff getItem_end_session local_storage.get_put login_response_def ok_def js_string_def)
qed



end
