(* ===== verification/Auth.thy ===== *)
theory Auth
  imports AuthService
begin

text \<open>
  \<open>apps/web-app/app/actions/auth.ts\<close>: the login, registration and logout actions. A form is
  the map from field names to values that \<open>FormData.get\<close> reads; the state an action returns
  is the error it shows, \<open>None\<close> for \<open>undefined\<close>.
\<close>

type_synonym form_data = "string \<Rightarrow> string option"

text \<open>\<open>(formData.get(k) as string | null)?.trim() ?? ''\<close> and the same without \<open>trim\<close>.\<close>

definition trimmed_field :: "string \<Rightarrow> form_data \<Rightarrow> string" where
  "trimmed_field k fd = nullish (map_option trim (fd k)) []"

definition plain_field :: "string \<Rightarrow> form_data \<Rightarrow> string" where
  "plain_field k fd = nullish (fd k) []"

definition auth_post :: "env \<Rightarrow> string \<Rightarrow> json \<Rightarrow> request" where
  "auth_post e path j =
     \<lparr>r_url = GATEWAY e @ path, r_method = POST,
      r_headers = new_headers [(''Content-Type'', ''application/json'')], r_body = JsonBody j\<rparr>"

definition login_request :: "env \<Rightarrow> form_data \<Rightarrow> request" where
  "login_request e fd = auth_post e ''/auth/login''
     (JObj [(''email'', JStr (trimmed_field ''email'' fd)),
            (''password'', JStr (plain_field ''password'' fd))])"

definition register_request :: "env \<Rightarrow> form_data \<Rightarrow> request" where
  "register_request e fd = auth_post e ''/auth/register''
     (JObj [(''username'', JStr (trimmed_field ''username'' fd)),
            (''email'', JStr (trimmed_field ''email'' fd)),
            (''password'', JStr (plain_field ''password'' fd))])"

text \<open>
  \<open>const body = await res.json().catch(() => ({}))\<close> and \<open>body.error ?? fallback\<close>.
\<close>

definition error_of_body :: "string \<Rightarrow> response \<Rightarrow> ('w, string) io" where
  "error_of_body fallback res =
     bind (try_catch (read_json res) (\<lambda>_. Ret (JObj []))) (\<lambda>j.
       case get_prop ''error'' j of
         None \<Rightarrow> Throw TypeError
       | Some v \<Rightarrow> Ret (error_or fallback v))"

text \<open>\<open>try { res = await fetch(..) } catch { return error }\<close>, continued with \<open>k\<close>.\<close>

definition fetch_or :: "request \<Rightarrow> 'a \<Rightarrow> (response \<Rightarrow> ('w, 'a) io) \<Rightarrow> ('w, 'a) io" where
  "fetch_or q err k =
     bind (try_catch (bind (fetch q) (\<lambda>r. Ret (Some r))) (\<lambda>_. Ret None)) (\<lambda>ans.
       case ans of None \<Rightarrow> Ret err | Some r \<Rightarrow> k r)"

definition unreachable_msg :: string where
  "unreachable_msg = ''Could not reach the server. Please try again.''"

definition loginAction :: "env \<Rightarrow> form_data \<Rightarrow> ('z browser_scheme, string option) io" where
  "loginAction e fd =
     (if trimmed_field ''email'' fd = [] \<or> plain_field ''password'' fd = []
      then Ret (Some ''Email and password are required.'')
      else fetch_or (login_request e fd) (Some unreachable_msg) (\<lambda>res.
        if \<not> ok res then
          bind (error_of_body ''Invalid email or password.'' res) (\<lambda>m. Ret (Some m))
        else bind (read_json res) (\<lambda>j.
          case (get_prop ''access_token'' j, get_prop ''refresh_token'' j) of
            (Some acc, Some rt) \<Rightarrow>
              (if window e \<noteq> None then
                 Put (\<lambda>w. set_href ''/'' (setItem ''refresh_token'' (js_string rt)
                            (setItem ''access_token'' (js_string acc) w)))
                   (Ret None)
               else Ret None)
          | _ \<Rightarrow> Throw TypeError)))"

definition registerAction :: "env \<Rightarrow> form_data \<Rightarrow> ('z browser_scheme, string option) io" where
  "registerAction e fd =
     (if trimmed_field ''username'' fd = [] \<or> trimmed_field ''email'' fd = [] \<or>
         plain_field ''password'' fd = []
      then Ret (Some ''All fields are required.'')
      else fetch_or (register_request e fd) (Some unreachable_msg) (\<lambda>res.
        if \<not> ok res then
          bind (error_of_body ''Registration failed. Please try again.'' res) (\<lambda>m. Ret (Some m))
        else if window e \<noteq> None then Put (set_href ''/login'') (Ret None)
        else Ret None))"

definition logout_request :: "env \<Rightarrow> string \<Rightarrow> request" where
  "logout_request e token =
     \<lparr>r_url = GATEWAY e @ ''/auth/logout'', r_method = DELETE,
      r_headers = new_headers [(''Authorization'', ''Bearer '' @ token)], r_body = NoBody\<rparr>"

definition logoutAction :: "env \<Rightarrow> ('z browser_scheme, unit) io" where
  "logoutAction e =
     (if window e = None then Ret ()
      else Get (\<lambda>w.
        bind (case truthy (getItem w ''access_token'') of
                None \<Rightarrow> Ret ()
              | Some token \<Rightarrow>
                  try_catch (bind (fetch (logout_request e token)) (\<lambda>_. Ret ())) (\<lambda>_. Ret ()))
          (\<lambda>_. upd end_session)))"

section \<open>Lemmas\<close>

lemma wp_error_of_body: "I w \<Longrightarrow> wp I (error_of_body d r) w"
  unfolding error_of_body_def by (intro wp_bind wp_try wp_read_json) (auto split: option.split)

lemma wp_fetch_or:
  "I w \<Longrightarrow> (\<And>r w'. I w' \<Longrightarrow> wp I (k r) w') \<Longrightarrow> wp I (fetch_or q err k) w"
  unfolding fetch_or_def by (intro wp_bind wp_try wp_fetch) (auto split: option.split)

lemma wp_loginAction:
  assumes "I w" "\<And>w u. I w \<Longrightarrow> I (set_href u w)" "\<And>w k v. I w \<Longrightarrow> I (setItem k v w)"
  shows "wp I (loginAction e fd) w"
  unfolding loginAction_def using assms
  by (auto intro!: wp_fetch_or wp_bind wp_error_of_body wp_read_json split: option.split)

lemma wp_registerAction:
  assumes "I w" "\<And>w u. I w \<Longrightarrow> I (set_href u w)"
  shows "wp I (registerAction e fd) w"
  unfolding registerAction_def using assms
  by (auto intro!: wp_fetch_or wp_bind wp_error_of_body)

lemma single_fetch_or: "(\<And>r. single (k r)) \<Longrightarrow> single (fetch_or q err k)"
  unfolding fetch_or_def by (intro single_bind single_try single_basic) (auto split: option.split)

lemma single_actions [simp]: "single (loginAction e fd)" "single (registerAction e fd)"
  unfolding loginAction_def registerAction_def error_of_body_def
  by (auto intro!: single_fetch_or single_bind single_try split: option.split)

lemma run_fetch_or [simp]:
  "run (fetch_or q err k) [] w = None"
  "run (fetch_or q err k) (Rejected # rs) w = Some ([HttpFetch q], w, Returned err)"
  "run (fetch_or q err k) (Value v # rs) w = Some ([HttpFetch q], w, Returned err)"
  "run (fetch_or q err k) (HttpResp r # rs) w =
     map_option (\<lambda>(cs, w', x). (HttpFetch q # cs, w', x)) (run (k r) rs w)"
  by (simp_all add: fetch_or_def io_simps)

lemma run_error_of_body:
  "run (error_of_body d r) rs w = Some ([], w,
     (case body r of None \<Rightarrow> Returned d
      | Some j \<Rightarrow> (case get_prop ''error'' j of None \<Rightarrow> Raised TypeError | Some v \<Rightarrow> Returned (error_or d v))))"
  by (simp add: error_of_body_def io_simps error_or_def split: option.split)

lemma run_bind_error:
  "run (bind (error_of_body d r) (\<lambda>m. Ret (Some m))) rs w = Some ([], w,
     (case body r of None \<Rightarrow> Returned (Some d)
      | Some j \<Rightarrow> (case get_prop ''error'' j of None \<Rightarrow> Raised TypeError
                   | Some v \<Rightarrow> Returned (Some (error_or d v)))))"
  by (simp add: error_of_body_def io_simps error_or_def split: option.split)

lemma login_calls:
  assumes "run (loginAction e fd) rs w = Some (cs, w', x)"
  shows "cs = (if trimmed_field ''email'' fd = [] \<or> plain_field ''password'' fd = [] then []
    else [HttpFetch (login_request e fd)])"
proof (cases rs)
  case Nil
  with assms show ?thesis by (auto simp: loginAction_def split: if_splits)
next
  case (Cons a rs')
  with assms show ?thesis
    by (cases a) (auto simp: loginAction_def run_bind_error io_simps split: if_splits option.splits)
qed

lemma register_calls:
  assumes "run (registerAction e fd) rs w = Some (cs, w', x)"
  shows "cs = (if trimmed_field ''username'' fd = [] \<or> trimmed_field ''email'' fd = [] \<or>
      plain_field ''password'' fd = [] then [] else [HttpFetch (register_request e fd)])"
proof (cases rs)
  case Nil
  with assms show ?thesis by (auto simp: registerAction_def split: if_splits)
next
  case (Cons a rs')
  with assms show ?thesis
    by (cases a) (auto simp: registerAction_def run_bind_error io_simps split: if_splits option.splits)
qed

text \<open>C11. Login is all or nothing: whatever the answer, either both tokens of a successful
  answer are stored and the browser goes to the start page, or the store and the page are
  left as they were and the action does not report success.\<close>

theorem login_all_or_nothing:
  assumes "run (loginAction e fd) rs w = Some (cs, w', x)" "window e \<noteq> None"
  shows "(w' = w \<and> x \<noteq> Returned None) \<or>
    (\<exists>r j acc rt. rs \<noteq> [] \<and> hd rs = HttpResp r \<and> ok r \<and> body r = Some j \<and>
       get_prop ''access_token'' j = Some acc \<and> get_prop ''refresh_token'' j = Some rt \<and>
       getItem w' ''access_token'' = Some (js_string acc) \<and>
       getItem w' ''refresh_token'' = Some (js_string rt) \<and>
       hrefs w' = hrefs w @ [''/''] \<and> x = Returned None)"
proof (cases "trimmed_field ''email'' fd = [] \<or> plain_field ''password'' fd = []")
  case True
  with assms(1) show ?thesis by (simp add: loginAction_def) blast
next
  case False
  from False assms(1) obtain a rs' where rs: "rs = a # rs'"
    by (cases rs) (simp_all add: loginAction_def)
  show ?thesis
  proof (cases a)
    case Rejected
    with False assms(1) rs show ?thesis by (simp add: loginAction_def) blast
  next
    case (Value v)
    with False assms(1) rs show ?thesis by (simp add: loginAction_def) blast
  next
    case (HttpResp r)
    show ?thesis
    proof (cases "ok r")
      case False
      with assms(1) rs HttpResp \<open>\<not> (_ \<or> _)\<close> show ?thesis
        by (auto simp: loginAction_def run_bind_error split: option.splits)
    next
      case True
      with assms rs HttpResp \<open>\<not> (_ \<or> _)\<close> show ?thesis
        by (auto simp: loginAction_def io_simps local_storage.get_put split: option.splits)
    qed
  qed
qed

theorem login_all_or_nothing_witness:
  "\<exists>cs w' x. run (loginAction \<lparr>api_url = None, window = Some (''https:'', ''h'')\<rparr>
      [''email'' \<mapsto> ''a@b'', ''password'' \<mapsto> ''pw''])
      [HttpResp \<lparr>status = 401, body = None\<rparr>] \<lparr>storage = Map.empty, hrefs = []\<rparr> = Some (cs, w', x) \<and>
    w' = \<lparr>storage = Map.empty, hrefs = []\<rparr> \<and> x \<noteq> Returned None"
proof -
  let ?e = "\<lparr>api_url = None, window = Some (''https:'', ''h'')\<rparr>"
    and ?fd = "[''email'' \<mapsto> ''a@b'', ''password'' \<mapsto> ''pw'']"
    and ?w = "\<lparr>storage = Map.empty, hrefs = []\<rparr>" and ?r = "\<lparr>status = 401, body = None\<rparr> :: response"
  obtain cs w' x where r: "run (loginAction ?e ?fd) [HttpResp ?r] ?w = Some (cs, w', x)"
    by (simp add: loginAction_def trimmed_field_def plain_field_def nullish_def trim_def is_ws_def
        ok_def run_bind_error)
  from login_all_or_nothing [OF r] have "w' = ?w \<and> x \<noteq> Returned None"
    by (auto simp: ok_def)
  with r show ?thesis by blast
qed

text \<open>Logging out always ends the session in the browser: both tokens are removed and
  the browser goes to the login page, whether the request to the service succeeds, fails or
  is never sent because no token is stored; the request carries the token.\<close>

theorem logout_ends_session:
  assumes "window e \<noteq> None" "rs \<noteq> []"
  shows "run (logoutAction e) rs w =
      Some ((case truthy (getItem w ''access_token'') of
               None \<Rightarrow> [] | Some token \<Rightarrow> [HttpFetch (logout_request e token)]),
            end_session w, Returned ()) \<and>
    getItem (end_session w) ''access_token'' = None \<and>
    getItem (end_session w) ''refresh_token'' = None \<and>
    hrefs (end_session w) = hrefs w @ [''/login'']"
proof -
  from assms obtain r rs' l where "rs = r # rs'" "window e = Some l" by (cases rs) auto
  then show ?thesis
    by (simp add: logoutAction_def io_simps getItem_end_session split: option.split reply.split)
qed

theorem logout_ends_session_witness:
  "\<exists>cs. run (logoutAction \<lparr>api_url = None, window = Some (''https:'', ''h'')\<rparr>) [Rejected]
      \<lparr>storage = [''access_token'' \<mapsto> ''t''], hrefs = []\<rparr> =
    Some (cs, end_session \<lparr>storage = [''access_token'' \<mapsto> ''t''], hrefs = []\<rparr>, Returned ())"
  by (rule exI, rule conjunct1, rule logout_ends_session) simp_all

text \<open>An incomplete form never reaches the network: a login with a blank address or an
  empty password and a registration with a blank name, a blank address or an empty password
  end at once with an error and without a request; any other form sends exactly one request,
  with the name and the address trimmed and the password as typed.\<close>

theorem auth_forms_guard_requests:
  assumes "run (loginAction e fd) rs w = Some (cs, w', x)"
    and "run (registerAction e fd) rs w = Some (cs2, w2, x2)"
  shows "cs = (if trimmed_field ''email'' fd = [] \<or> plain_field ''password'' fd = [] then []
               else [HttpFetch (login_request e fd)]) \<and>
    cs2 = (if trimmed_field ''username'' fd = [] \<or> trimmed_field ''email'' fd = [] \<or>
              plain_field ''password'' fd = [] then []
           else [HttpFetch (register_request e fd)])"
  using login_calls [OF assms(1)] register_calls [OF assms(2)] by simp

theorem auth_forms_guard_requests_witness:
  "run (loginAction \<lparr>api_url = None, window = None\<rparr> (\<lambda>_. Some '' '')) [] \<lparr>storage = Map.empty, hrefs = []\<rparr> =
     Some ([], \<lparr>storage = Map.empty, hrefs = []\<rparr>, Returned (Some ''Email and password are required.'')) \<and>
   [] = (if trimmed_field ''email'' (\<lambda>_. Some '' '') = [] \<or> plain_field ''password'' (\<lambda>_. Some '' '') = []
     then [] else [HttpFetch (login_request \<lparr>api_url = None, window = None\<rparr> (\<lambda>_. Some '' ''))])"
proof -
  let ?e = "\<lparr>api_url = None, window = None\<rparr>" and ?w = "\<lparr>storage = Map.empty, hrefs = []\<rparr>"
    and ?fd = "\<lambda>_::string. Some '' ''"
  have l: "run (loginAction ?e ?fd) [] ?w =
      Some ([], ?w, Returned (Some ''Email and password are required.''))"
    and r: "run (registerAction ?e ?fd) [] ?w = Some ([], ?w, Returned (Some ''All fields are required.''))"
    by (simp_all add: loginAction_def registerAction_def trimmed_field_def nullish_def trim_def is_ws_def)
  from auth_forms_guard_requests [OF l r] l show ?thesis by blast
qed

end
