(* ===== verification/AuthPages.thy ===== *)
theory AuthPages
  imports Auth
begin

text \<open>
  The two pages in front of the session: \<open>app/login/page.tsx\<close>, one form whose button is
  disabled while the action runs, and \<open>app/register/page.tsx\<close>, a wizard of two steps. Each is
  a state, the events its page offers, and their handlers.
\<close>

section \<open>Login\<close>

record login_page = browser +
  lp_error :: "string option"
  lp_pending :: bool

datatype login_event = LoginSubmit form_data

text \<open>
  Both inputs are \<open>required\<close>: the browser does not submit the form while one is empty.
  Characters of the markup above 255 are spelled out: the dots of a placeholder of a password,
  the ellipsis of a label.
\<close>

definition required_fields :: "string list \<Rightarrow> form_data \<Rightarrow> bool" where
  "required_fields ks fd = list_all (\<lambda>k. plain_field k fd \<noteq> []) ks"

definition login_view :: "login_page \<Rightarrow> login_event ui" where
  "login_view w = Box
     [Txt ''C'', Txt ''Concordia'',
      Txt ''Welcome back'', Txt ''Sign in to your account to continue.'',
      (case truthy (lp_error w) of Some m \<Rightarrow> Txt m | None \<Rightarrow> Box []),
      Txt ''Email'', Inp ''you@example.com'' [] (\<lambda>_. False),
      Txt ''Password'', Inp ''password'' [] (\<lambda>_. False),
      Btn (if lp_pending w then ''Signing in...'' else ''Sign in'') (lp_pending w)
        (\<lambda>ev. case ev of LoginSubmit fd \<Rightarrow> required_fields [''email'', ''password''] fd),
      Txt ''Don't have an account? '', Txt ''Sign up'']"

definition login_enabled :: "login_event \<Rightarrow> login_page \<Rightarrow> bool" where
  "login_enabled ev w = offers (login_view w) ev"

fun login_handler :: "env \<Rightarrow> login_event \<Rightarrow> (login_page, unit) io" where
  "login_handler e (LoginSubmit fd) =
     Put (\<lambda>w. w\<lparr>lp_pending := True\<rparr>)
       (finally_do (bind (loginAction e fd) (\<lambda>st. upd (\<lambda>w. w\<lparr>lp_error := st\<rparr>)))
          (\<lambda>w. w\<lparr>lp_pending := False\<rparr>))"

definition login_init :: "browser \<Rightarrow> login_page" where
  "login_init b = \<lparr>storage = storage b, hrefs = hrefs b, lp_error = None, lp_pending = False\<rparr>"

lemma login_enabled_iff:
  "login_enabled (LoginSubmit fd) w =
     (\<not> lp_pending w \<and> required_fields [''email'', ''password''] fd)"
  by (simp add: login_enabled_def login_view_def split: option.split)

interpretation login_form: single_flight login_enabled "login_handler e" "login_init b" lp_pending
  for e b
proof
  show "\<not> lp_pending (login_init b)" by (simp add: login_init_def)
next
  fix ev and w :: login_page
  obtain fd where ev: "ev = LoginSubmit fd" by (cases ev)
  have "wp lp_pending (bind (loginAction e fd) (\<lambda>st. upd (\<lambda>w. w\<lparr>lp_error := st\<rparr>))) (w\<lparr>lp_pending := True\<rparr>)"
    by (intro wp_bind wp_loginAction) (simp_all add: browser_ops io_simps)
  then show "flight lp_pending (login_handler e ev) w"
    unfolding ev by (auto intro!: flight_finally single_bind)
next
  fix ev w w' ps t assume "login_enabled ev w" "lp_pending w"
  then show "lp_pending w' \<and> \<not> suspended t \<and> ps = []"
    by (cases ev) (simp add: login_enabled_iff)
qed

text \<open>A login is never submitted twice: at every moment at most one login request is in
  flight, and the button is disabled exactly while there is one.\<close>

theorem login_single_flight:
  assumes "reachable login_enabled (login_handler e) (login_init b) (w, ts)"
  shows "in_flight ts \<le> 1 \<and> (in_flight ts = 1 \<longleftrightarrow> lp_pending w) \<and>
    (in_flight ts = 1 \<longrightarrow> (\<forall>ev. \<not> login_enabled ev w))"
proof -
  have "in_flight ts = (if lp_pending w then 1 else 0)"
    by (rule login_form.at_most_one [OF assms])
  moreover have "lp_pending w \<Longrightarrow> \<not> login_enabled ev w" for ev
    by (cases ev) (simp add: login_enabled_iff)
  ultimately show ?thesis by simp
qed

theorem login_single_flight_witness:
  "\<exists>w ts. reachable login_enabled (login_handler \<lparr>api_url = None, window = None\<rparr>)
      (login_init \<lparr>storage = Map.empty, hrefs = []\<rparr>) (w, ts) \<and> in_flight ts = 1 \<and>
    (\<forall>ev. \<not> login_enabled ev w)"
proof -
  let ?e = "\<lparr>api_url = None, window = None\<rparr>" and ?b = "\<lparr>storage = Map.empty, hrefs = []\<rparr>"
  have "\<exists>w ts. exec login_enabled (login_handler ?e)
      [Event (LoginSubmit [''email'' \<mapsto> ''a@b'', ''password'' \<mapsto> ''pw''])] (login_init ?b, []) =
      Some (w, ts) \<and> in_flight ts = 1"
    by (simp add: login_enabled_iff login_init_def required_fields_def plain_field_def
        trimmed_field_def nullish_def trim_def is_ws_def loginAction_def fetch_or_def io_simps
        in_flight_def)
  then obtain w ts where r: "reachable login_enabled (login_handler ?e) (login_init ?b) (w, ts)"
    and n: "in_flight ts = 1"
    by (blast intro: exec_reachable_init)
  from login_single_flight [OF r] n r show ?thesis by blast
qed

section \<open>Registration\<close>

datatype form_key = Username | Email | Password | Confirm

type_synonym form_fields = "form_key \<Rightarrow> string"

record register_page = browser +
  rp_step :: nat
  rp_form :: form_fields
  rp_errors :: "form_key \<Rightarrow> string option"
  rp_server_error :: "string option"
  rp_status :: string
  rp_pending :: bool

datatype register_event =
    SetField form_key string
  | Continue
  | PickStatus string
  | CreateAccount
  | Back

definition STATUS_OPTIONS :: "(string \<times> string) list" where
  "STATUS_OPTIONS =
     [(''online'', ''Online''), (''away'', ''Away''), (''dnd'', ''Do Not Disturb''),
      (''offline'', ''Invisible'')]"

definition form_keys :: "form_key list" where
  "form_keys = [Username, Email, Password, Confirm]"

text \<open>\<open>validateStep1\<close>: the errors, one per field.\<close>

fun step1_errors :: "form_fields \<Rightarrow> form_key \<Rightarrow> string option" where
  "step1_errors f Username = (if f Username = [] then Some ''Username is required.'' else None)"
| "step1_errors f Email =
     (if CHR 0x40 \<notin> set (f Email) then Some ''Valid email required.'' else None)"
| "step1_errors f Password =
     (if length (f Password) < 8 then Some ''Password must be at least 8 characters.'' else None)"
| "step1_errors f Confirm =
     (if f Password \<noteq> f Confirm then Some ''Passwords do not match.'' else None)"

definition step1_valid :: "form_fields \<Rightarrow> bool" where
  "step1_valid f = list_all (\<lambda>k. step1_errors f k = None) form_keys"

definition register_form_data :: "form_fields \<Rightarrow> form_data" where
  "register_form_data f =
     [''username'' \<mapsto> f Username, ''email'' \<mapsto> f Email, ''password'' \<mapsto> f Password]"

definition field_input :: "register_page \<Rightarrow> form_key \<Rightarrow> string \<Rightarrow> string \<Rightarrow> register_event ui" where
  "field_input w k label placeholder = Box
     [Txt label,
      Inp placeholder (rp_form w k) (\<lambda>ev. case ev of SetField k' _ \<Rightarrow> k' = k | _ \<Rightarrow> False),
      (case truthy (rp_errors w k) of Some m \<Rightarrow> Txt m | None \<Rightarrow> Box [])]"

definition register_view :: "register_page \<Rightarrow> register_event ui" where
  "register_view w =
     (if rp_step w = 1 then Box
        [Txt ''C'', Txt ''Concordia'', Txt ''Create an account'',
         Txt ''Get started with Concordia in seconds.'',
         field_input w Username ''Username'' ''cooluser'',
         field_input w Email ''Email'' ''you@example.com'',
         field_input w Password ''Password'' ''password'',
         field_input w Confirm ''Confirm Password'' ''password'',
         Btn ''Continue'' False (\<lambda>ev. ev = Continue),
         Txt ''Already have an account? '', Txt ''Sign in'']
      else Box
        [Txt ''C'', Txt ''Concordia'', Txt ''Set your presence'', Txt ''How should others see you when you join?'',
         Txt (upper (if rp_form w Username = [] then ''U'' else take 1 (rp_form w Username))),
         Txt (if rp_form w Username = [] then ''Username'' else rp_form w Username),
         Txt ''Initial Status'',
         Box (map (\<lambda>(v, l). Btn l False (\<lambda>ev. ev = PickStatus v)) STATUS_OPTIONS),
         (case truthy (rp_server_error w) of Some m \<Rightarrow> Txt m | None \<Rightarrow> Box []),
         Btn (if rp_pending w then ''Creating account...'' else ''Create Account'') (rp_pending w)
           (\<lambda>ev. ev = CreateAccount),
         Btn ''Back'' False (\<lambda>ev. ev = Back)])"

definition register_enabled :: "register_event \<Rightarrow> register_page \<Rightarrow> bool" where
  "register_enabled ev w = offers (register_view w) ev"

fun register_handler :: "env \<Rightarrow> register_event \<Rightarrow> (register_page, unit) io" where
  "register_handler e (SetField k v) = upd (\<lambda>w. w\<lparr>rp_form := (rp_form w)(k := v)\<rparr>)"
| "register_handler e Continue =
     Get (\<lambda>w. let f = rp_form w in
       Put (\<lambda>w. w\<lparr>rp_errors := step1_errors f\<rparr>)
         (if step1_valid f then upd (\<lambda>w. w\<lparr>rp_step := 2\<rparr>) else Ret ()))"
| "register_handler e (PickStatus v) = upd (\<lambda>w. w\<lparr>rp_status := v\<rparr>)"
| "register_handler e CreateAccount =
     Get (\<lambda>w. let fd = register_form_data (rp_form w) in
       Put (\<lambda>w. w\<lparr>rp_server_error := None, rp_pending := True\<rparr>)
         (finally_do
            (bind (registerAction e fd) (\<lambda>result.
               case truthy result of
                 Some m \<Rightarrow> upd (\<lambda>w. w\<lparr>rp_server_error := Some m\<rparr>)
               | None \<Rightarrow> Ret ()))
            (\<lambda>w. w\<lparr>rp_pending := False\<rparr>)))"
| "register_handler e Back = upd (\<lambda>w. w\<lparr>rp_step := 1\<rparr>)"

definition register_init :: "browser \<Rightarrow> register_page" where
  "register_init b =
     \<lparr>storage = storage b, hrefs = hrefs b, rp_step = 1, rp_form = (\<lambda>_. []),
      rp_errors = (\<lambda>_. None), rp_server_error = None, rp_status = ''online'', rp_pending = False\<rparr>"

lemma register_enabled_simps [simp]:
  "register_enabled (SetField k v) w = (rp_step w = 1)"
  "register_enabled Continue w = (rp_step w = 1)"
  "register_enabled CreateAccount w = (rp_step w \<noteq> 1 \<and> \<not> rp_pending w)"
  "register_enabled Back w = (rp_step w \<noteq> 1)"
  by (cases k)
     (simp_all add: register_enabled_def register_view_def field_input_def STATUS_OPTIONS_def
       split: option.split)

lemma step1_valid_iff:
  "step1_valid f \<longleftrightarrow>
     f Username \<noteq> [] \<and> CHR 0x40 \<in> set (f Email) \<and> 8 \<le> length (f Password) \<and>
     f Password = f Confirm"
  by (auto simp: step1_valid_def form_keys_def split: if_splits)

definition register_inv :: "register_page \<Rightarrow> bool" where
  "register_inv w \<longleftrightarrow> (rp_step w = 1 \<or> rp_step w = 2 \<and> step1_valid (rp_form w))"

lemma wp_register:
  assumes "I w" "\<And>w u. I w \<Longrightarrow> I (set_href u w)" "\<And>w m. I w \<Longrightarrow> I (w\<lparr>rp_server_error := m\<rparr>)"
  shows "wp I (bind (registerAction e fd) (\<lambda>result.
    case truthy result of Some m \<Rightarrow> upd (\<lambda>w. w\<lparr>rp_server_error := Some m\<rparr>) | None \<Rightarrow> Ret ())) w"
  using assms by (intro wp_bind wp_registerAction) (auto simp: io_simps split: option.split)

interpretation register_wizard: component register_enabled "register_handler e" "register_init b" register_inv
  for e b
proof
  show "register_inv (register_init b)" by (simp add: register_inv_def register_init_def)
next
  fix w ev assume "register_inv w" "register_enabled ev w"
  then show "wp register_inv (register_handler e ev) w"
    by (cases ev)
       (auto simp: register_inv_def io_simps Let_def browser_ops intro!: wp_finally wp_register)
qed

interpretation register_form: single_flight register_enabled "register_handler e" "register_init b" rp_pending
  for e b
proof
  show "\<not> rp_pending (register_init b)" by (simp add: register_init_def)
next
  fix ev w assume "register_enabled ev w" "\<not> rp_pending w"
  then show "flight rp_pending (register_handler e ev) w"
    by (cases ev) (auto simp: io_simps Let_def browser_ops intro!: flight_finally wp_register single_bind
        split: option.split)
next
  fix ev w w' ps t assume "register_enabled ev w" "rp_pending w" "seg (register_handler e ev) w = (w', ps, t)"
  then show "rp_pending w' \<and> \<not> suspended t \<and> ps = []"
    by (cases ev) (auto simp: io_simps Let_def split: if_splits)
qed

text \<open>C12. The service only ever sees a registration that passed the first step: whenever the
  page lets the user create the account, the form has a user name, an address with an \<open>@\<close>, a
  password of at least eight characters that equals its confirmation, and no registration is
  in flight; the request that goes out, if one does, is the one for that form.\<close>

theorem register_only_valid_forms:
  assumes "reachable register_enabled (register_handler e) (register_init b) (w, ts)"
    and "register_enabled CreateAccount w"
  shows "rp_form w Username \<noteq> [] \<and> CHR 0x40 \<in> set (rp_form w Email) \<and>
    8 \<le> length (rp_form w Password) \<and> rp_form w Password = rp_form w Confirm \<and>
    in_flight ts = 0 \<and>
    pending_calls (snd (snd (seg (register_handler e CreateAccount) w))) \<in>
      {[], [HttpFetch (register_request e (register_form_data (rp_form w)))]}"
proof -
  have "in_flight ts = 0"
    using register_form.at_most_one [OF assms(1)] assms(2) by simp
  moreover have "step1_valid (rp_form w)"
    using register_wizard.invariant [OF assms(1)] assms(2) by (auto simp: register_inv_def)
  moreover have "pending_calls (snd (snd (seg (register_handler e CreateAccount) w))) \<in>
      {[], [HttpFetch (register_request e (register_form_data (rp_form w)))]}"
    by (simp add: registerAction_def fetch_or_def io_simps Let_def)
  ultimately show ?thesis unfolding step1_valid_iff by blast
qed

theorem register_only_valid_forms_witness:
  "\<exists>w ts. reachable register_enabled (register_handler \<lparr>api_url = None, window = None\<rparr>)
      (register_init \<lparr>storage = Map.empty, hrefs = []\<rparr>) (w, ts) \<and>
    register_enabled CreateAccount w \<and> 8 \<le> length (rp_form w Password)"
proof -
  let ?e = "\<lparr>api_url = None, window = None\<rparr>" and ?b = "\<lparr>storage = Map.empty, hrefs = []\<rparr>"
  have "\<exists>w ts. exec register_enabled (register_handler ?e)
      [Event (SetField Username ''ann''), Event (SetField Email ''a@b''),
       Event (SetField Password ''12345678''), Event (SetField Confirm ''12345678''),
       Event Continue] (register_init ?b, []) = Some (w, ts) \<and> register_enabled CreateAccount w"
    by (simp add: register_init_def io_simps Let_def step1_valid_iff)
  then obtain w ts where r: "reachable register_enabled (register_handler ?e) (register_init ?b) (w, ts)"
    and c: "register_enabled CreateAccount w"
    by (blast intro: exec_reachable_init)
  from register_only_valid_forms [OF r c] r c show ?thesis by blast
qed

text \<open>The presence status picked in the second step is never sent: whatever status is
  selected, creating the account makes the same request, if any, and leaves the browser in
  the same state.\<close>

theorem register_ignores_status:
  "pending_calls (snd (snd (seg (register_handler e CreateAccount) (w\<lparr>rp_status := s\<rparr>)))) =
     pending_calls (snd (snd (seg (register_handler e CreateAccount) w))) \<and>
   fst (seg (register_handler e CreateAccount) (w\<lparr>rp_status := s\<rparr>)) =
     (fst (seg (register_handler e CreateAccount) w))\<lparr>rp_status := s\<rparr>"
  by (simp add: registerAction_def fetch_or_def io_simps Let_def)

end
