(* ===== verification/Sockets.thy ===== *)
theory Sockets
  imports Api
begin

text \<open>
  The browser's \<open>WebSocket\<close> objects and timers, as far as the client uses them: which ones a
  component has created, the value its callbacks were closed over, and the state the browser
  keeps for each. An object is named by its position in the list of those created.
\<close>

section \<open>WebSockets\<close>

datatype ready = Connecting | Open | Closing | Closed

record 'c socket =
  closure :: 'c
  address :: string
  ready :: ready
  sent :: "json list"

definition new_socket :: "'c \<Rightarrow> string \<Rightarrow> 'c socket" where
  "new_socket c u = \<lparr>closure = c, address = u, ready = Connecting, sent = []\<rparr>"

definition update_at :: "nat \<Rightarrow> ('a \<Rightarrow> 'a) \<Rightarrow> 'a list \<Rightarrow> 'a list" where
  "update_at i f xs = (if i < length xs then xs[i := f (xs ! i)] else xs)"

definition in_state :: "ready \<Rightarrow> nat \<Rightarrow> 'c socket list \<Rightarrow> bool" where
  "in_state r i ss \<longleftrightarrow> i < length ss \<and> ready (ss ! i) = r"

text \<open>\<open>close()\<close>: the \<open>close\<close> event comes later.\<close>

definition close_ws :: "'c socket \<Rightarrow> 'c socket" where
  "close_ws s =
     (if ready s = Connecting \<or> ready s = Open then s\<lparr>ready := Closing\<rparr> else s)"

text \<open>\<open>send(..)\<close> on a socket that is open; a closing or closed one drops the data.\<close>

definition send_ws :: "json \<Rightarrow> 'c socket \<Rightarrow> 'c socket" where
  "send_ws j s = (if ready s = Open then s\<lparr>sent := sent s @ [j]\<rparr> else s)"

definition live :: "'c socket \<Rightarrow> bool" where
  "live s \<longleftrightarrow> ready s = Connecting \<or> ready s = Open"

lemma length_update_at [simp]: "length (update_at i f xs) = length xs"
  by (simp add: update_at_def)

lemma nth_update_at [simp]:
  "j < length xs \<Longrightarrow> update_at i f xs ! j = (if i = j then f (xs ! j) else xs ! j)"
  by (simp add: update_at_def)

lemma close_ws_simps [simp]:
  "closure (close_ws s) = closure s" "address (close_ws s) = address s" "sent (close_ws s) = sent s"
  "\<not> live (close_ws s)" "ready (close_ws s) = Closed \<longleftrightarrow> ready s = Closed"
  by (auto simp: close_ws_def live_def)

lemma send_ws_simps [simp]:
  "closure (send_ws j s) = closure s" "ready (send_ws j s) = ready s" "live (send_ws j s) = live s"
  by (auto simp: send_ws_def live_def)

section \<open>Timers\<close>

record 'c timer =
  t_closure :: 'c
  t_delay :: nat
  t_pending :: bool

definition new_timer :: "'c \<Rightarrow> nat \<Rightarrow> 'c timer" where
  "new_timer c d = \<lparr>t_closure = c, t_delay = d, t_pending = True\<rparr>"

definition timer_done :: "'c timer \<Rightarrow> 'c timer" where
  "timer_done t = t\<lparr>t_pending := False\<rparr>"

definition pending_at :: "nat \<Rightarrow> 'c timer list \<Rightarrow> bool" where
  "pending_at i ts \<longleftrightarrow> i < length ts \<and> t_pending (ts ! i)"

text \<open>\<open>clearTimeout\<close> of a reference that may be \<open>null\<close>.\<close>

definition clear_timer :: "nat option \<Rightarrow> 'c timer list \<Rightarrow> 'c timer list" where
  "clear_timer r ts = (case r of None \<Rightarrow> ts | Some i \<Rightarrow> update_at i timer_done ts)"

definition close_ref :: "nat option \<Rightarrow> 'c socket list \<Rightarrow> 'c socket list" where
  "close_ref r ss = (case r of None \<Rightarrow> ss | Some i \<Rightarrow> update_at i close_ws ss)"

lemma new_timer_simps [simp]:
  "t_closure (new_timer c d) = c" "t_delay (new_timer c d) = d" "t_pending (new_timer c d)"
  by (simp_all add: new_timer_def)

lemma new_socket_simps [simp]:
  "closure (new_socket c u) = c" "address (new_socket c u) = u" "ready (new_socket c u) = Connecting"
  "sent (new_socket c u) = []"
  by (simp_all add: new_socket_def)

lemma timer_done_simps [simp]:
  "t_closure (timer_done t) = t_closure t" "t_delay (timer_done t) = t_delay t"
  "\<not> t_pending (timer_done t)"
  by (simp_all add: timer_done_def)

lemma length_clear_timer [simp]: "length (clear_timer r ts) = length ts"
  by (simp add: clear_timer_def split: option.split)

lemma length_close_ref [simp]: "length (close_ref r ss) = length ss"
  by (simp add: close_ref_def split: option.split)

text \<open>Which sockets and timers are over.\<close>

definition closed_all :: "'c socket list \<Rightarrow> bool" where
  "closed_all ss \<longleftrightarrow> (\<forall>i<length ss. ready (ss ! i) = Closed)"

definition idle_all :: "'c timer list \<Rightarrow> bool" where
  "idle_all ts \<longleftrightarrow> (\<forall>j<length ts. \<not> t_pending (ts ! j))"

lemma idle_clear_timer:
  "(\<And>j. j < length ts \<Longrightarrow> t_pending (ts ! j) \<Longrightarrow> r = Some j) \<Longrightarrow> idle_all (clear_timer r ts)"
  by (auto simp: idle_all_def clear_timer_def split: option.split)

lemma closed_close_ref [simp]:
  "i < length ss \<Longrightarrow> ready (close_ref r ss ! i) = Closed \<longleftrightarrow> ready (ss ! i) = Closed"
  by (simp add: close_ref_def split: option.split)

lemma dead_close_ref:
  "i < length ss \<Longrightarrow> (live (ss ! i) \<Longrightarrow> r = Some i) \<Longrightarrow> \<not> live (close_ref r ss ! i)"
  by (auto simp: close_ref_def split: option.split)

lemma live_not_closed: "live s \<Longrightarrow> ready s \<noteq> Closed"
  by (auto simp: live_def)

text \<open>The wait before attempt \<open>n + 1\<close> to reconnect, doubling up to half a minute.\<close>

definition backoff :: "nat \<Rightarrow> nat" where
  "backoff n = min (1000 * 2 ^ n) 30000"

lemma backoff_bounds: "1000 \<le> backoff n \<and> backoff n \<le> 30000"
proof -
  have "1 \<le> (2::nat) ^ n" by simp
  then have "1000 \<le> 1000 * (2::nat) ^ n" by linarith
  then show ?thesis by (simp add: backoff_def)
qed

lemma backoff_mono: "m \<le> n \<Longrightarrow> backoff m \<le> backoff n"
  unfolding backoff_def by (intro min.mono mult_le_mono2 power_increasing) simp_all

lemma backoff_capped: "5 \<le> n \<Longrightarrow> backoff n = 30000"
proof -
  assume "5 \<le> n"
  then have "backoff 5 \<le> backoff n" by (rule backoff_mono)
  with backoff_bounds [of n] show ?thesis by (simp add: backoff_def [of 5])
qed

lemma backoff_values:
  "map backoff [0, 1, 2, 3, 4, 5] = [1000, 2000, 4000, 8000, 16000, 30000]"
  by (simp add: backoff_def)

end
