(* ===== verification/Chat.thy ===== *)
theory Chat
  imports Sockets
begin

text \<open>
  The data the chat views exchange with the services, with the decoders of the answers
  (\<open>interface Message\<close>, \<open>Channel\<close>, \<open>CurrentUser\<close> of \<open>ChannelView.tsx\<close> and
  \<open>MessageList.tsx\<close>), and the timestamps JavaScript writes.
\<close>

text \<open>Where a component is: not yet rendered, on the page, or removed from it.\<close>

datatype life = Fresh | Mounted | Gone

record message =
  message_id :: string
  channel_id :: string
  author_id :: string
  content :: string
  created_at :: string
  username :: "string option"

definition as_message :: "json \<Rightarrow> message option" where
  "as_message j =
     (case (str_field ''message_id'' j, str_field ''channel_id'' j, str_field ''author_id'' j,
            str_field ''content'' j, str_field ''created_at'' j) of
        (Some m, Some c, Some a, Some t, Some d) \<Rightarrow>
          Some \<lparr>message_id = m, channel_id = c, author_id = a, content = t, created_at = d,
            username = str_field ''username'' j\<rparr>
      | _ \<Rightarrow> None)"

datatype channel_type = TEXT | VOICE

record channel =
  ch_id :: string
  ch_name :: string
  ch_type :: channel_type

definition as_channel_type :: "string \<Rightarrow> channel_type option" where
  "as_channel_type s = (if s = ''TEXT'' then Some TEXT else if s = ''VOICE'' then Some VOICE else None)"

definition as_channel :: "json \<Rightarrow> channel option" where
  "as_channel j =
     (case (str_field ''channel_id'' j, str_field ''name'' j,
            Option.bind (str_field ''type'' j) as_channel_type) of
        (Some c, Some n, Some t) \<Rightarrow> Some \<lparr>ch_id = c, ch_name = n, ch_type = t\<rparr>
      | _ \<Rightarrow> None)"

record user =
  u_id :: string
  u_name :: string

definition as_user :: "json \<Rightarrow> user option" where
  "as_user j =
     (case (str_field ''user_id'' j, str_field ''username'' j) of
        (Some i, Some n) \<Rightarrow> Some \<lparr>u_id = i, u_name = n\<rparr>
      | _ \<Rightarrow> None)"

section \<open>Timestamps\<close>

text \<open>
  \<open>new Date(ms).toISOString()\<close> for times from 1970 to 9999: the civil date of a day number,
  counted from the first of March of the year 0 in eras of 400 years.
\<close>

definition civil :: "nat \<Rightarrow> nat \<times> nat \<times> nat" where
  "civil days =
     (let z = days + 719468; era = z div 146097; doe = z mod 146097;
          yoe = (doe - doe div 1460 + doe div 36524 - doe div 146096) div 365;
          doy = doe - (365 * yoe + yoe div 4 - yoe div 100);
          mp = (5 * doy + 2) div 153;
          m = (if mp < 10 then mp + 3 else mp - 9)
      in (yoe + era * 400 + (if m \<le> 2 then 1 else 0), m, doy - (153 * mp + 2) div 5 + 1))"

definition pad :: "nat \<Rightarrow> string \<Rightarrow> string" where
  "pad n s = replicate (n - length s) CHR 0x30 @ s"

definition toISOString :: "nat \<Rightarrow> string" where
  "toISOString ms =
     (let (y, m, d) = civil (ms div 86400000); t = ms mod 86400000 in
      pad 4 (show_nat y) @ ''-'' @ pad 2 (show_nat m) @ ''-'' @ pad 2 (show_nat d) @ ''T'' @
      pad 2 (show_nat (t div 3600000)) @ '':'' @ pad 2 (show_nat (t div 60000 mod 60)) @ '':'' @
      pad 2 (show_nat (t div 1000 mod 60)) @ ''.'' @ pad 3 (show_nat (t mod 1000)) @ ''Z'')"

end
