(* ===== verification/SendTip.thy ===== *)
theory SendTip
  imports Chat
begin

text \<open>
  \<open>app/components/SendTipModal.tsx\<close>: the dialog that sends a tip. Its state extends the state
  of the page that opens it, and \<open>onClose\<close> and \<open>onSuccess\<close> are programs over that page.
\<close>

record tip_modal = browser +
  recipientId :: "string option"
  recipientName :: "string option"
  tipperId :: "string option"
  toId :: string
  amount :: string
  tip_currency :: string
  tip_message :: string
  submitting :: bool
  tip_error :: "string option"
  modal_run :: nat

text \<open>
  \<open>tipperId\<close> is the prop \<open>currentUserId\<close>. \<open>modal_run\<close> names the dialog that is open: what an
  earlier one still does to its own state has no effect.
\<close>

definition in_modal ::
  "nat \<Rightarrow> ('z tip_modal_scheme \<Rightarrow> 'z tip_modal_scheme) \<Rightarrow> 'z tip_modal_scheme \<Rightarrow> 'z tip_modal_scheme" where
  "in_modal n u w = (if modal_run w = n then u w else w)"

definition open_modal ::
  "string option \<Rightarrow> string option \<Rightarrow> string option \<Rightarrow> 'z tip_modal_scheme \<Rightarrow> 'z tip_modal_scheme" where
  "open_modal rid rname user w =
     w\<lparr>recipientId := rid, recipientName := rname, tipperId := user, toId := nullish rid [],
       amount := [], tip_currency := ''USD'', tip_message := [], submitting := False,
       tip_error := None, modal_run := modal_run w + 1\<rparr>"

datatype modal_event =
    SetTo string
  | SetAmount string
  | SetCurrency string
  | SetMessage string
  | SubmitTip
  | CancelTip

definition CURRENCIES :: "string list" where
  "CURRENCIES = [''USD'', ''EUR'', ''GBP'']"

text \<open>\<open>(cents / 100).toFixed(2)\<close>.\<close>

definition format_cents :: "int \<Rightarrow> string" where
  "format_cents c =
     (if c < 0 then ''-'' else []) @ show_nat (nat \<bar>c\<bar> div 100) @ ''.'' @ pad 2 (show_nat (nat \<bar>c\<bar> mod 100))"

definition formatAmount :: "int \<Rightarrow> string \<Rightarrow> string" where
  "formatAmount cents currency = currency @ '' '' @ format_cents cents"

definition tip_init :: "string \<Rightarrow> int \<Rightarrow> string \<Rightarrow> string \<Rightarrow> req_init" where
  "tip_init to cents currency msg = json_init POST
     (JObj [(''recipient_id'', JStr to), (''amount_cents'', JNum cents),
            (''currency'', JStr currency), (''message'', JStr msg)])"

text \<open>
  \<open>cents_of s\<close> is \<open>Math.round(parseFloat(s) * 100)\<close>, the browser's floating-point reading of
  the amount; \<open>None\<close> is \<open>NaN\<close>.
\<close>

definition handleSubmit ::
  "env \<Rightarrow> (string \<Rightarrow> int option) \<Rightarrow> ('z tip_modal_scheme, unit) io \<Rightarrow>
     (string \<Rightarrow> ('z tip_modal_scheme, unit) io) \<Rightarrow> ('z tip_modal_scheme, unit) io" where
  "handleSubmit e cents_of onClose onSuccess =
     Get (\<lambda>w.
       let n = modal_run w; to = trim (toId w);
           cents = (case cents_of (amount w) of Some c \<Rightarrow> if 0 < c then c else 0 | None \<Rightarrow> 0) in
       if to = [] \<or> cents = 0
       then upd (\<lambda>w. w\<lparr>tip_error := Some ''Please enter a valid recipient and amount.''\<rparr>)
       else if truthy (tipperId w) = Some to
       then upd (\<lambda>w. w\<lparr>tip_error := Some ''Cannot tip yourself''\<rparr>)
       else Put (\<lambda>w. w\<lparr>submitting := True, tip_error := None\<rparr>)
         (finally_do
            (try_catch
               (bind (apiFetch e ''/tips'' (tip_init to cents (tip_currency w) (tip_message w))) (\<lambda>res.
                  if ok res \<or> status res = 201 then
                    bind (onSuccess (''Tip of '' @ formatAmount cents (tip_currency w) @ '' sent!''))
                      (\<lambda>_. onClose)
                  else
                    bind (try_catch (read_json res) (\<lambda>_. Ret (JObj []))) (\<lambda>j.
                      case get_prop ''error'' j of
                        None \<Rightarrow> Throw TypeError
                      | Some v \<Rightarrow> upd (in_modal n (\<lambda>w. w\<lparr>tip_error :=
                          Some (error_or (''Error '' @ show_int (status res)) v)\<rparr>)))))
               (\<lambda>_. upd (in_modal n (\<lambda>w. w\<lparr>tip_error := Some ''Failed to send tip''\<rparr>))))
            (in_modal n (\<lambda>w. w\<lparr>submitting := False\<rparr>))))"

fun modal_handler ::
  "env \<Rightarrow> (string \<Rightarrow> int option) \<Rightarrow> ('z tip_modal_scheme, unit) io \<Rightarrow>
     (string \<Rightarrow> ('z tip_modal_scheme, unit) io) \<Rightarrow> modal_event \<Rightarrow> ('z tip_modal_scheme, unit) io" where
  "modal_handler e cents_of onClose onSuccess (SetTo s) = upd (\<lambda>w. w\<lparr>toId := s\<rparr>)"
| "modal_handler e cents_of onClose onSuccess (SetAmount s) = upd (\<lambda>w. w\<lparr>amount := s\<rparr>)"
| "modal_handler e cents_of onClose onSuccess (SetCurrency s) = upd (\<lambda>w. w\<lparr>tip_currency := s\<rparr>)"
| "modal_handler e cents_of onClose onSuccess (SetMessage s) = upd (\<lambda>w. w\<lparr>tip_message := s\<rparr>)"
| "modal_handler e cents_of onClose onSuccess SubmitTip = handleSubmit e cents_of onClose onSuccess"
| "modal_handler e cents_of onClose onSuccess CancelTip = onClose"

text \<open>
  The form: the recipient is fixed when the dialog was opened for one. The browser submits it
  only when the required inputs are filled and the amount is a number of at least a cent.
\<close>

definition modal_view :: "(string \<Rightarrow> int option) \<Rightarrow> 'z tip_modal_scheme \<Rightarrow> modal_event ui" where
  "modal_view cents_of w = Box
     [Txt ''Send a Tip'', Txt ''Support someone in the community.'', Txt ''Recipient'',
      (case truthy (recipientId w) of
         Some r \<Rightarrow> Txt (nullish (recipientName w) r)
       | None \<Rightarrow> Inp ''Recipient user ID'' (toId w) (\<lambda>ev. case ev of SetTo _ \<Rightarrow> True | _ \<Rightarrow> False)),
      Txt ''Amount'', Inp ''0.00'' (amount w) (\<lambda>ev. case ev of SetAmount _ \<Rightarrow> True | _ \<Rightarrow> False),
      Txt ''Currency'',
      Inp ''select'' (tip_currency w) (\<lambda>ev. case ev of SetCurrency c \<Rightarrow> c \<in> set CURRENCIES | _ \<Rightarrow> False),
      Txt ''Message (optional)'',
      Inp ''Add a message...'' (tip_message w)
        (\<lambda>ev. case ev of SetMessage s \<Rightarrow> length s \<le> 200 | _ \<Rightarrow> False),
      (case truthy (tip_error w) of Some m \<Rightarrow> Txt m | None \<Rightarrow> Box []),
      Btn ''Cancel'' False (\<lambda>ev. ev = CancelTip),
      Btn (if submitting w then ''Sending...'' else ''Send Tip'') (submitting w)
        (\<lambda>ev. ev = SubmitTip \<and> toId w \<noteq> [] \<and> amount w \<noteq> [])]"

lemma modal_offers [simp]:
  "offers (modal_view cents_of w) SubmitTip \<longleftrightarrow> \<not> submitting w \<and> toId w \<noteq> [] \<and> amount w \<noteq> []"
  "offers (modal_view cents_of w) (SetTo s) \<longleftrightarrow> truthy (recipientId w) = None"
  "offers (modal_view cents_of w) (SetAmount s)"
  "offers (modal_view cents_of w) (SetMessage s) \<longleftrightarrow> length s \<le> 200"
  "offers (modal_view cents_of w) CancelTip"
  by (auto simp: modal_view_def split: option.split)

text \<open>A tip goes out only for a named recipient other than oneself and a positive amount,
  and then it is the tip of the form; otherwise the reason is shown and nothing is sent.\<close>

theorem tip_request_guarded:
  fixes w :: "'z tip_modal_scheme"
  shows "\<exists>w' t. seg (handleSubmit e cents_of onClose onSuccess) w = (w', [], t) \<and>
    (case cents_of (amount w) of
       Some c \<Rightarrow>
         if 0 < c \<and> \<not> blank (toId w) \<and> truthy (tipperId w) \<noteq> Some (trim (toId w))
         then submitting w' \<and> tip_error w' = None \<and>
           (\<exists>hs. pending_calls t = [HttpFetch (api_request e ''/tips''
             (tip_init (trim (toId w)) c (tip_currency w) (tip_message w)) hs)])
         else pending_calls t = [] \<and> tip_error w' \<noteq> None \<and> submitting w' = submitting w
     | None \<Rightarrow> pending_calls t = [] \<and> tip_error w' \<noteq> None \<and> submitting w' = submitting w)"
  by (auto simp: handleSubmit_def apiFetch_def io_simps Let_def blank_def split: option.split)

end
