(* ===== verification/TipsPage.thy ===== *)
theory TipsPage
  imports SendTip
begin

text \<open>
  \<open>app/app/tips/page.tsx\<close>: the tips the user sent or received, loaded in pages of twenty by
  offset, with a dialog that sends one. \<open>list_tips\<close> of the tips service is modelled beside it
  as the contract of the paging.
\<close>

section \<open>The page\<close>

record tip =
  tip_id :: string
  sender_id :: string
  recipient_id :: string
  amount_cents :: int
  currency :: string
  t_message :: string
  t_created_at :: string

definition as_tip :: "json \<Rightarrow> tip option" where
  "as_tip j =
     (case (str_field ''tip_id'' j, str_field ''sender_id'' j, str_field ''recipient_id'' j,
            num_field ''amount_cents'' j, str_field ''currency'' j, str_field ''message'' j,
            str_field ''created_at'' j) of
        (Some i, Some s, Some r, Some c, Some cur, Some m, Some d) \<Rightarrow>
          Some \<lparr>tip_id = i, sender_id = s, recipient_id = r, amount_cents = c, currency = cur,
            t_message = m, t_created_at = d\<rparr>
      | _ \<Rightarrow> None)"

datatype direction = Sent | Received

definition direction_name :: "direction \<Rightarrow> string" where
  "direction_name d = (case d of Sent \<Rightarrow> ''sent'' | Received \<Rightarrow> ''received'')"

definition PAGE_SIZE :: nat where
  "PAGE_SIZE = 20"

record tips_page = tip_modal +
  tab :: direction
  tips :: "tip list"
  tp_loading :: bool
  tp_loadingMore :: bool
  tp_hasMore :: bool
  offset :: nat
  modalOpen :: bool
  toast :: "string option"
  tp_userId :: "string option"
  tp_toasts :: nat
  tp_life :: life

datatype tips_event =
    TipsMount
  | PickTab direction
  | LoadMore
  | OpenModal
  | Modal modal_event
  | ToastOver

definition fetchTips :: "env \<Rightarrow> direction \<Rightarrow> nat \<Rightarrow> bool \<Rightarrow> ('z tips_page_scheme, unit) io" where
  "fetchTips e d off appending =
     Put (\<lambda>w. if appending then w\<lparr>tp_loadingMore := True\<rparr> else w\<lparr>tp_loading := True\<rparr>)
       (finally_do
          (try_catch
             (bind (apiFetch e (''/tips?direction='' @ direction_name d @ ''&limit='' @
                      show_nat PAGE_SIZE @ ''&offset='' @ show_nat off) no_init) (\<lambda>res.
                if \<not> ok res then Throw (ErrorMsg (show_int (status res)))
                else bind (read_as (as_list as_tip) res) (\<lambda>data.
                  upd (\<lambda>w. w\<lparr>tips := (if appending then tips w @ data else data),
                           tp_hasMore := length data = PAGE_SIZE, offset := off + length data\<rparr>))))
             (\<lambda>_. skip))
          (\<lambda>w. w\<lparr>tp_loading := False, tp_loadingMore := False\<rparr>))"

definition load_user :: "env \<Rightarrow> ('z tips_page_scheme, unit) io" where
  "load_user e =
     try_catch
       (bind (apiFetch e ''/auth/me'' no_init) (\<lambda>res.
          if ok res then bind (read_as (str_field ''user_id'') res) (\<lambda>u. upd (\<lambda>w. w\<lparr>tp_userId := Some u\<rparr>))
          else skip))
       (\<lambda>_. skip)"

text \<open>The effect that runs on the first render and when the tab changes.\<close>

definition tab_effect :: "env \<Rightarrow> ('z tips_page_scheme, unit) io" where
  "tab_effect e =
     Put (\<lambda>w. w\<lparr>tips := [], offset := 0, tp_hasMore := False\<rparr>)
       (Get (\<lambda>w. fetchTips e (tab w) 0 False))"

definition tips_close :: "('z tips_page_scheme, unit) io" where
  "tips_close = upd (\<lambda>w. w\<lparr>modalOpen := False, modal_run := modal_run w + 1\<rparr>)"

definition tips_success :: "env \<Rightarrow> direction \<Rightarrow> string \<Rightarrow> ('z tips_page_scheme, unit) io" where
  "tips_success e t msg =
     Put (\<lambda>w. w\<lparr>toast := Some msg, tp_toasts := tp_toasts w + 1\<rparr>)
       (if t = Sent then Spawn (fetchTips e Sent 0 False) (Ret ()) else Ret ())"

fun tips_handler ::
  "env \<Rightarrow> (string \<Rightarrow> int option) \<Rightarrow> tips_event \<Rightarrow> ('z tips_page_scheme, unit) io" where
  "tips_handler e cents_of TipsMount =
     Put (\<lambda>w. w\<lparr>tp_life := Mounted\<rparr>) (Spawn (load_user e) (tab_effect e))"
| "tips_handler e cents_of (PickTab t) =
     Get (\<lambda>w. if tab w = t then Ret () else Put (\<lambda>w. w\<lparr>tab := t\<rparr>) (tab_effect e))"
| "tips_handler e cents_of LoadMore = Get (\<lambda>w. fetchTips e (tab w) (offset w) True)"
| "tips_handler e cents_of OpenModal =
     upd (\<lambda>w. open_modal None None (tp_userId w) (w\<lparr>modalOpen := True\<rparr>))"
| "tips_handler e cents_of (Modal ev) =
     Get (\<lambda>w. modal_handler e cents_of tips_close (tips_success e (tab w)) ev)"
| "tips_handler e cents_of ToastOver = upd (\<lambda>w. w\<lparr>toast := None, tp_toasts := tp_toasts w - 1\<rparr>)"

definition tip_row :: "(string \<Rightarrow> string) \<Rightarrow> direction \<Rightarrow> tip \<Rightarrow> tips_event ui" where
  "tip_row formatDate t x = Box
     [Txt (formatAmount (amount_cents x) (currency x)),
      Txt (case t of Sent \<Rightarrow> ''to '' @ take 8 (recipient_id x) @ ''...''
           | Received \<Rightarrow> ''from '' @ take 8 (sender_id x) @ ''...''),
      Txt (formatDate (t_created_at x)),
      when_ui (t_message x \<noteq> []) (Txt (t_message x))]"

text \<open>\<open>formatDate\<close> depends on the locale. The dialog's own controls are in \<open>modal_view\<close>.\<close>

definition tips_view :: "(string \<Rightarrow> string) \<Rightarrow> 'z tips_page_scheme \<Rightarrow> tips_event ui" where
  "tips_view formatDate w = Box
     [Txt ''Tips'', Btn ''+ Send Tip'' False (\<lambda>ev. ev = OpenModal),
      (case truthy (toast w) of Some m \<Rightarrow> Txt m | None \<Rightarrow> Box []),
      Box (map (\<lambda>t. Btn (direction_name t) False (\<lambda>ev. ev = PickTab t)) [Sent, Received]),
      (if tp_loading w then Box []
       else if tips w = [] then Txt (''No '' @ direction_name (tab w) @ '' tips yet'')
       else Box
         [Box (map (tip_row formatDate (tab w)) (tips w)),
          when_ui (tp_hasMore w)
            (Btn (if tp_loadingMore w then ''Loading...'' else ''Load more'') (tp_loadingMore w)
               (\<lambda>ev. ev = LoadMore))])]"

fun tips_enabled :: "(string \<Rightarrow> int option) \<Rightarrow> tips_event \<Rightarrow> 'z tips_page_scheme \<Rightarrow> bool" where
  "tips_enabled cents_of TipsMount w = (tp_life w = Fresh)"
| "tips_enabled cents_of (Modal ev) w =
     (tp_life w = Mounted \<and> modalOpen w \<and> offers (modal_view cents_of w) ev)"
| "tips_enabled cents_of ToastOver w = (0 < tp_toasts w)"
| "tips_enabled cents_of ev w = (tp_life w = Mounted \<and> offers (tips_view (\<lambda>s. s) w) ev)"

definition tips_init :: "browser \<Rightarrow> tips_page" where
  "tips_init b =
     \<lparr>storage = storage b, hrefs = hrefs b, recipientId = None, recipientName = None,
      tipperId = None, toId = [], amount = [], tip_currency = ''USD'', tip_message = [],
      submitting = False, tip_error = None, modal_run = 0, tab = Sent, tips = [],
      tp_loading = True, tp_loadingMore = False, tp_hasMore = False, offset = 0,
      modalOpen = False, toast = None, tp_userId = None, tp_toasts = 0, tp_life = Fresh\<rparr>"

lemma tips_offers_more:
  "offers (tips_view fd w) LoadMore \<longleftrightarrow>
     \<not> tp_loading w \<and> tips w \<noteq> [] \<and> tp_hasMore w \<and> \<not> tp_loadingMore w"
  by (auto simp: tips_view_def tip_row_def list_ex_iff split: option.splits)

lemma tips_offers_tab: "offers (tips_view fd w) (PickTab t)"
  by (cases t) (simp_all add: tips_view_def)

section \<open>Paging\<close>

text \<open>\<open>list_tips\<close> of the service: the user's tips in one direction, newest first.\<close>

definition list_tips :: "tip list \<Rightarrow> nat \<Rightarrow> nat \<Rightarrow> tip list" where
  "list_tips rows limit off = take limit (drop off rows)"

definition tip_json :: "tip \<Rightarrow> json" where
  "tip_json x = JObj [(''tip_id'', JStr (tip_id x)), (''sender_id'', JStr (sender_id x)),
     (''recipient_id'', JStr (recipient_id x)), (''amount_cents'', JNum (amount_cents x)),
     (''currency'', JStr (currency x)), (''message'', JStr (t_message x)),
     (''created_at'', JStr (t_created_at x))]"

definition tips_reply :: "tip list \<Rightarrow> nat \<Rightarrow> reply" where
  "tips_reply rows off = HttpResp \<lparr>status = 200,
     body = Some (JArr (map tip_json (list_tips rows PAGE_SIZE off)))\<rparr>"

lemma as_tips_json: "as_list as_tip (JArr (map tip_json ts)) = Some ts"
proof (induction ts)
  case (Cons t ts)
  have "as_tip (tip_json t) = Some t"
    by (simp add: as_tip_def tip_json_def str_field_def num_field_def)
  with Cons show ?case by (simp add: as_list_def)
qed (simp add: as_list_def)

definition tips_shown :: "tip list \<Rightarrow> nat \<Rightarrow> 'z tips_page_scheme \<Rightarrow> bool" where
  "tips_shown rows n w \<longleftrightarrow> tp_life w = Mounted \<and> \<not> tp_loading w \<and> \<not> tp_loadingMore w \<and>
     tips w = take n rows \<and> offset w = length (take n rows) \<and> tp_hasMore w = (n \<le> length rows)"

lemmas run_tips = fetchTips_def load_user_def tab_effect_def tips_reply_def apiFetch_def io_simps
  Let_def first_headers_def getItem_def ok_def as_tips_json list_tips_def PAGE_SIZE_def

definition open_tips :: "tip list \<Rightarrow> tips_event turn list" where
  "open_tips rows = [Event TipsMount, Answer 1 0 (tips_reply rows 0), Answer 1 0 Rejected]"

definition more_tips :: "tip list \<Rightarrow> nat \<Rightarrow> nat \<Rightarrow> tips_event turn list" where
  "more_tips rows i off = [Event LoadMore, Answer i 0 (tips_reply rows off), Answer i 0 Rejected]"

lemma tips_open:
  "\<exists>w t. exec (tips_enabled c) (tips_handler e c) (open_tips rows) (tips_init b, []) =
      Some (w, [t, Ret ()]) \<and> tips_shown rows 20 w"
  by (auto simp: open_tips_def tips_init_def run_tips tips_shown_def min_def)

lemma tips_more:
  fixes w :: tips_page
  assumes "tips_shown rows n w" "0 < n" "n \<le> length rows"
  shows "\<exists>w' t. exec (tips_enabled c) (tips_handler e c) (more_tips rows (length ts) n) (w, ts) =
      Some (w', ts @ [t]) \<and> tips_shown rows (n + 20) w'"
proof -
  have "tips w \<noteq> []" using assms by (auto simp: tips_shown_def)
  then have en: "tips_enabled c LoadMore w" using assms by (simp add: tips_shown_def tips_offers_more)
  have "min (length rows - n) 20 = 20 \<longleftrightarrow> n + 20 \<le> length rows" using assms(3) by linarith
  moreover have "n + min (length rows - n) 20 = min (length rows) (n + 20)" using assms(3) by linarith
  ultimately show ?thesis
    using assms en
    by (simp add: more_tips_def run_tips tips_shown_def nth_append take_add min_absorb2
        del: tips_enabled.simps)
qed

definition all_tips :: "tip list \<Rightarrow> nat \<Rightarrow> tips_event turn list" where
  "all_tips rows k = concat (map (\<lambda>i. more_tips rows (i + 2) (20 * (i + 1))) [0..<k])"


definition demo_tip :: "string \<Rightarrow> string \<Rightarrow> tip" where
  "demo_tip i s = \<lparr>tip_id = i, sender_id = s, recipient_id = ''u2'', amount_cents = 150,
     currency = ''USD'', t_message = [], t_created_at = ''t0''\<rparr>"


text \<open>Switching tabs does not cancel the request of the tab that was left: when its answer
  comes last, its tips are listed under the other tab.\<close>

theorem stale_tab_listed:
  "\<exists>w ts. exec (tips_enabled c) (tips_handler e c)
      [Event TipsMount, Event (PickTab Received),
       Answer 2 0 (tips_reply in_rows 0), Answer 2 0 Rejected,
       Answer 1 0 (tips_reply out_rows 0), Answer 1 0 Rejected] (tips_init b, []) = Some (w, ts) \<and>
    tab w = Received \<and> tips w = take 20 out_rows \<and> \<not> tp_loading w"
  by (simp add: tips_init_def run_tips tips_offers_tab)

end
