(* ===== verification/ChannelView.thy ===== *)
theory ChannelView
  imports Chat
begin

text \<open>
  \<open>app/components/ChannelView.tsx\<close>: a channel's page. It loads the channel and the user,
  keeps the messages that arrived since (\<open>extraMessages\<close>), holds one WebSocket and reconnects
  it with a growing delay, and sends messages optimistically. Its effects run when it is
  mounted, again when its channel changes, and clean up when it goes away.
\<close>

section \<open>State\<close>

record channel_view = browser +
  serverId :: string
  channelId :: string
  channel :: "Chat.channel option"
  currentUser :: "user option"
  extraMessages :: "message list"
  sockets :: "string socket list"
  timers :: "string timer list"
  wsRef :: "nat option"
  reconnectTimer :: "nat option"
  reconnectAttempts :: nat
  alive :: bool
  life :: life

text \<open>
  \<open>Navigate\<close> is a render with other props. \<open>SendMessage\<close> carries the time at which it runs;
  \<open>Frame\<close> the parsed data of a WebSocket message, \<open>None\<close> when it is not JSON.
\<close>

datatype channel_event =
    Mount
  | Navigate string string
  | Unmount
  | SendMessage string nat
  | SocketOpened nat
  | Frame nat "json option"
  | SocketError nat
  | SocketClosed nat
  | TimerFired nat

section \<open>The message list\<close>

definition receive :: "message \<Rightarrow> message list \<Rightarrow> message list" where
  "receive m prev = add_new message_id m prev"

definition temp_id :: "nat \<Rightarrow> string" where
  "temp_id now = ''opt-'' @ show_nat now"

definition optimistic :: "string \<Rightarrow> user \<Rightarrow> string \<Rightarrow> nat \<Rightarrow> message" where
  "optimistic ch u text now =
     \<lparr>message_id = temp_id now, channel_id = ch, author_id = u_id u, content = text,
      created_at = toISOString now, username = Some (u_name u)\<rparr>"

definition retract :: "string \<Rightarrow> message list \<Rightarrow> message list" where
  "retract tempId prev = drop_key message_id tempId prev"

definition confirm :: "string \<Rightarrow> message \<Rightarrow> message list \<Rightarrow> message list" where
  "confirm tempId real prev =
     (if list_ex (\<lambda>m. message_id m = message_id real) prev then retract tempId prev
      else map (\<lambda>m. if message_id m = tempId then real else m) prev)"

section \<open>The connection\<close>

definition set_timer :: "string \<Rightarrow> nat \<Rightarrow> 'z channel_view_scheme \<Rightarrow> 'z channel_view_scheme" where
  "set_timer ch d w =
     w\<lparr>timers := timers w @ [new_timer ch d], reconnectTimer := Some (length (timers w))\<rparr>"

text \<open>
  \<open>refuses u\<close>: the browser's verdict on the address, \<open>new WebSocket(u)\<close> throws (a page served
  over https may not open \<open>ws:\<close>, for one).
\<close>

definition connectWs ::
  "env \<Rightarrow> (string \<Rightarrow> bool) \<Rightarrow> string \<Rightarrow> 'z channel_view_scheme \<Rightarrow> 'z channel_view_scheme" where
  "connectWs e refuses ch w =
     (if \<not> alive w then w
      else if window e = None then w
      else case truthy (getItem w ''access_token'') of
        None \<Rightarrow> set_timer ch 2000 w
      | Some token \<Rightarrow>
          (let u = getWebSocketUrl e ''/ws'' w in
           if refuses u then w
           else w\<lparr>sockets := sockets w @ [new_socket ch u], wsRef := Some (length (sockets w))\<rparr>))"

definition subscribe_frame :: "string \<Rightarrow> json" where
  "subscribe_frame ch =
     JObj [(''type'', JStr ''channel.subscribe''), (''channel_id'', JStr ch)]"

definition on_open :: "nat \<Rightarrow> 'z channel_view_scheme \<Rightarrow> 'z channel_view_scheme" where
  "on_open i w =
     w\<lparr>reconnectAttempts := 0,
       sockets := update_at i
         (\<lambda>s. send_ws (subscribe_frame (closure s)) (s\<lparr>ready := Open\<rparr>)) (sockets w)\<rparr>"

text \<open>
  The message a frame brings to channel \<open>ch\<close>; a frame that is not JSON, or does not have the
  fields that are read, brings none.
\<close>

definition new_message_of :: "string \<Rightarrow> json option \<Rightarrow> message option" where
  "new_message_of ch data =
     (case data of
        None \<Rightarrow> None
      | Some j \<Rightarrow>
          if str_field ''type'' j = Some ''new_message'' then
            (case get_prop ''payload'' j of
               Some (Some p) \<Rightarrow>
                 (case as_message p of
                    Some m \<Rightarrow> if channel_id m = ch then Some m else None
                  | None \<Rightarrow> None)
             | _ \<Rightarrow> None)
          else None)"

definition on_message ::
  "string \<Rightarrow> json option \<Rightarrow> 'z channel_view_scheme \<Rightarrow> 'z channel_view_scheme" where
  "on_message ch data w =
     (case new_message_of ch data of
        None \<Rightarrow> w
      | Some m \<Rightarrow> w\<lparr>extraMessages := receive m (extraMessages w)\<rparr>)"

definition on_close :: "nat \<Rightarrow> 'z channel_view_scheme \<Rightarrow> 'z channel_view_scheme" where
  "on_close i w =
     (let w' = w\<lparr>sockets := update_at i (\<lambda>s. s\<lparr>ready := Closed\<rparr>) (sockets w)\<rparr> in
      if \<not> alive w' then w'
      else set_timer (closure (sockets w ! i)) (backoff (reconnectAttempts w'))
             (w'\<lparr>reconnectAttempts := reconnectAttempts w' + 1\<rparr>))"

definition on_error :: "nat \<Rightarrow> 'z channel_view_scheme \<Rightarrow> 'z channel_view_scheme" where
  "on_error i w = w\<lparr>sockets := update_at i close_ws (sockets w)\<rparr>"

definition open_connection ::
  "env \<Rightarrow> (string \<Rightarrow> bool) \<Rightarrow> 'z channel_view_scheme \<Rightarrow> 'z channel_view_scheme" where
  "open_connection e refuses w = connectWs e refuses (channelId w) (w\<lparr>alive := True\<rparr>)"

definition close_connection :: "'z channel_view_scheme \<Rightarrow> 'z channel_view_scheme" where
  "close_connection w =
     w\<lparr>alive := False, timers := clear_timer (reconnectTimer w) (timers w),
       sockets := close_ref (wsRef w) (sockets w)\<rparr>"

section \<open>Requests\<close>

definition load_info :: "env \<Rightarrow> string \<Rightarrow> string \<Rightarrow> ('z channel_view_scheme, unit) io" where
  "load_info e s ch =
     try_catch
       (bind (par (apiFetch e (''/servers/'' @ s @ ''/channels'') no_init)
                  (apiFetch e ''/auth/me'' no_init)) (\<lambda>(chRes, userRes).
          bind (if ok chRes
                then bind (read_as (as_list as_channel) chRes) (\<lambda>list.
                       upd (\<lambda>w. w\<lparr>channel := List.find (\<lambda>c. ch_id c = ch) list\<rparr>))
                else skip) (\<lambda>_.
          if ok userRes
          then bind (read_as as_user userRes) (\<lambda>u. upd (\<lambda>w. w\<lparr>currentUser := Some u\<rparr>))
          else skip)))
       (\<lambda>_. skip)"

definition message_init :: "string \<Rightarrow> req_init" where
  "message_init text = json_init POST (JObj [(''content'', JStr text)])"

definition messages_path :: "string \<Rightarrow> string" where
  "messages_path ch = ''/channels/'' @ ch @ ''/messages''"

definition edit_extra ::
  "(message list \<Rightarrow> message list) \<Rightarrow> ('z channel_view_scheme, unit) io" where
  "edit_extra f = upd (\<lambda>w. w\<lparr>extraMessages := f (extraMessages w)\<rparr>)"

definition handleSend :: "env \<Rightarrow> string \<Rightarrow> nat \<Rightarrow> ('z channel_view_scheme, unit) io" where
  "handleSend e text now =
     Get (\<lambda>w. case currentUser w of
       None \<Rightarrow> Ret ()
     | Some u \<Rightarrow>
         (let ch = channelId w; tempId = temp_id now in
          Put (\<lambda>w. w\<lparr>extraMessages := extraMessages w @ [optimistic ch u text now]\<rparr>)
            (try_catch
               (bind (apiFetch e (messages_path ch) (message_init text)) (\<lambda>res.
                  if ok res \<or> status res = 201 then
                    bind (read_as as_message res) (\<lambda>real.
                      edit_extra (confirm tempId (real\<lparr>username := Some (u_name u)\<rparr>)))
                  else edit_extra (retract tempId)))
               (\<lambda>_. edit_extra (retract tempId)))))"

section \<open>The component\<close>

text \<open>
  The effects, in the order of the code. On a change of props the clean-ups of the effects
  that run again come first.
\<close>

definition info_effect ::
  "env \<Rightarrow> bool \<Rightarrow> ('z channel_view_scheme, unit) io \<Rightarrow> ('z channel_view_scheme, unit) io" where
  "info_effect e changed m =
     Get (\<lambda>w. if changed then Spawn (load_info e (serverId w) (channelId w)) m else m)"

definition channel_effects ::
  "env \<Rightarrow> (string \<Rightarrow> bool) \<Rightarrow> 'z channel_view_scheme \<Rightarrow> 'z channel_view_scheme" where
  "channel_effects e refuses w = open_connection e refuses (w\<lparr>extraMessages := []\<rparr>)"

fun channel_handler ::
  "env \<Rightarrow> (string \<Rightarrow> bool) \<Rightarrow> channel_event \<Rightarrow> ('z channel_view_scheme, unit) io" where
  "channel_handler e refuses Mount =
     Put (\<lambda>w. w\<lparr>life := Mounted\<rparr>) (info_effect e True (upd (channel_effects e refuses)))"
| "channel_handler e refuses (Navigate s ch) =
     Get (\<lambda>w.
       let moved = (ch \<noteq> channelId w); changed = (s \<noteq> serverId w \<or> moved) in
       Put (\<lambda>w. w\<lparr>serverId := s, channelId := ch\<rparr>)
         (Put (if moved then close_connection else (\<lambda>w. w))
            (info_effect e changed (upd (if moved then channel_effects e refuses else (\<lambda>w. w))))))"
| "channel_handler e refuses Unmount = upd (\<lambda>w. close_connection (w\<lparr>life := Gone\<rparr>))"
| "channel_handler e refuses (SendMessage text now) = handleSend e text now"
| "channel_handler e refuses (SocketOpened i) = upd (on_open i)"
| "channel_handler e refuses (Frame i d) = upd (\<lambda>w. on_message (closure (sockets w ! i)) d w)"
| "channel_handler e refuses (SocketError i) = upd (on_error i)"
| "channel_handler e refuses (SocketClosed i) = upd (on_close i)"
| "channel_handler e refuses (TimerFired i) =
     upd (\<lambda>w. connectWs e refuses (t_closure (timers w ! i))
       (w\<lparr>timers := update_at i timer_done (timers w)\<rparr>))"

text \<open>
  What the browser and React can fire. A message is sent by the input the page shows, which
  it does unless the channel is a voice channel; two messages are not sent within one
  millisecond of each other while the first is still a placeholder.
\<close>

fun channel_enabled :: "channel_event \<Rightarrow> 'z channel_view_scheme \<Rightarrow> bool" where
  "channel_enabled Mount w = (life w = Fresh)"
| "channel_enabled (Navigate s ch) w = (life w = Mounted)"
| "channel_enabled Unmount w = (life w = Mounted)"
| "channel_enabled (SendMessage text now) w =
     (life w = Mounted \<and> map_option ch_type (channel w) \<noteq> Some VOICE \<and>
      temp_id now \<notin> message_id ` set (extraMessages w))"
| "channel_enabled (SocketOpened i) w = in_state Connecting i (sockets w)"
| "channel_enabled (Frame i d) w = in_state Open i (sockets w)"
| "channel_enabled (SocketError i) w = (i < length (sockets w) \<and> ready (sockets w ! i) \<noteq> Closed)"
| "channel_enabled (SocketClosed i) w = (i < length (sockets w) \<and> ready (sockets w ! i) \<noteq> Closed)"
| "channel_enabled (TimerFired i) w = pending_at i (timers w)"

definition channel_init :: "browser \<Rightarrow> string \<Rightarrow> string \<Rightarrow> channel_view" where
  "channel_init b s ch =
     \<lparr>storage = storage b, hrefs = hrefs b, serverId = s, channelId = ch, channel = None,
      currentUser = None, extraMessages = [], sockets = [], timers = [], wsRef = None,
      reconnectTimer = None, reconnectAttempts = 0, alive = True, life = Fresh\<rparr>"

definition channelName :: "'z channel_view_scheme \<Rightarrow> string" where
  "channelName w =
     (case channel w of Some c \<Rightarrow> ch_name c | None \<Rightarrow> take 8 (channelId w))"

section \<open>The message list stays a list of distinct messages\<close>

lemma distinct_receive [intro]:
  "distinct (map message_id xs) \<Longrightarrow> distinct (map message_id (receive m xs))"
  by (auto simp: receive_def)

lemma distinct_retract [intro]:
  "distinct (map message_id xs) \<Longrightarrow> distinct (map message_id (retract t xs))"
  by (auto simp: retract_def)

lemma list_ex_id: "list_ex (\<lambda>m. key m = k) xs \<longleftrightarrow> k \<in> key ` set xs"
  by (auto simp: list_ex_iff)

lemma distinct_rename:
  assumes "distinct (map key xs)" "key r \<notin> key ` set xs"
  shows "distinct (map key (map (\<lambda>m. if key m = t then r else m) xs))"
proof -
  have "map key (map (\<lambda>m. if key m = t then r else m) xs) =
      map (\<lambda>i. if i = t then key r else i) (map key xs)" by simp
  moreover have "inj_on (\<lambda>i. if i = t then key r else i) (set (map key xs))"
    using assms(2) by (auto simp: inj_on_def image_iff)
  ultimately show ?thesis using assms(1) by (metis distinct_map)
qed

lemma distinct_confirm [intro]:
  assumes "distinct (map message_id xs)"
  shows "distinct (map message_id (confirm t r xs))"
proof (cases "list_ex (\<lambda>m. message_id m = message_id r) xs")
  case True
  with assms show ?thesis by (simp add: confirm_def distinct_retract)
next
  case False
  then have "message_id r \<notin> message_id ` set xs" by (auto simp: list_ex_iff)
  from distinct_rename [OF assms this] False show ?thesis by (simp only: confirm_def if_False)
qed

definition ids_distinct :: "'z channel_view_scheme \<Rightarrow> bool" where
  "ids_distinct w \<longleftrightarrow> distinct (map message_id (extraMessages w))"

named_theorems cv_defs \<open>the operations of the channel view\<close>

declare set_timer_def [cv_defs] connectWs_def [cv_defs] on_open_def [cv_defs] on_close_def [cv_defs]
  on_error_def [cv_defs] open_connection_def [cv_defs] close_connection_def [cv_defs]
  channel_effects_def [cv_defs] Let_def [cv_defs]

lemma extra_connection [simp]:
  "extraMessages (connectWs e refuses ch w) = extraMessages w"
  "extraMessages (on_open i w) = extraMessages w"
  "extraMessages (on_close i w) = extraMessages w"
  "extraMessages (on_error i w) = extraMessages w"
  "extraMessages (close_connection w) = extraMessages w"
  "extraMessages (channel_effects e refuses w) = []"
  by (simp_all add: cv_defs split: option.split)

text \<open>
  The contract under which the requests of the view keep an invariant: it survives what
  \<open>apiFetch\<close> does to the browser and what the answers put into the state.
\<close>

locale channel_client = api_client I for I :: "'z channel_view_scheme \<Rightarrow> bool" +
  assumes info_stable: "I w \<Longrightarrow> I (w\<lparr>channel := c\<rparr>)" "I w \<Longrightarrow> I (w\<lparr>currentUser := u\<rparr>)"
    and edit_stable: "I w \<Longrightarrow> I (w\<lparr>extraMessages := retract t (extraMessages w)\<rparr>)"
      "I w \<Longrightarrow> I (w\<lparr>extraMessages := confirm t r (extraMessages w)\<rparr>)"
begin

lemma wp_load_info [intro]: "I w \<Longrightarrow> wp I (load_info e s ch) w"
  unfolding load_info_def
  by (intro wp_try wp_bind wp_par wp_apiFetch)
     (auto simp: skip_def upd_def info_stable intro!: wp_bind wp_read_as)

lemma wp_handleSend:
  assumes "I w" "\<And>u. I (w\<lparr>extraMessages := extraMessages w @ [optimistic (channelId w) u text now]\<rparr>)"
  shows "wp I (handleSend e text now) w"
  using assms unfolding handleSend_def edit_extra_def
  by (auto simp: Let_def upd_def edit_stable split: option.split
      intro!: wp_try wp_api_bind wp_bind wp_read_as)

lemma wp_info_effect:
  "I w \<Longrightarrow> (\<And>w'. I w' \<Longrightarrow> wp I m w') \<Longrightarrow> wp I (info_effect e c m) w"
  unfolding info_effect_def by (cases c) (simp_all del: wps.simps(6) add: wp_load_info wp_spawn)

end

interpretation distinct_ids: channel_client ids_distinct
  by unfold_locales (auto simp: ids_distinct_def browser_ops)

lemma ids_distinct_handler:
  assumes "ids_distinct w" "channel_enabled ev w"
  shows "wp ids_distinct (channel_handler e refuses ev) w"
proof (cases ev)
  case (SendMessage c now)
  have "wp ids_distinct (handleSend e c now) w"
    by (rule distinct_ids.wp_handleSend)
       (use assms SendMessage in \<open>auto simp: ids_distinct_def optimistic_def\<close>)
  with SendMessage show ?thesis by simp
next
  case (Frame j d)
  with assms show ?thesis by (auto simp: ids_distinct_def on_message_def upd_def split: option.split)
qed (use assms in \<open>auto simp: ids_distinct_def upd_def Let_def intro!: distinct_ids.wp_info_effect\<close>)

interpretation channel_list: component channel_enabled "channel_handler e refuses" "channel_init b s ch" ids_distinct
  for e refuses b s ch
  by unfold_locales (simp_all add: ids_distinct_handler, simp add: ids_distinct_def channel_init_def)

section \<open>A concrete page\<close>

text \<open>The page the examples run: an https origin and a stored token.\<close>

definition demo_env :: env where
  "demo_env = \<lparr>api_url = None, window = Some (''https:'', ''h'')\<rparr>"

definition demo_browser :: browser where
  "demo_browser = \<lparr>storage = [''access_token'' \<mapsto> ''t''], hrefs = []\<rparr>"

definition demo_frame :: "string \<Rightarrow> string \<Rightarrow> json" where
  "demo_frame ch i = JObj [(''type'', JStr ''new_message''),
     (''payload'', JObj [(''message_id'', JStr i), (''channel_id'', JStr ch),
       (''author_id'', JStr ''u1''), (''content'', JStr ''hi''), (''created_at'', JStr ''t0'')])]"

definition info_thread ::
  "env \<Rightarrow> string \<Rightarrow> string \<Rightarrow> 'z channel_view_scheme \<Rightarrow> ('z channel_view_scheme, unit) io" where
  "info_thread e s ch w = snd (snd (seg (load_info e s ch) w))"

lemma seg_load_info: "seg (load_info e s ch) w = (w, [], info_thread e s ch w)"
  by (simp add: info_thread_def load_info_def apiFetch_def Let_def io_simps)

lemma demo_url:
  "storage w ''access_token'' = Some ''t'' \<Longrightarrow>
     getWebSocketUrl \<lparr>api_url = None, window = Some (''https:'', ''h'')\<rparr> ''/ws'' w =
       ''wss://h/api/ws?token=t''"
  by (simp add: getWebSocketUrl_def GATEWAY_def or_default_def absolute_url_def starts_with_def
      lower_def lower_char_def getItem_def Let_def)

lemmas run_channel = seg_load_info demo_url channel_init_def demo_env_def demo_browser_def demo_frame_def io_simps Let_def
  info_effect_def channel_effects_def
  open_connection_def close_connection_def connectWs_def getItem_def set_timer_def
  clear_timer_def close_ref_def update_at_def on_open_def on_close_def on_error_def on_message_def
  new_message_of_def as_message_def str_field_def receive_def add_new_def in_state_def
  pending_at_def close_ws_def send_ws_def new_socket_def new_timer_def timer_done_def

text \<open>C7. No message is ever shown twice among those that arrived since the page was loaded:
  whatever is sent, echoed, confirmed, refused or received, over any sequence of connections
  and channel changes and in any order of the answers, the messages kept have distinct
  identifiers.\<close>

theorem extra_messages_distinct:
  assumes "reachable channel_enabled (channel_handler e refuses) (channel_init b s ch) (w, ts)"
  shows "distinct (map message_id (extraMessages w))"
  using channel_list.invariant [OF assms] by (simp add: ids_distinct_def)

theorem extra_messages_distinct_witness:
  "\<exists>w ts. reachable channel_enabled (channel_handler demo_env (\<lambda>_. False))
      (channel_init demo_browser ''s'' ''a'') (w, ts) \<and>
    extraMessages w \<noteq> [] \<and> distinct (map message_id (extraMessages w))"
proof -
  have "\<exists>w ts. exec channel_enabled (channel_handler demo_env (\<lambda>_. False))
      [Event Mount, Event (SocketOpened 0), Event (Frame 0 (Some (demo_frame ''a'' ''m1''))),
       Event (Frame 0 (Some (demo_frame ''a'' ''m1'')))]
      (channel_init demo_browser ''s'' ''a'', []) = Some (w, ts) \<and> extraMessages w \<noteq> []"
    by (simp add: run_channel)
  from exec_reaches [OF this] show ?thesis using extra_messages_distinct by blast
qed


section \<open>A sent message and its echo\<close>

lemma retract_receive:
  "message_id m \<noteq> t \<Longrightarrow> retract t (receive m xs) = receive m (retract t xs)"
  by (auto simp: retract_def receive_def add_new_def drop_key_def)

definition receive_all :: "message list \<Rightarrow> message list \<Rightarrow> message list" where
  "receive_all ms xs = foldl (\<lambda>l m. receive m l) xs ms"

lemma receive_all_simps [simp]:
  "receive_all [] xs = xs" "receive_all (m # ms) xs = receive_all ms (receive m xs)"
  by (simp_all add: receive_all_def)

lemma retract_receive_all:
  "t \<notin> message_id ` set ms \<Longrightarrow> retract t (receive_all ms xs) = receive_all ms (retract t xs)"
  by (induction ms arbitrary: xs) (auto simp: retract_receive)

lemma ids_receive: "message_id ` set (receive m xs) = insert (message_id m) (message_id ` set xs)"
  unfolding receive_def add_new_def by (cases "\<exists>y\<in>set xs. message_id y = message_id m") (auto, metis image_eqI)

lemma ids_receive_all:
  "message_id ` set (receive_all ms xs) = message_id ` set ms \<union> message_id ` set xs"
  by (induction ms arbitrary: xs) (auto simp: ids_receive)

lemma distinct_receive_all:
  "distinct (map message_id xs) \<Longrightarrow> distinct (map message_id (receive_all ms xs))"
  by (induction ms arbitrary: xs) (auto simp: distinct_receive)

lemma receive_present: "message_id m \<in> message_id ` set xs \<Longrightarrow> receive m xs = xs"
  by (auto simp: receive_def add_new_def)

lemma ids_retract: "message_id ` set (retract t xs) = message_id ` set xs - {t}"
  by (auto simp: retract_def)

text \<open>The placeholder is replaced by the message, at its place or where the echo put it.\<close>

lemma ids_confirm:
  assumes "t \<in> message_id ` set xs" "message_id r \<noteq> t"
  shows "message_id ` set (confirm t r xs) = insert (message_id r) (message_id ` set xs - {t})"
proof (cases "message_id r \<in> message_id ` set xs")
  case True
  then have "confirm t r xs = retract t xs" by (simp add: confirm_def list_ex_id)
  with True assms show ?thesis by (auto simp: ids_retract)
next
  case False
  then have "\<not> list_ex (\<lambda>m. message_id m = message_id r) xs"
    by (simp add: list_ex_id)
  then have "confirm t r xs = map (\<lambda>m. if message_id m = t then r else m) xs"
    by (simp add: confirm_def)
  with assms(1) show ?thesis by (auto simp: image_iff)
qed

text \<open>The frames of one connection, and the messages they bring.\<close>

definition arrivals :: "string \<Rightarrow> json option list \<Rightarrow> message list" where
  "arrivals ch ds = List.map_filter (new_message_of ch) ds"

definition frames_on :: "nat \<Rightarrow> json option list \<Rightarrow> channel_event turn list" where
  "frames_on i ds = map (\<lambda>d. Event (Frame i d)) ds"

lemma exec_frames:
  fixes w :: "'z channel_view_scheme"
  assumes "in_state Open i (sockets w)"
  shows "exec channel_enabled (channel_handler e refuses) (frames_on i ds) (w, ts) =
    Some (w\<lparr>extraMessages := receive_all (arrivals (closure (sockets w ! i)) ds) (extraMessages w)\<rparr>,
          ts @ replicate (length ds) (Ret ()))"
  using assms
proof (induction ds arbitrary: w ts)
  case Nil
  then show ?case by (simp add: frames_on_def arrivals_def map_filter_simps)
next
  case (Cons d ds)
  let ?w = "on_message (closure (sockets w ! i)) d w"
  have "in_state Open i (sockets ?w)" "sockets ?w = sockets w"
    using Cons.prems by (simp_all add: on_message_def split: option.split)
  with Cons.IH [of ?w "ts @ [Ret ()]"] Cons.prems show ?case
    by (simp add: frames_on_def arrivals_def map_filter_simps on_message_def upd_def
        replicate_append_same [symmetric] split: option.split)
qed

text \<open>The program a sent message leaves suspended, by what resumes it.\<close>

definition send_waits ::
  "user \<Rightarrow> nat \<Rightarrow> (nat \<Rightarrow> reply \<Rightarrow> ('z channel_view_scheme, unit) io) \<Rightarrow> bool" where
  "send_waits u now k \<longleftrightarrow>
    (\<forall>r j real w1. ok r \<and> body r = Some j \<and> as_message j = Some real \<longrightarrow>
       (\<exists>k'. seg (k 0 (HttpResp r)) w1 = (w1, [], Await [Microtask] k') \<and>
         (\<forall>x w2. seg (k' 0 x) w2 =
           (w2\<lparr>extraMessages := confirm (temp_id now) (real\<lparr>username := Some (u_name u)\<rparr>)
              (extraMessages w2)\<rparr>, [], Ret ())))) \<and>
    (\<forall>x w1. x = Rejected \<or> (\<exists>r. x = HttpResp r \<and> \<not> ok r \<and> status r \<noteq> 401) \<longrightarrow>
       seg (k 0 x) w1 =
         (w1\<lparr>extraMessages := retract (temp_id now) (extraMessages w1)\<rparr>, [], Ret ()))"

lemma send_starts:
  fixes w :: "'z channel_view_scheme"
  assumes "currentUser w = Some u"
  shows "\<exists>k. seg (handleSend e msg now) w =
      (w\<lparr>extraMessages := extraMessages w @ [optimistic (channelId w) u msg now]\<rparr>, [],
       Await [HttpFetch (api_request e (messages_path (channelId w)) (message_init msg)
         (first_headers e (message_init msg) w))] k) \<and> send_waits u now k"
  using assms unfolding send_waits_def
  by (auto simp: handleSend_def edit_extra_def apiFetch_def io_simps Let_def first_headers_def
      getItem_def ok_def split: option.split)

lemma send_accepted:
  assumes "send_waits u now k" "ok r" "body r = Some j" "as_message j = Some real"
  obtains k' where "seg (k 0 (HttpResp r)) w1 = (w1, [], Await [Microtask] k')"
    "\<forall>x w2. seg (k' 0 x) w2 =
      (w2\<lparr>extraMessages := confirm (temp_id now) (real\<lparr>username := Some (u_name u)\<rparr>)
         (extraMessages w2)\<rparr>, [], Ret ())"
  using assms unfolding send_waits_def by metis

lemma send_failed:
  assumes "send_waits u now k" "x = Rejected \<or> (\<exists>r. x = HttpResp r \<and> \<not> ok r \<and> status r \<noteq> 401)"
  shows "seg (k 0 x) w1 =
    (w1\<lparr>extraMessages := retract (temp_id now) (extraMessages w1)\<rparr>, [], Ret ())"
  using assms unfolding send_waits_def by blast

lemma ids_optimistic [simp]: "message_id (optimistic ch u msg now) = temp_id now"
  by (simp add: optimistic_def)

text \<open>The course of a sent message, with everything that comes of it.\<close>

lemma sent_course:
  fixes w :: channel_view
  assumes "channel_enabled (SendMessage msg now) w" "currentUser w = Some u"
    and "in_state Open i (sockets w)" "closure (sockets w ! i) = channelId w"
    and "distinct (map message_id (extraMessages w))"
    and "ok r" "body r = Some j" "as_message j = Some real" "message_id real \<noteq> temp_id now"
    and "temp_id now \<notin> message_id ` set (arrivals (channelId w) (before @ after))"
  shows "\<exists>ex ts'. exec channel_enabled (channel_handler e refuses)
      (Event (SendMessage msg now) # frames_on i before @
       [Answer (length ts) 0 (HttpResp r), Answer (length ts) 0 x] @ frames_on i after) (w, ts) =
      Some (w\<lparr>extraMessages := ex\<rparr>, ts') \<and>
    distinct (map message_id ex) \<and>
    message_id ` set ex = message_id ` set (extraMessages w) \<union> {message_id real} \<union>
      message_id ` set (arrivals (channelId w) (before @ after)) \<and>
    temp_id now \<notin> message_id ` set ex"
proof -
  let ?opt = "optimistic (channelId w) u msg now" and ?ch = "channelId w" and ?t = "temp_id now"
  let ?real = "real\<lparr>username := Some (u_name u)\<rparr>"
  let ?e1 = "extraMessages w @ [?opt]"
  let ?e2 = "receive_all (arrivals ?ch before) ?e1"
  let ?e3 = "confirm ?t ?real ?e2"
  let ?e4 = "receive_all (arrivals ?ch after) ?e3"
  let ?thr = "replicate (length before) (Ret ())"
  from send_starts [OF assms(2), of e msg now] obtain k where
    k: "seg (handleSend e msg now) w = (w\<lparr>extraMessages := ?e1\<rparr>, [],
       Await [HttpFetch (api_request e (messages_path ?ch) (message_init msg)
         (first_headers e (message_init msg) w))] k)"
    and waits: "send_waits u now k"
    by blast
  from send_accepted [OF waits assms(6,7,8)] obtain k' where
    k': "seg (k 0 (HttpResp r)) (w\<lparr>extraMessages := ?e2\<rparr>) =
        (w\<lparr>extraMessages := ?e2\<rparr>, [], Await [Microtask] k')"
      "\<forall>x w2. seg (k' 0 x) w2 = (w2\<lparr>extraMessages := confirm ?t ?real (extraMessages w2)\<rparr>, [], Ret ())" .
  have fresh: "?t \<notin> message_id ` set (extraMessages w)" using assms(1) by simp
  have run: "\<exists>ts'. exec channel_enabled (channel_handler e refuses)
      (Event (SendMessage msg now) # frames_on i before @
       [Answer (length ts) 0 (HttpResp r), Answer (length ts) 0 x] @ frames_on i after) (w, ts) =
      Some (w\<lparr>extraMessages := ?e4\<rparr>, ts')"
    using assms(1,3,4)
    by (simp add: k k' exec_append exec_frames nth_append)
  have "distinct (map message_id ?e1)" using fresh assms(5) by simp
  then have d: "distinct (map message_id ?e4)"
    by (intro distinct_receive_all distinct_confirm)
  have ids: "message_id ` set ?e4 = message_id ` set (extraMessages w) \<union> {message_id real} \<union>
      message_id ` set (arrivals ?ch (before @ after))"
    using assms(9,10) fresh
    by (simp add: ids_receive_all ids_confirm arrivals_def map_filter_def image_Un) blast
  have gone: "?t \<notin> message_id ` set ?e4" unfolding ids using fresh assms(9,10) by auto
  from run d ids gone show ?thesis by blast
qed

text \<open>The server's answer to a sent message and its echo over the connection may come in
  either order, among any other frames: after both, the list holds the message exactly once,
  the placeholder is gone, and nothing else is lost or added.\<close>

theorem sent_message_reconciled:
  fixes w :: channel_view
  assumes "channel_enabled (SendMessage msg now) w" "currentUser w = Some u"
    and "in_state Open i (sockets w)" "closure (sockets w ! i) = channelId w"
    and "distinct (map message_id (extraMessages w))"
    and "ok r" "body r = Some j" "as_message j = Some real" "message_id real \<noteq> temp_id now"
    and "temp_id now \<notin> message_id ` set (arrivals (channelId w) (before @ after))"
  shows "\<exists>w' ts'. exec channel_enabled (channel_handler e refuses)
      (Event (SendMessage msg now) # frames_on i before @
       [Answer (length ts) 0 (HttpResp r), Answer (length ts) 0 x] @ frames_on i after) (w, ts) =
      Some (w', ts') \<and>
    distinct (map message_id (extraMessages w')) \<and>
    message_id ` set (extraMessages w') = message_id ` set (extraMessages w) \<union> {message_id real} \<union>
      message_id ` set (arrivals (channelId w) (before @ after)) \<and>
    temp_id now \<notin> message_id ` set (extraMessages w')"
  using sent_course [OF assms, of e refuses ts x] by (force simp del: exec.simps channel_handler.simps)

definition demo_page :: channel_view where
  "demo_page = (channel_init demo_browser ''s'' ''a'')\<lparr>life := Mounted,
     currentUser := Some \<lparr>u_id = ''u1'', u_name = ''ann''\<rparr>,
     sockets := [\<lparr>closure = ''a'', address = ''wss://h'', ready = Open, sent = []\<rparr>],
     wsRef := Some 0\<rparr>"

definition demo_body :: "string \<Rightarrow> string \<Rightarrow> json" where
  "demo_body ch i = JObj [(''message_id'', JStr i), (''channel_id'', JStr ch),
     (''author_id'', JStr ''u1''), (''content'', JStr ''hi''), (''created_at'', JStr ''t0'')]"

lemma demo_arrivals:
  "arrivals ''a'' [Some (demo_frame ''a'' i)] =
     [\<lparr>message_id = i, channel_id = ''a'', author_id = ''u1'', content = ''hi'',
       created_at = ''t0'', username = None\<rparr>]"
  by (simp add: arrivals_def map_filter_simps new_message_of_def demo_frame_def as_message_def
      str_field_def)

theorem sent_message_reconciled_witness:
  "\<exists>w' ts'. exec channel_enabled (channel_handler demo_env (\<lambda>_. False))
      (Event (SendMessage ''hi'' 7) # frames_on 0 [Some (demo_frame ''a'' ''m1'')] @
       [Answer 0 0 (HttpResp \<lparr>status = 201, body = Some (demo_body ''a'' ''m1'')\<rparr>),
        Answer 0 0 Rejected] @ frames_on 0 []) (demo_page, []) = Some (w', ts') \<and>
    distinct (map message_id (extraMessages w')) \<and> message_id ` set (extraMessages w') = {''m1''}"
proof -
  have 1: "arrivals (channelId demo_page) ([Some (demo_frame ''a'' ''m1'')] @ []) =
      [\<lparr>message_id = ''m1'', channel_id = ''a'', author_id = ''u1'', content = ''hi'',
        created_at = ''t0'', username = None\<rparr>]"
    using demo_arrivals by (simp add: demo_page_def channel_init_def)
  have 2: "extraMessages demo_page = []" by (simp add: demo_page_def channel_init_def)
  have "\<exists>w' ts'. exec channel_enabled (channel_handler demo_env (\<lambda>_. False))
      (Event (SendMessage ''hi'' 7) # frames_on 0 [Some (demo_frame ''a'' ''m1'')] @
       [Answer 0 0 (HttpResp \<lparr>status = 201, body = Some (demo_body ''a'' ''m1'')\<rparr>),
        Answer 0 0 Rejected] @ frames_on 0 []) (demo_page, []) = Some (w', ts') \<and>
    distinct (map message_id (extraMessages w')) \<and>
    message_id ` set (extraMessages w') = message_id ` set (extraMessages demo_page) \<union> {''m1''} \<union>
      message_id ` set (arrivals (channelId demo_page) ([Some (demo_frame ''a'' ''m1'')] @ [])) \<and>
    temp_id 7 \<notin> message_id ` set (extraMessages w')"
    by (rule sent_message_reconciled [where ts = "[]", unfolded list.size,
          where j = "demo_body ''a'' ''m1''" and real = "\<lparr>message_id = ''m1'', channel_id = ''a'',
          author_id = ''u1'', content = ''hi'', created_at = ''t0'', username = None\<rparr>",
          unfolded message.simps])
       (simp_all only: 1 2,
        simp_all add: demo_page_def channel_init_def in_state_def ok_def demo_body_def
          as_message_def str_field_def temp_id_def)
  then show ?thesis
    unfolding 1 2 by (elim exE conjE) (intro exI conjI, assumption, assumption, simp)
qed



section \<open>One connection at a time\<close>

definition connection :: "'z channel_view_scheme \<Rightarrow>
    string \<times> string socket list \<times> string timer list \<times> nat option \<times> nat option \<times> nat \<times> bool \<times> life" where
  "connection w = (channelId w, sockets w, timers w, wsRef w, reconnectTimer w,
     reconnectAttempts w, alive w, life w)"

lemma connection_browser [simp]:
  "connection (setItem k v w) = connection w" "connection (end_session w) = connection w"
  "connection (w\<lparr>channel := c\<rparr>) = connection w" "connection (w\<lparr>currentUser := u\<rparr>) = connection w"
  "connection (w\<lparr>extraMessages := ms\<rparr>) = connection w"
  by (simp_all add: connection_def browser_ops)

lemma frames_load_info: "frames connection (load_info e s ch)"
  unfolding load_info_def
  by (intro frames_try frames_bind frames_par frames_apiFetch)
     (auto intro!: frames_bind)

lemma frames_handleSend: "frames connection (handleSend e msg now)"
  unfolding handleSend_def edit_extra_def
  by (auto simp: Let_def split: option.split
      intro!: frames_try frames_bind frames_apiFetch)

lemma tail_frames_handler: "tail_frames connection (channel_handler e refuses ev)"
  by (cases ev)
     (auto simp: info_effect_def upd_def Let_def frames_load_info
       intro!: frames_tail [OF frames_handleSend] frames_tail [OF frames_load_info])

interpretation channel_threads: quiet_threads channel_enabled "channel_handler e refuses"
    "channel_init b s ch" connection for e refuses b s ch
  by unfold_locales (rule tail_frames_handler)

text \<open>The component as one route mounts it: its props do not change.\<close>

definition mounted_once :: "channel_event \<Rightarrow> 'z channel_view_scheme \<Rightarrow> bool" where
  "mounted_once ev w =
     (case ev of Navigate s ch \<Rightarrow> False | _ \<Rightarrow> channel_enabled ev w)"

definition one_conn :: "'z channel_view_scheme \<Rightarrow> bool" where
  "one_conn w \<longleftrightarrow>
     (\<forall>i<length (sockets w). ready (sockets w ! i) \<noteq> Closed \<longrightarrow> wsRef w = Some i) \<and>
     (\<forall>j<length (timers w). t_pending (timers w ! j) \<longrightarrow>
        reconnectTimer w = Some j \<and> closed_all (sockets w)) \<and>
     (\<not> alive w \<longrightarrow> idle_all (timers w) \<and> (\<forall>i<length (sockets w). \<not> live (sockets w ! i))) \<and>
     (life w = Fresh \<longrightarrow> sockets w = [] \<and> timers w = []) \<and>
     (life w = Gone \<longrightarrow> \<not> alive w)"

lemma one_conn_connection: "one_conn w \<Longrightarrow> connection w' = connection w \<Longrightarrow> one_conn w'"
  by (simp add: connection_def one_conn_def)

lemma one_conn_set_timer:
  assumes "one_conn w" "closed_all (sockets w)" "idle_all (timers w)" "alive w" "life w = Mounted"
  shows "one_conn (set_timer ch d w)"
  using assms by (auto simp: one_conn_def set_timer_def nth_append idle_all_def less_Suc_eq)

lemma one_conn_connect:
  assumes "one_conn w" "closed_all (sockets w)" "idle_all (timers w)" "life w = Mounted"
  shows "one_conn (connectWs e refuses ch w)"
proof (cases "alive w")
  case True
  let ?u = "getWebSocketUrl e ''/ws'' w"
  have "one_conn (w\<lparr>sockets := sockets w @ [new_socket ch ?u], wsRef := Some (length (sockets w))\<rparr>)"
    using assms True
    by (auto simp: one_conn_def nth_append closed_all_def idle_all_def less_Suc_eq)
  with assms True one_conn_set_timer [OF assms(1,2,3)] show ?thesis
    by (auto simp: connectWs_def Let_def split: option.split)
qed (use assms in \<open>simp add: connectWs_def\<close>)

lemma one_conn_sockets:
  assumes "one_conn w" "length (sockets w') = length (sockets w)"
    and "timers w' = timers w" "wsRef w' = wsRef w" "reconnectTimer w' = reconnectTimer w"
    and "alive w' = alive w" "life w' = life w"
    and "\<And>i. i < length (sockets w) \<Longrightarrow>
      ready (sockets w' ! i) = Closed \<longleftrightarrow> ready (sockets w ! i) = Closed"
    and "\<And>i. i < length (sockets w) \<Longrightarrow> live (sockets w' ! i) \<Longrightarrow> live (sockets w ! i)"
  shows "one_conn w'"
  using assms by (auto simp: one_conn_def closed_all_def)

lemma one_conn_open: "one_conn w \<Longrightarrow> in_state Connecting i (sockets w) \<Longrightarrow> one_conn (on_open i w)"
  by (erule one_conn_sockets) (auto simp: on_open_def in_state_def live_def split: if_splits)

lemma one_conn_error: "one_conn w \<Longrightarrow> one_conn (on_error i w)"
  by (erule one_conn_sockets) (auto simp: on_error_def split: if_splits)

lemma one_conn_close:
  assumes "one_conn w" "i < length (sockets w)" "ready (sockets w ! i) \<noteq> Closed"
    and "life w = Gone \<or> life w = Mounted"
  shows "one_conn (on_close i w)"
proof -
  let ?w = "w\<lparr>sockets := update_at i (\<lambda>s. s\<lparr>ready := Closed\<rparr>) (sockets w)\<rparr>"
  have "j = i" if "j < length (sockets w)" "ready (sockets w ! j) \<noteq> Closed" for j
    using assms that unfolding one_conn_def by (metis option.inject)
  then have c1: "closed_all (sockets ?w)" by (auto simp: closed_all_def)
  have c2: "idle_all (timers ?w)" using assms(1,2,3) by (auto simp: one_conn_def closed_all_def idle_all_def)
  note c = c1 c2
  with assms(1) have w: "one_conn (?w\<lparr>reconnectAttempts := n\<rparr>)" for n
    by (auto simp: one_conn_def closed_all_def live_def idle_all_def update_at_def)
  show ?thesis
  proof (cases "alive w")
    case False
    with w [of "reconnectAttempts w"] show ?thesis by (simp add: on_close_def Let_def)
  next
    case True
    then have "life w = Mounted" using assms(1,4) by (auto simp: one_conn_def)
    with True c show ?thesis
      by (simp add: on_close_def Let_def) (intro one_conn_set_timer w, simp_all)
  qed
qed

lemma one_conn_close_connection:
  assumes "one_conn w" "life w = Mounted"
  shows "one_conn (close_connection (w\<lparr>life := Gone\<rparr>))"
proof -
  have "idle_all (clear_timer (reconnectTimer w) (timers w))"
    by (rule idle_clear_timer) (use assms(1) in \<open>simp add: one_conn_def\<close>)
  moreover have ref: "wsRef w = Some i" if "i < length (sockets w)" "ready (sockets w ! i) \<noteq> Closed" for i
    using assms(1) that by (simp add: one_conn_def)
  moreover have "\<not> live (close_ref (wsRef w) (sockets w) ! i)" if "i < length (sockets w)" for i
    by (rule dead_close_ref [OF that]) (rule ref [OF that live_not_closed])
  ultimately show ?thesis by (simp add: one_conn_def close_connection_def idle_all_def)
qed

lemma one_conn_effects:
  assumes "one_conn w" "life w = Mounted" "sockets w = []" "timers w = []"
  shows "one_conn (channel_effects e refuses w)"
  unfolding channel_effects_def open_connection_def
  by (rule one_conn_connect) (use assms in \<open>auto simp: one_conn_def closed_all_def idle_all_def\<close>)

lemma one_conn_timer:
  assumes "one_conn w" "pending_at i (timers w)" "life w \<noteq> Fresh"
  shows "one_conn (connectWs e refuses ch (w\<lparr>timers := update_at i timer_done (timers w)\<rparr>))"
proof -
  let ?w = "w\<lparr>timers := update_at i timer_done (timers w)\<rparr>"
  have i: "i < length (timers w)" "t_pending (timers w ! i)" using assms(2) by (auto simp: pending_at_def)
  with assms(1) have c: "closed_all (sockets w)" and r: "reconnectTimer w = Some i"
    by (auto simp: one_conn_def)
  from i assms(1) have al: "alive w" by (auto simp: one_conn_def idle_all_def)
  with assms(1,3) have m: "life w = Mounted" by (cases "life w") (auto simp: one_conn_def)
  have "\<not> t_pending (timers ?w ! j)" if "j < length (timers w)" for j
    using assms(1) r that by (auto simp: one_conn_def)
  then have d: "idle_all (timers ?w)" by (simp add: idle_all_def)
  have "one_conn ?w"
    using assms(1,3) c d al m by (simp add: one_conn_def idle_all_def closed_all_def)
  with c d m show ?thesis by (intro one_conn_connect) simp_all
qed

lemma one_conn_handler:
  assumes "one_conn w" "mounted_once ev w"
  shows "wp one_conn (channel_handler e refuses ev) w"
proof (cases ev)
  case Mount
  let ?w = "w\<lparr>life := Mounted\<rparr>"
  let ?Q = "\<lambda>w'. one_conn w' \<and> life w' = Mounted \<and> sockets w' = [] \<and> timers w' = []"
  from assms Mount have Q: "?Q ?w" by (auto simp: mounted_once_def one_conn_def)
  have "wps one_conn ?Q (load_info e (serverId ?w) (channelId ?w)) ?w"
  proof (rule wps_frames [OF frames_load_info])
    fix w w' :: "'a channel_view_scheme" assume "connection w' = connection w" "?Q w"
    then show "?Q w'" using one_conn_connection [of w w'] by (simp add: connection_def)
  qed (use Q one_conn_connection in auto)
  then have "wps one_conn one_conn (Spawn (load_info e (serverId ?w) (channelId ?w))
      (upd (channel_effects e refuses))) ?w"
    by (auto simp: upd_def elim!: wps_mono intro: one_conn_effects)
  with Mount show ?thesis by (simp add: info_effect_def)
next
  case (SocketOpened i)
  with assms show ?thesis by (simp add: mounted_once_def upd_def one_conn_open)
next
  case (SocketClosed i)
  with assms have "life w = Gone \<or> life w = Mounted"
    by (cases "life w") (auto simp: mounted_once_def one_conn_def)
  with SocketClosed assms show ?thesis by (simp add: mounted_once_def upd_def one_conn_close)
next
  case (SocketError i)
  with assms show ?thesis by (simp add: upd_def one_conn_error)
next
  case (TimerFired i)
  with assms have "life w \<noteq> Fresh" by (auto simp: mounted_once_def pending_at_def one_conn_def)
  with TimerFired assms show ?thesis by (simp add: mounted_once_def upd_def one_conn_timer)
next
  case (SendMessage c now)
  have "wp one_conn (handleSend e c now) w"
    by (rule wp_frames [OF frames_handleSend]) (use assms(1) one_conn_connection in auto)
  with SendMessage show ?thesis by simp
next
  case (Frame i d)
  have "connection (on_message (closure (sockets w ! i)) d w) = connection w"
    by (simp add: on_message_def split: option.split)
  with assms(1) Frame show ?thesis by (simp add: upd_def one_conn_connection [of w])
next
  case Unmount
  with assms show ?thesis
    by (simp add: mounted_once_def upd_def one_conn_close_connection)
qed (use assms in \<open>simp add: mounted_once_def\<close>)

interpretation channel_route: component mounted_once "channel_handler e refuses"
    "channel_init b s ch" one_conn for e refuses b s ch
  by unfold_locales (simp_all add: one_conn_handler, simp add: one_conn_def channel_init_def closed_all_def)

text \<open>C9. Under one route the page never holds two connections: at most one of its sockets is
  not closed and at most one reconnection is scheduled, never both; once the page is gone, no
  socket is open or opening and none will be opened.\<close>

theorem one_connection_per_route:
  assumes "reachable mounted_once (channel_handler e refuses) (channel_init b s ch) (w, ts)"
  shows "card {i. i < length (sockets w) \<and> ready (sockets w ! i) \<noteq> Closed} +
      card {j. j < length (timers w) \<and> t_pending (timers w ! j)} \<le> 1 \<and>
    (life w = Gone \<longrightarrow> (\<forall>s\<in>set (sockets w). \<not> live s) \<and> (\<forall>t\<in>set (timers w). \<not> t_pending t))"
proof -
  let ?S = "{i. i < length (sockets w) \<and> ready (sockets w ! i) \<noteq> Closed}"
  let ?T = "{j. j < length (timers w) \<and> t_pending (timers w ! j)}"
  note inv = channel_route.invariant [OF assms, unfolded one_conn_def]
  have S: "?S \<subseteq> set_option (wsRef w)" and T: "?T \<subseteq> set_option (reconnectTimer w)" using inv by auto
  have one: "card A \<le> 1" if "A \<subseteq> set_option x" for A and x :: "nat option"
    using card_mono [OF _ that] by (cases x) auto
  have "?S = {} \<or> ?T = {}" using inv by (auto simp: closed_all_def)
  then have "card ?S = 0 \<or> card ?T = 0" by (elim disjE) (simp_all only: card.empty simp_thms)
  with one [OF S] one [OF T] have "card ?S + card ?T \<le> 1" by linarith
  moreover have "(\<forall>s\<in>set (sockets w). \<not> live s) \<and> (\<forall>t\<in>set (timers w). \<not> t_pending t)"
    if "life w = Gone"
    using inv that by (simp add: idle_all_def all_set_conv_all_nth)
  ultimately show ?thesis by blast
qed

theorem one_connection_per_route_witness:
  "\<exists>w ts. reachable mounted_once (channel_handler demo_env (\<lambda>_. False))
      (channel_init demo_browser ''s'' ''a'') (w, ts) \<and> life w = Gone \<and> length (sockets w) = 2 \<and>
    (\<forall>s\<in>set (sockets w). \<not> live s)"
proof -
  have "\<exists>w ts. exec mounted_once (channel_handler demo_env (\<lambda>_. False))
      [Event Mount, Event (SocketOpened 0), Event (SocketClosed 0), Event (TimerFired 0),
       Event (SocketOpened 1), Event Unmount]
      (channel_init demo_browser ''s'' ''a'', []) = Some (w, ts) \<and>
    life w = Gone \<and> length (sockets w) = 2"
    by (simp add: run_channel mounted_once_def)
  from exec_reaches [OF this] show ?thesis using one_connection_per_route by blast
qed

section \<open>Reconnecting\<close>

text \<open>
  Rounds of a connection that is lost before it opens: the \<open>k\<close>th socket closes, the timer
  this schedules fires and the next socket is created.
\<close>

definition lost_rounds :: "nat \<Rightarrow> nat \<Rightarrow> nat \<Rightarrow> channel_event turn list" where
  "lost_rounds i j n =
     concat (map (\<lambda>k. [Event (SocketClosed (i + k)), Event (TimerFired (j + k))]) [0..<n])"

lemma lost_rounds_Suc:
  "lost_rounds i j (Suc n) =
     Event (SocketClosed i) # Event (TimerFired j) # lost_rounds (Suc i) (Suc j) n"
proof -
  have "[0..<Suc n] = 0 # map Suc [0..<n]" by (metis map_Suc_upt upt_conv_Cons zero_less_Suc)
  then show ?thesis by (simp add: lost_rounds_def comp_def del: upt_Suc)
qed

definition can_connect :: "env \<Rightarrow> (string \<Rightarrow> bool) \<Rightarrow> 'z channel_view_scheme \<Rightarrow> bool" where
  "can_connect e refuses w \<longleftrightarrow>
     alive w \<and> window e \<noteq> None \<and> truthy (getItem w ''access_token'') \<noteq> None \<and>
     \<not> refuses (getWebSocketUrl e ''/ws'' w)"

definition same_page :: "'z channel_view_scheme \<Rightarrow> 'z channel_view_scheme \<Rightarrow> bool" where
  "same_page w w' \<longleftrightarrow> alive w' = alive w \<and> storage w' = storage w"

lemma can_connect_same: "same_page w w' \<Longrightarrow> can_connect e refuses w' = can_connect e refuses w"
  unfolding same_page_def can_connect_def getItem_def
  using getWebSocketUrl_storage [of w' w e "''/ws''"] by simp

lemma lost_round:
  fixes w :: "'z channel_view_scheme"
  assumes "can_connect e refuses w" "ss \<noteq> []" "sockets w = ss" "ready (last ss) \<noteq> Closed"
  shows "\<exists>w' :: 'z channel_view_scheme. exec channel_enabled (channel_handler e refuses)
      [Event (SocketClosed (length ss - 1)), Event (TimerFired (length (timers w)))] (w, ts) =
      Some (w', ts @ [Ret (), Ret ()]) \<and>
    same_page w w' \<and> length (sockets w') = Suc (length ss) \<and> ready (last (sockets w')) \<noteq> Closed \<and>
    map t_delay (timers w') = map t_delay (timers w) @ [backoff (reconnectAttempts w)] \<and>
    reconnectAttempts w' = Suc (reconnectAttempts w) \<and>
    length (timers w') = Suc (length (timers w))"
proof -
  let ?i = "length ss - 1" and ?a = "reconnectAttempts w" and ?u = "getWebSocketUrl e ''/ws'' w"
  let ?ch = "closure (ss ! ?i)" and ?ss = "update_at (length ss - 1) (\<lambda>s. s\<lparr>ready := Closed\<rparr>) ss"
  let ?tm = "timers w @ [new_timer ?ch (backoff ?a)]"
  let ?w1 = "w\<lparr>sockets := ?ss, reconnectAttempts := Suc ?a, timers := ?tm,
    reconnectTimer := Some (length (timers w))\<rparr>"
  let ?w2 = "?w1\<lparr>timers := update_at (length (timers w)) timer_done ?tm,
    sockets := ?ss @ [new_socket ?ch ?u], wsRef := Some (length ss)\<rparr>"
  have al: "alive w" using assms(1) by (simp add: can_connect_def)
  have close: "on_close ?i w = ?w1"
    using al assms(3) by (simp add: on_close_def set_timer_def Let_def)
  have url: "getWebSocketUrl e ''/ws'' (?w1\<lparr>timers := ts\<rparr>) = ?u" for ts
    by (rule getWebSocketUrl_storage) simp
  have connect: "connectWs e refuses ?ch (?w1\<lparr>timers := update_at (length (timers w)) timer_done ?tm\<rparr>) = ?w2"
    using assms(1) url by (auto simp: connectWs_def can_connect_def getItem_def Let_def assms(3))
  have last: "last ss = ss ! ?i" using assms(2) by (simp add: last_conv_nth)
  have tm: "map t_delay (update_at (length (timers w)) timer_done ?tm) = map t_delay ?tm"
    by (intro nth_equalityI) (auto simp: nth_append)
  have "exec channel_enabled (channel_handler e refuses)
      [Event (SocketClosed ?i), Event (TimerFired (length (timers w)))] (w, ts) =
      Some (?w2, ts @ [Ret (), Ret ()])"
    using assms(2,3,4) last close connect by (simp add: upd_def pending_at_def)
  then show ?thesis
    using tm assms(3) by (intro exI [of _ ?w2]) (simp add: same_page_def)
qed

lemma lost_rounds_exec:
  fixes w :: "'z channel_view_scheme"
  assumes "can_connect e refuses w" "sockets w \<noteq> []" "ready (last (sockets w)) \<noteq> Closed"
  shows "\<exists>w' ts'. exec channel_enabled (channel_handler e refuses)
      (lost_rounds (length (sockets w) - 1) (length (timers w)) n) (w, ts) = Some (w', ts') \<and>
    map t_delay (timers w') =
      map t_delay (timers w) @ map (\<lambda>k. backoff (reconnectAttempts w + k)) [0..<n] \<and>
    reconnectAttempts w' = reconnectAttempts w + n \<and>
    length (sockets w') = length (sockets w) + n \<and> ready (last (sockets w')) \<noteq> Closed"
  using assms
proof (induction n arbitrary: w ts)
  case 0
  then show ?case by (simp add: lost_rounds_def)
next
  case (Suc n)
  from lost_round [OF Suc.prems(1,2) refl Suc.prems(3), of ts] obtain w1 where
    1: "exec channel_enabled (channel_handler e refuses)
      [Event (SocketClosed (length (sockets w) - 1)), Event (TimerFired (length (timers w)))] (w, ts) =
      Some (w1, ts @ [Ret (), Ret ()])"
    and s: "same_page w w1" and l: "length (sockets w1) = Suc (length (sockets w))"
    and r: "ready (last (sockets w1)) \<noteq> Closed"
    and d: "map t_delay (timers w1) = map t_delay (timers w) @ [backoff (reconnectAttempts w)]"
    and a: "reconnectAttempts w1 = Suc (reconnectAttempts w)"
    and t: "length (timers w1) = Suc (length (timers w))" by blast
  have "can_connect e refuses w1" "sockets w1 \<noteq> []"
    using can_connect_same [OF s] Suc.prems(1) l by auto
  from Suc.IH [OF this r, of "ts @ [Ret (), Ret ()]"] obtain w' ts' where
    2: "exec channel_enabled (channel_handler e refuses)
      (lost_rounds (length (sockets w)) (Suc (length (timers w))) n) (w1, ts @ [Ret (), Ret ()]) =
      Some (w', ts')"
    and d': "map t_delay (timers w') =
      map t_delay (timers w1) @ map (\<lambda>k. backoff (reconnectAttempts w1 + k)) [0..<n]"
    and x: "reconnectAttempts w' = reconnectAttempts w1 + n"
      "length (sockets w') = length (sockets w1) + n" "ready (last (sockets w')) \<noteq> Closed"
    by (auto simp: l t)
  have i: "Suc (length (sockets w) - 1) = length (sockets w)" using Suc.prems(2) by simp
  have rounds: "lost_rounds (length (sockets w) - 1) (length (timers w)) (Suc n) =
      [Event (SocketClosed (length (sockets w) - 1)), Event (TimerFired (length (timers w)))] @
      lost_rounds (length (sockets w)) (Suc (length (timers w))) n"
    unfolding lost_rounds_Suc i by simp
  have "[0..<Suc n] = 0 # map Suc [0..<n]" by (metis map_Suc_upt upt_conv_Cons zero_less_Suc)
  then have "map t_delay (timers w') =
      map t_delay (timers w) @ map (\<lambda>k. backoff (reconnectAttempts w + k)) [0..<Suc n]"
    unfolding d' d a by (simp add: comp_def del: upt_Suc)
  moreover have "exec channel_enabled (channel_handler e refuses)
      (lost_rounds (length (sockets w) - 1) (length (timers w)) (Suc n)) (w, ts) = Some (w', ts')"
    unfolding rounds exec_append 1 using 2 by simp
  ultimately show ?case using x a l by auto
qed

text \<open>C10. A connection that keeps failing is retried after 1, 2, 4, 8 and 16 seconds and from
  then on every 30 seconds, as often as it fails; one that opens starts the sequence afresh.\<close>

theorem reconnects_with_backoff:
  fixes w :: channel_view
  assumes "can_connect e refuses w" "sockets w \<noteq> []" "ready (last (sockets w)) \<noteq> Closed"
    and "reconnectAttempts w = 0"
  shows "\<exists>w' ts'. exec channel_enabled (channel_handler e refuses)
      (lost_rounds (length (sockets w) - 1) (length (timers w)) n) (w, ts) = Some (w', ts') \<and>
    map t_delay (timers w') =
      map t_delay (timers w) @ map (\<lambda>k. if k < 5 then 1000 * 2 ^ k else 30000) [0..<n] \<and>
    length (sockets w') = length (sockets w) + n \<and>
    (\<forall>i. reconnectAttempts (on_open i w') = 0)"
proof -
  have "backoff k = (if k < 5 then 1000 * 2 ^ k else 30000)" for k
  proof (cases "k < 5")
    case True
    then have "k = 0 \<or> k = 1 \<or> k = 2 \<or> k = 3 \<or> k = 4" by arith
    then show ?thesis by (auto simp: backoff_def)
  qed (simp add: backoff_capped)
  with lost_rounds_exec [OF assms(1,2,3), of n ts] assms(4) show ?thesis
    by (fastforce simp: on_open_def)
qed

theorem reconnects_with_backoff_witness:
  "\<exists>w ts. reachable channel_enabled (channel_handler demo_env (\<lambda>_. False))
      (channel_init demo_browser ''s'' ''a'') (w, ts) \<and>
    map t_delay (timers w) = [1000, 2000, 4000, 8000, 16000, 30000, 30000]"
proof -
  have "\<exists>w ts. exec channel_enabled (channel_handler demo_env (\<lambda>_. False)) [Event Mount]
      (channel_init demo_browser ''s'' ''a'', []) = Some (w, ts) \<and>
    can_connect demo_env (\<lambda>_. False) w \<and> sockets w \<noteq> [] \<and> ready (last (sockets w)) \<noteq> Closed \<and>
    reconnectAttempts w = 0 \<and> timers w = []"
    by (simp add: run_channel can_connect_def)
  then obtain w ts where
    r: "reachable channel_enabled (channel_handler demo_env (\<lambda>_. False))
      (channel_init demo_browser ''s'' ''a'') (w, ts)"
    and w: "can_connect demo_env (\<lambda>_. False) w" "sockets w \<noteq> []" "ready (last (sockets w)) \<noteq> Closed"
      "reconnectAttempts w = 0" and t: "timers w = []"
    using exec_reachable_init by metis
  from reconnects_with_backoff [OF w, of 7 ts] obtain w' ts' where
    e: "exec channel_enabled (channel_handler demo_env (\<lambda>_. False))
      (lost_rounds (length (sockets w) - 1) (length (timers w)) 7) (w, ts) = Some (w', ts')"
    and d: "map t_delay (timers w') =
      map t_delay (timers w) @ map (\<lambda>k. if k < 5 then 1000 * 2 ^ k else 30000) [0..<7]" by blast
  from d t have "map t_delay (timers w') = [1000, 2000, 4000, 8000, 16000, 30000, 30000]"
    by (simp add: upt_rec)
  with exec_reachable [OF r e] show ?thesis by (intro exI conjI)
qed

text \<open>When the page is kept across a change of channel, the connection of the old channel
  comes back: the socket the clean-up closed reports its end after the new effect has set
  \<open>alive\<close> again, reconnects with the channel it was created for, and what that connection
  brings is shown as messages of the new channel.\<close>

theorem old_channel_reconnects:
  "\<exists>w ts. reachable channel_enabled (channel_handler demo_env (\<lambda>_. False))
      (channel_init demo_browser ''s'' ''a'') (w, ts) \<and>
    life w = Mounted \<and> channelId w = ''b'' \<and> map channel_id (extraMessages w) = [''a''] \<and>
    map ready (sockets w) = [Closed, Open, Open]"
proof -
  have "\<exists>w ts. exec channel_enabled (channel_handler demo_env (\<lambda>_. False))
      [Event Mount, Event (SocketOpened 0), Event (Navigate ''s'' ''b''), Event (SocketClosed 0),
       Event (SocketOpened 1), Event (TimerFired 0), Event (SocketOpened 2),
       Event (Frame 2 (Some (demo_frame ''a'' ''m1'')))]
      (channel_init demo_browser ''s'' ''a'', []) = Some (w, ts) \<and>
    life w = Mounted \<and> channelId w = ''b'' \<and> map channel_id (extraMessages w) = [''a''] \<and>
    map ready (sockets w) = [Closed, Open, Open]"
    by (simp add: run_channel)
  then show ?thesis by (rule exec_reaches)
qed

definition tried :: "'z channel_view_scheme \<Rightarrow> bool" where
  "tried w \<longleftrightarrow> sockets w = [] \<and> timers w = [] \<and> life w \<noteq> Fresh"

lemma tried_connection: "connection w' = connection w \<Longrightarrow> tried w \<Longrightarrow> tried w'"
  by (simp add: tried_def connection_def)

lemma frames_tried: "frames connection m \<Longrightarrow> tried w \<Longrightarrow> wp tried m w"
  by (rule wp_frames [OF _ tried_connection])

interpretation tried_once: handlers mounted_once "channel_handler e refuses" tried for e refuses
proof
  fix w ev assume "tried w" "mounted_once ev w"
  then show "wp tried (channel_handler e refuses ev) w"
    by (cases ev)
       (auto simp: mounted_once_def tried_def in_state_def pending_at_def upd_def
         close_connection_def clear_timer_def close_ref_def update_at_def on_message_def
         split: option.split intro!: frames_tried frames_handleSend)
qed

text \<open>C15. An address the browser refuses is never tried again: the exception of
  \<open>new WebSocket\<close> is swallowed and, as no socket exists, no \<open>close\<close> event schedules a retry.\<close>

theorem refused_address_never_retried:
  assumes "\<forall>u. refuses u" "window e \<noteq> None" "truthy (storage b ''access_token'') \<noteq> None"
    and "exec mounted_once (channel_handler e refuses) (Event Mount # turns)
      (channel_init b s ch, []) = Some (w, ts)"
  shows "sockets w = [] \<and> timers w = []"
proof -
  let ?w1 = "(channel_init b s ch)\<lparr>life := Mounted, alive := True\<rparr>"
    and ?t = "info_thread e s ch ((channel_init b s ch)\<lparr>life := Mounted\<rparr>)"
  have "frames connection ?t"
    using frames_seg [OF frames_load_info seg_load_info] by blast
  then have "settles tried ?t" by (rule frames_settles [OF _ tried_connection])
  moreover have "sched_step mounted_once (channel_handler e refuses) (Event Mount) (channel_init b s ch, []) =
      Some (?w1, [?t, Ret ()])"
    using assms(1,2,3)
    by (auto simp: mounted_once_def channel_init_def info_effect_def seg_load_info upd_def
        channel_effects_def open_connection_def connectWs_def getItem_def Let_def split: option.split)
  moreover have "tried ?w1" by (simp add: tried_def channel_init_def)
  ultimately show ?thesis
    using tried_once.exec_inv [of e refuses turns "(?w1, [?t, Ret ()])" "(w, ts)"] assms(4)
    by (simp add: tried_def)
qed

theorem refused_address_never_retried_witness:
  "\<exists>w ts. exec mounted_once (channel_handler demo_env (\<lambda>_. True)) [Event Mount]
      (channel_init demo_browser ''s'' ''a'', []) = Some (w, ts) \<and> sockets w = [] \<and> timers w = []"
proof -
  have "\<exists>w ts. exec mounted_once (channel_handler demo_env (\<lambda>_. True)) [Event Mount]
      (channel_init demo_browser ''s'' ''a'', []) = Some (w, ts)"
    by (simp add: run_channel mounted_once_def)
  then obtain w ts where e: "exec mounted_once (channel_handler demo_env (\<lambda>_. True)) [Event Mount]
      (channel_init demo_browser ''s'' ''a'', []) = Some (w, ts)" by blast
  from refused_address_never_retried [OF _ _ _ e] e show ?thesis
    by (simp add: demo_env_def demo_browser_def)
qed

end
