(* ===== verification/MessageInput.thy ===== *)
theory MessageInput
  imports ChannelView
begin

text \<open>
  \<open>app/components/MessageInput.tsx\<close>: the text box of a channel, with its send button and its
  file upload. The component calls the \<open>onSend\<close> of the page that shows it; the last section
  puts it into the page of a text channel, where \<open>onSend\<close> is \<open>ChannelView\<close>'s \<open>handleSend\<close>.
\<close>

section \<open>The component\<close>

text \<open>
  Its state extends the state of the page that shows it: the props \<open>channelId\<close> and
  \<open>channelName\<close> are read from the page.
\<close>

record message_input = channel_view +
  mi_text :: string
  mi_sending :: bool
  mi_uploading :: bool

text \<open>\<open>ChooseFile\<close>: the file picked in the dialog, \<open>None\<close> when the dialog was cancelled.\<close>

datatype input_event =
    ChangeText string
  | KeyDown string bool
  | ClickSend
  | ChooseFile "string option"

definition send_text ::
  "(string \<Rightarrow> ('z message_input_scheme, unit) io) \<Rightarrow> ('z message_input_scheme, unit) io" where
  "send_text onSend =
     Get (\<lambda>w. let content = trim (mi_text w) in
       if content = [] \<or> mi_sending w then Ret ()
       else Put (\<lambda>w. w\<lparr>mi_sending := True, mi_text := []\<rparr>)
              (finally_do (onSend content) (\<lambda>w. w\<lparr>mi_sending := False\<rparr>)))"

definition attachment_init :: "string \<Rightarrow> req_init" where
  "attachment_init file = \<lparr>i_method = POST, i_headers = [], i_body = FormBody file\<rparr>"

definition upload_file :: "env \<Rightarrow> string \<Rightarrow> ('z message_input_scheme, unit) io" where
  "upload_file e file =
     Get (\<lambda>w.
       Put (\<lambda>w. w\<lparr>mi_uploading := True\<rparr>)
         (finally_do
            (bind (apiFetch e (''/channels/'' @ channelId w @ ''/attachments'') (attachment_init file))
               (\<lambda>res.
                  if ok res then
                    bind (read_as (str_field ''url'') res) (\<lambda>url.
                      upd (\<lambda>w. w\<lparr>mi_text := if mi_text w = [] then url else mi_text w @ '' '' @ url\<rparr>))
                  else skip))
            (\<lambda>w. w\<lparr>mi_uploading := False\<rparr>)))"

fun input_handler ::
  "env \<Rightarrow> (string \<Rightarrow> ('z message_input_scheme, unit) io) \<Rightarrow> input_event
     \<Rightarrow> ('z message_input_scheme, unit) io" where
  "input_handler e onSend (ChangeText s) = upd (\<lambda>w. w\<lparr>mi_text := s\<rparr>)"
| "input_handler e onSend (KeyDown key shift) =
     (if key = ''Enter'' \<and> \<not> shift then send_text onSend else skip)"
| "input_handler e onSend ClickSend = send_text onSend"
| "input_handler e onSend (ChooseFile f) =
     (case f of None \<Rightarrow> skip | Some file \<Rightarrow> upload_file e file)"

definition input_view :: "'z message_input_scheme \<Rightarrow> input_event ui" where
  "input_view w = Box
     [Btn ''Attach file'' (mi_uploading w)
        (\<lambda>ev. case ev of ChooseFile _ \<Rightarrow> True | _ \<Rightarrow> False),
      Inp (''Message #'' @ channelName w) (mi_text w)
        (\<lambda>ev. case ev of ChangeText _ \<Rightarrow> True | KeyDown _ _ \<Rightarrow> True | _ \<Rightarrow> False),
      Btn ''Send message'' (trim (mi_text w) = [] \<or> mi_sending w) (\<lambda>ev. ev = ClickSend)]"

lemma input_offers [simp]:
  "offers (input_view w) (ChangeText s)"
  "offers (input_view w) (KeyDown k sh)"
  "offers (input_view w) ClickSend \<longleftrightarrow> trim (mi_text w) \<noteq> [] \<and> \<not> mi_sending w"
  "offers (input_view w) (ChooseFile f) \<longleftrightarrow> \<not> mi_uploading w"
  by (simp_all add: input_view_def)

section \<open>The contract of onSend\<close>

text \<open>
  What the input relies on: \<open>onSend\<close> neither sets other programs going nor touches the input's
  own state. Then at most one call of it is under way, and the flag says so.
\<close>

locale message_sink =
  fixes onSend :: "string \<Rightarrow> nat \<Rightarrow> ('z message_input_scheme, unit) io"
  assumes single_send: "single (onSend c now)"
    and send_frames: "frames mi_sending (onSend c now)"
begin

lemma send_flight:
  assumes "\<not> mi_sending w"
  shows "flight mi_sending (send_text (\<lambda>c. onSend c now)) w"
proof -
  have "wp mi_sending (onSend c now) w'" if "mi_sending w'" for c w'
    by (rule wp_frames [OF send_frames]) (use that in auto)
  then show ?thesis
    using assms by (auto simp: send_text_def Let_def intro!: flight_finally single_send)
qed

lemma send_waits_turn:
  "mi_sending w \<Longrightarrow> seg (send_text (\<lambda>c. onSend c now)) w = (w, [], Ret ())"
  by (simp add: send_text_def Let_def)

end

section \<open>The page of a text channel\<close>

text \<open>
  \<open>ChannelView\<close> with its \<open>MessageInput\<close>. Messages are sent through
  the input; \<open>Typing ev now\<close> is an event of the input at time \<open>now\<close>.
\<close>

datatype text_event = View channel_event | Typing input_event nat

fun text_handler ::
  "env \<Rightarrow> (string \<Rightarrow> bool) \<Rightarrow> text_event \<Rightarrow> ('z message_input_scheme, unit) io" where
  "text_handler e refuses (View ev) = channel_handler e refuses ev"
| "text_handler e refuses (Typing ev now) = input_handler e (\<lambda>c. handleSend e c now) ev"

fun text_enabled :: "text_event \<Rightarrow> 'z message_input_scheme \<Rightarrow> bool" where
  "text_enabled (View ev) w =
     (channel_enabled ev w \<and> (case ev of SendMessage c now \<Rightarrow> False | _ \<Rightarrow> True))"
| "text_enabled (Typing ev now) w =
     (life w = Mounted \<and> map_option ch_type (channel w) \<noteq> Some VOICE \<and> offers (input_view w) ev \<and>
      temp_id now \<notin> message_id ` set (extraMessages w))"

definition text_init :: "browser \<Rightarrow> string \<Rightarrow> string \<Rightarrow> message_input" where
  "text_init b s ch = channel_view.extend (channel_init b s ch)
     (message_input.fields [] False False)"

interpretation text_sink: message_sink "handleSend e" for e
proof
  fix c now
  show "single (handleSend e c now)"
    unfolding handleSend_def edit_extra_def
    by (auto simp: Let_def split: option.split intro!: single_try single_bind single_apiFetch)
  show "frames mi_sending (handleSend e c now :: ('z message_input_scheme, unit) io)"
    unfolding handleSend_def edit_extra_def
    by (auto simp: Let_def browser_ops split: option.split
        intro!: frames_try frames_bind frames_apiFetch)
qed

lemma input_frames_info:
  "frames mi_sending (load_info e s ch :: ('z message_input_scheme, unit) io)"
  unfolding load_info_def
  by (intro frames_try frames_bind frames_par frames_apiFetch)
     (auto simp: browser_ops intro!: frames_bind)

lemma input_untouched [simp]:
  fixes w :: "'z message_input_scheme"
  shows "mi_sending (connectWs e refuses ch w) = mi_sending w"
    "mi_sending (on_open i w) = mi_sending w" "mi_sending (on_close i w) = mi_sending w"
    "mi_sending (on_error i w) = mi_sending w" "mi_sending (close_connection w) = mi_sending w"
    "mi_sending (channel_effects e refuses w) = mi_sending w"
    "mi_sending (on_message ch d w) = mi_sending w"
  by (simp_all add: cv_defs on_message_def split: option.split)

lemma frames_view:
  "frames mi_sending (channel_handler e refuses ev :: ('z message_input_scheme, unit) io)"
  by (cases ev)
     (auto simp: info_effect_def Let_def input_frames_info text_sink.send_frames)

lemma frames_upload: "frames mi_sending (upload_file e f :: ('z message_input_scheme, unit) io)"
  unfolding upload_file_def
  by (auto simp: browser_ops intro!: frames_finally frames_bind frames_apiFetch)

lemma frames_upload_list: "frames extraMessages (upload_file e f :: ('z message_input_scheme, unit) io)"
  unfolding upload_file_def
  by (auto simp: browser_ops intro!: frames_finally frames_bind frames_apiFetch)

interpretation text_channel: guarded_flight text_enabled "text_handler e refuses" "text_init b s ch" mi_sending
  for e refuses b s ch
proof
  show "\<not> mi_sending (text_init b s ch)"
    by (simp add: text_init_def channel_init_def channel_view.defs message_input.defs)
next
  fix ev and w :: message_input
  assume "text_enabled ev w"
  show "frames mi_sending (text_handler e refuses ev :: (message_input, unit) io) \<or>
    (if mi_sending w
     then \<forall>w' ps t. seg (text_handler e refuses ev) w = (w', ps, t) \<longrightarrow>
       mi_sending w' \<and> \<not> suspended t \<and> ps = []
     else flight mi_sending (text_handler e refuses ev) w)"
  proof (cases ev)
    case (View v)
    then show ?thesis by (simp add: frames_view)
  next
    case (Typing v now)
    show ?thesis
    proof (cases v)
      case (ChooseFile f)
      with Typing show ?thesis by (cases f) (simp_all add: frames_upload skip_def)
    next
      case ClickSend
      with Typing show ?thesis by (auto simp: text_sink.send_waits_turn intro: text_sink.send_flight)
    next
      case (KeyDown k sh)
      with Typing show ?thesis by (auto simp: text_sink.send_waits_turn intro: text_sink.send_flight)
    qed (use Typing in simp)
  qed
qed

text \<open>The messages of the page stay distinct when they are sent through the input.\<close>

interpretation text_ids: component text_enabled "text_handler e refuses" "text_init b s ch" ids_distinct
  for e refuses b s ch
proof
  show "ids_distinct (text_init b s ch)"
    by (simp add: ids_distinct_def text_init_def channel_init_def channel_view.defs)
next
  fix ev and w :: message_input assume i: "ids_distinct w" and en: "text_enabled ev w"
  show "wp ids_distinct (text_handler e refuses ev) w"
  proof (cases ev)
    case (View v)
    with i en ids_distinct_handler [of w v] show ?thesis by simp
  next
    case (Typing v now)
    have f: "temp_id now \<notin> message_id ` set (extraMessages w)" using en Typing by simp
    have s: "wp ids_distinct (send_text (\<lambda>c. handleSend e c now)) w"
      using i f unfolding send_text_def
      by (auto simp: ids_distinct_def optimistic_def Let_def intro!: wp_finally distinct_ids.wp_handleSend)
    have u: "wp ids_distinct (upload_file e f) w" for f
      by (rule wp_frames [where f = extraMessages]) (use i in \<open>auto simp: ids_distinct_def frames_upload_list\<close>)
    show ?thesis
      using i s u Typing by (cases v) (auto simp: ids_distinct_def upd_def skip_def split: option.split)
  qed
qed



text \<open>Sending takes the text without the white space around it, empties the input, shows the
  message at once and posts it to the channel; a blank text is kept and not sent.\<close>

theorem enter_sends_trimmed_text:
  fixes w :: message_input
  assumes "currentUser w = Some u" "\<not> mi_sending w"
  shows "\<exists>w' t. seg (text_handler e refuses (Typing (KeyDown ''Enter'' False) now)) w = (w', [], t) \<and>
    (if blank (mi_text w) then w' = w \<and> pending_calls t = []
     else mi_text w' = [] \<and> mi_sending w' \<and>
       extraMessages w' = extraMessages w @ [optimistic (channelId w) u (trim (mi_text w)) now] \<and>
       pending_calls t = [HttpFetch (api_request e (messages_path (channelId w))
         (message_init (trim (mi_text w))) (first_headers e (message_init (trim (mi_text w))) w))])"
  using assms
  by (auto simp: blank_def send_text_def handleSend_def apiFetch_def io_simps Let_def
      first_headers_def getItem_def)

theorem enter_sends_trimmed_text_witness:
  "\<exists>w' t. seg (text_handler demo_env (\<lambda>_. False) (Typing (KeyDown ''Enter'' False) 7))
      ((text_init demo_browser ''s'' ''a'')
        \<lparr>currentUser := Some \<lparr>u_id = ''u1'', u_name = ''ann''\<rparr>, mi_text := '' hi ''\<rparr>) = (w', [], t) \<and>
    mi_text w' = [] \<and> length (pending_calls t) = 1"
proof -
  let ?w = "(text_init demo_browser ''s'' ''a'')
    \<lparr>currentUser := Some \<lparr>u_id = ''u1'', u_name = ''ann''\<rparr>, mi_text := '' hi ''\<rparr>"
  have "currentUser ?w = Some \<lparr>u_id = ''u1'', u_name = ''ann''\<rparr>" "\<not> mi_sending ?w"
    by (simp_all add: text_init_def channel_init_def channel_view.defs message_input.defs)
  from enter_sends_trimmed_text [OF this, of demo_env "\<lambda>_. False" 7] obtain w' t where
    *: "seg (text_handler demo_env (\<lambda>_. False) (Typing (KeyDown ''Enter'' False) 7)) ?w = (w', [], t)"
    and **: "if blank (mi_text ?w) then w' = ?w \<and> pending_calls t = []
      else mi_text w' = [] \<and> mi_sending w' \<and>
        extraMessages w' = extraMessages ?w @
          [optimistic (channelId ?w) \<lparr>u_id = ''u1'', u_name = ''ann''\<rparr> (trim (mi_text ?w)) 7] \<and>
        pending_calls t = [HttpFetch (api_request demo_env (messages_path (channelId ?w))
          (message_init (trim (mi_text ?w))) (first_headers demo_env (message_init (trim (mi_text ?w))) ?w))]"
    by blast
  have "\<not> blank (mi_text ?w)" by (simp add: blank_def trim_def is_ws_def)
  with ** have "mi_text w' = [] \<and> length (pending_calls t) = 1" by simp
  with * show ?thesis by blast
qed

text \<open>A message sent before the user is known is lost: the input is emptied, nothing is
  posted and nothing is shown.\<close>

theorem text_lost_without_user:
  fixes w :: message_input
  assumes "currentUser w = None" "\<not> blank (mi_text w)" "\<not> mi_sending w"
  shows "seg (text_handler e refuses (Typing ClickSend now)) w = (w\<lparr>mi_text := []\<rparr>, [], Ret ())"
  using assms by (simp add: blank_def send_text_def handleSend_def io_simps Let_def)

theorem text_lost_without_user_witness:
  "seg (text_handler demo_env (\<lambda>_. False) (Typing ClickSend 7))
      ((text_init demo_browser ''s'' ''a'')\<lparr>mi_text := ''hi''\<rparr>) =
    ((text_init demo_browser ''s'' ''a'')\<lparr>mi_text := []\<rparr>, [], Ret ())"
proof -
  let ?w = "(text_init demo_browser ''s'' ''a'')\<lparr>mi_text := ''hi''\<rparr>"
  have "currentUser ?w = None" "\<not> blank (mi_text ?w)" "\<not> mi_sending ?w"
    by (simp_all add: text_init_def channel_init_def channel_view.defs message_input.defs
        blank_def trim_def is_ws_def)
  from text_lost_without_user [OF this] show ?thesis by simp
qed

end
