(* ===== verification/MessageList.thy ===== *)
theory MessageList
  imports MessageInput
begin

text \<open>
  \<open>app/components/MessageList.tsx\<close>: the messages of a channel, loaded newest first in pages,
  extended at the top when the reader scrolls there, merged with the messages that arrived
  since, with deletion of one's own. The history of a channel as the chat service serves it
  (\<open>services/chat/src/handlers/messages.rs\<close>, \<open>list_messages\<close>) is modelled beside it: it is
  the contract the paging is correct against.
\<close>

section \<open>Queries and pages\<close>

text \<open>\<open>URLSearchParams\<close>: the form encoding of a value.\<close>

definition hex_digit :: "nat \<Rightarrow> char" where
  "hex_digit n = char_of (if n < 10 then n + 48 else n + 55)"

definition form_char :: "char \<Rightarrow> string" where
  "form_char c =
     (let n = (of_char c :: nat) in
      if (48 \<le> n \<and> n \<le> 57) \<or> (65 \<le> n \<and> n \<le> 90) \<or> (97 \<le> n \<and> n \<le> 122) \<or>
         c \<in> {CHR 0x2A, CHR 0x2D, CHR 0x2E, CHR 0x5F}
      then [c]
      else if n = 32 then ''+''
      else if n < 128 then [CHR 0x25, hex_digit (n div 16), hex_digit (n mod 16)]
      else (let a = 192 + n div 64; b = 128 + n mod 64 in
            [CHR 0x25, hex_digit (a div 16), hex_digit (a mod 16),
             CHR 0x25, hex_digit (b div 16), hex_digit (b mod 16)]))"

definition form_encode :: "string \<Rightarrow> string" where
  "form_encode s = concat (map form_char s)"

definition page_params :: "string option \<Rightarrow> string" where
  "page_params before =
     ''limit=50'' @ (case truthy before of None \<Rightarrow> [] | Some b \<Rightarrow> ''&before='' @ form_encode b)"

record page =
  p_messages :: "message list"
  p_has_more :: bool

definition as_page :: "json \<Rightarrow> page option" where
  "as_page j =
     (case (Option.bind (Option.bind (get_prop ''messages'' j) (\<lambda>x. x)) (as_list as_message),
            bool_field ''has_more'' j) of
        (Some ms, Some b) \<Rightarrow> Some \<lparr>p_messages = ms, p_has_more = b\<rparr>
      | _ \<Rightarrow> None)"

definition fetchMessages ::
  "env \<Rightarrow> string \<Rightarrow> string option \<Rightarrow> ('z browser_scheme, page) io" where
  "fetchMessages e ch before =
     bind (apiFetch e (''/channels/'' @ ch @ ''/messages?'' @ page_params before) no_init) (\<lambda>res.
       if \<not> ok res then Throw (ErrorMsg (show_int (status res)))
       else read_as as_page res)"

section \<open>Timestamps and names\<close>

text \<open>
  \<open>new Date(s).getTime()\<close> for the timestamps the services write, \<open>2024-06-01T12:34:56\<close> with
  an optional fraction and \<open>Z\<close> or \<open>+00:00\<close>; \<open>None\<close> is \<open>NaN\<close>.
\<close>

definition digit :: "char \<Rightarrow> int option" where
  "digit c = (let n = (of_char c :: nat) in if 48 \<le> n \<and> n \<le> 57 then Some (int n - 48) else None)"

fun number :: "int \<Rightarrow> string \<Rightarrow> int option" where
  "number acc [] = Some acc"
| "number acc (c # cs) = (case digit c of None \<Rightarrow> None | Some d \<Rightarrow> number (10 * acc + d) cs)"

definition days_of :: "int \<Rightarrow> int \<Rightarrow> int \<Rightarrow> int" where
  "days_of y m d =
     (let y' = (if m \<le> 2 then y - 1 else y); yoe = y' mod 400;
          doy = (153 * (if m > 2 then m - 3 else m + 9) + 2) div 5 + d - 1
      in y' div 400 * 146097 + yoe * 365 + yoe div 4 - yoe div 100 + doy - 719468)"

definition fraction_ms :: "string \<Rightarrow> int option" where
  "fraction_ms s =
     (let ds = takeWhile (\<lambda>c. digit c \<noteq> None) s; zone = dropWhile (\<lambda>c. digit c \<noteq> None) s in
      if zone = ''Z'' \<or> zone = ''+00:00''
      then number 0 (take 3 (ds @ ''000'')) else None)"

definition date_ms :: "string \<Rightarrow> int option" where
  "date_ms s =
     (case (number 0 (take 4 s), number 0 (take 2 (drop 5 s)), number 0 (take 2 (drop 8 s)),
            number 0 (take 2 (drop 11 s)), number 0 (take 2 (drop 14 s)), number 0 (take 2 (drop 17 s))) of
        (Some y, Some mo, Some d, Some h, Some mi, Some sec) \<Rightarrow>
          (case drop 19 s of
             [] \<Rightarrow> None
           | c # rest \<Rightarrow>
               map_option (\<lambda>ms. (((days_of y mo d * 24 + h) * 60 + mi) * 60 + sec) * 1000 + ms)
                 (if c = CHR 0x2E then fraction_ms rest else fraction_ms (c # rest)))
      | _ \<Rightarrow> None)"

definition avatarLabel :: "message \<Rightarrow> string" where
  "avatarLabel m = initial (nullish (username m) (author_id m))"

definition displayName :: "message \<Rightarrow> string" where
  "displayName m = nullish (username m) (take 8 (author_id m))"

text \<open>A message under the one before it, by the same author within five minutes.\<close>

definition grouped :: "message option \<Rightarrow> message \<Rightarrow> bool" where
  "grouped prev m =
     (case prev of
        None \<Rightarrow> False
      | Some p \<Rightarrow> author_id p = author_id m \<and>
          (case (date_ms (created_at m), date_ms (created_at p)) of
             (Some a, Some b) \<Rightarrow> a - b < 5 * 60 * 1000
           | _ \<Rightarrow> False))"

section \<open>The component\<close>

text \<open>
  Its props, its state, and \<open>load_run\<close>, which names the run of the loading effect that is not
  cancelled: each run has a flag of its own, set when the next run or the end of the component
  replaces it. \<open>toasts\<close> counts the timers that will clear the notice.
\<close>

record message_list = browser +
  ml_channelId :: string
  currentUserId :: "string option"
  ml_extra :: "message list"
  messages :: "message list"
  hasMore :: bool
  loading :: bool
  loadingMore :: bool
  deletingIds :: "string list"
  tippingUser :: "(string \<times> string) option"
  tipToast :: "string option"
  load_run :: nat
  toasts :: nat
  ml_life :: life

datatype list_event =
    ListMount
  | ListProps string "string option" "message list"
  | ListUnmount
  | TopVisible
  | ClickDelete message
  | ClickTip message
  | CloseTip
  | TipSent string
  | ToastTimeout

definition cancelled :: "nat \<Rightarrow> 'z message_list_scheme \<Rightarrow> bool" where
  "cancelled n w \<longleftrightarrow> load_run w \<noteq> n"

definition initial_load :: "env \<Rightarrow> string \<Rightarrow> nat \<Rightarrow> ('z message_list_scheme, unit) io" where
  "initial_load e ch n =
     finally_do
       (try_catch
          (bind (fetchMessages e ch None) (\<lambda>data.
             upd (\<lambda>w. if cancelled n w then w
               else w\<lparr>messages := rev (p_messages data), hasMore := p_has_more data\<rparr>)))
          (\<lambda>_. skip))
       (\<lambda>w. if cancelled n w then w else w\<lparr>loading := False\<rparr>)"

definition start_load :: "'z message_list_scheme \<Rightarrow> 'z message_list_scheme" where
  "start_load w = w\<lparr>load_run := load_run w + 1, loading := True, messages := [], hasMore := False\<rparr>"

definition load_effect :: "env \<Rightarrow> ('z message_list_scheme, unit) io" where
  "load_effect e = Put start_load (Get (\<lambda>w. initial_load e (ml_channelId w) (load_run w)))"

text \<open>\<open>allMessages\<close>: what was fetched, then what arrived since and was not fetched.\<close>

definition merge :: "message list \<Rightarrow> message list \<Rightarrow> message list" where
  "merge fetched extra =
     fetched @ filter (\<lambda>m. message_id m \<notin> set (map message_id fetched)) extra"

definition allMessages :: "'z message_list_scheme \<Rightarrow> message list" where
  "allMessages w = merge (messages w) (ml_extra w)"

text \<open>
  The observer's callback, when the top of the list is in view. What it measures before it
  asks for the page and does when the page is in are parameters, for the scroll position
  (\<open>Scrolling\<close>).
\<close>

definition load_more_then ::
  "('z message_list_scheme \<Rightarrow> 'h) \<Rightarrow> ('h \<Rightarrow> 'z message_list_scheme \<Rightarrow> 'z message_list_scheme) \<Rightarrow>
     env \<Rightarrow> ('z message_list_scheme, unit) io" where
  "load_more_then measured loaded e =
     Get (\<lambda>w.
       if \<not> hasMore w \<or> loadingMore w \<or> loading w then Ret ()
       else case messages w of
         [] \<Rightarrow> Ret ()
       | m # _ \<Rightarrow>
           if message_id m = [] then Ret ()
           else Put (\<lambda>w. w\<lparr>loadingMore := True\<rparr>)
             (finally_do
                (try_catch
                   (bind (fetchMessages e (ml_channelId w) (Some (message_id m))) (\<lambda>data.
                      upd (\<lambda>v. loaded (measured w) (v\<lparr>messages := rev (p_messages data) @ messages v,
                               hasMore := p_has_more data\<rparr>))))
                   (\<lambda>_. skip))
                (\<lambda>w. w\<lparr>loadingMore := False\<rparr>)))"

definition load_more :: "env \<Rightarrow> ('z message_list_scheme, unit) io" where
  "load_more e = load_more_then (\<lambda>_. ()) (\<lambda>_ w. w) e"

lemmas load_more_unfold = load_more_def load_more_then_def

definition delete_init :: req_init where
  "delete_init = \<lparr>i_method = DELETE, i_headers = [], i_body = NoBody\<rparr>"

definition handleDelete :: "env \<Rightarrow> message \<Rightarrow> ('z message_list_scheme, unit) io" where
  "handleDelete e m =
     Get (\<lambda>w.
       Put (\<lambda>w. w\<lparr>deletingIds := List.insert (message_id m) (deletingIds w)\<rparr>)
         (finally_do
            (bind (apiFetch e (''/channels/'' @ ml_channelId w @ ''/messages/'' @ message_id m)
                     delete_init) (\<lambda>res.
               if ok res \<or> status res = 204
               then upd (\<lambda>w. w\<lparr>messages := drop_key message_id (message_id m) (messages w)\<rparr>)
               else skip))
            (\<lambda>w. w\<lparr>deletingIds := removeAll (message_id m) (deletingIds w)\<rparr>)))"

fun list_handler :: "env \<Rightarrow> list_event \<Rightarrow> ('z message_list_scheme, unit) io" where
  "list_handler e ListMount = Put (\<lambda>w. w\<lparr>ml_life := Mounted\<rparr>) (load_effect e)"
| "list_handler e (ListProps ch u extra) =
     Get (\<lambda>w.
       let moved = (ch \<noteq> ml_channelId w) in
       Put (\<lambda>w. w\<lparr>ml_channelId := ch, currentUserId := u, ml_extra := extra\<rparr>)
         (if moved then load_effect e else Ret ()))"
| "list_handler e ListUnmount = upd (\<lambda>w. w\<lparr>ml_life := Gone, load_run := load_run w + 1\<rparr>)"
| "list_handler e TopVisible = load_more e"
| "list_handler e (ClickDelete m) = handleDelete e m"
| "list_handler e (ClickTip m) =
     upd (\<lambda>w. w\<lparr>tippingUser := Some (author_id m, displayName m)\<rparr>)"
| "list_handler e CloseTip = upd (\<lambda>w. w\<lparr>tippingUser := None\<rparr>)"
| "list_handler e (TipSent msg) =
     upd (\<lambda>w. w\<lparr>tippingUser := None, tipToast := Some msg, toasts := toasts w + 1\<rparr>)"
| "list_handler e ToastTimeout = upd (\<lambda>w. w\<lparr>tipToast := None, toasts := toasts w - 1\<rparr>)"

text \<open>What is rendered: \<open>fmt\<close> is \<open>formatTime\<close>, which depends on the locale and the day.\<close>

definition message_row ::
  "(string \<Rightarrow> string) \<Rightarrow> 'z message_list_scheme \<Rightarrow> message option \<Rightarrow> message \<Rightarrow> list_event ui" where
  "message_row fmt w prev m =
     (let isOwn = (currentUserId w = Some (author_id m)); isDeleting = (message_id m \<in> set (deletingIds w)) in
      Box
        [when_ui (\<not> grouped prev m)
           (Box [Txt (avatarLabel m), Txt (displayName m), Txt (fmt (created_at m))]),
         Txt (content m),
         when_ui (\<not> isOwn) (Btn ''Send tip'' False (\<lambda>ev. ev = ClickTip m)),
         when_ui isOwn (Btn ''Delete message'' isDeleting (\<lambda>ev. ev = ClickDelete m))])"

fun message_rows ::
  "(string \<Rightarrow> string) \<Rightarrow> 'z message_list_scheme \<Rightarrow> message option \<Rightarrow> message list \<Rightarrow> list_event ui list" where
  "message_rows fmt w prev [] = []"
| "message_rows fmt w prev (m # ms) = message_row fmt w prev m # message_rows fmt w (Some m) ms"

definition list_view :: "(string \<Rightarrow> string) \<Rightarrow> 'z message_list_scheme \<Rightarrow> list_event ui" where
  "list_view fmt w =
     (if loading w then Box []
      else Box
        [if allMessages w = []
         then Box [Txt ''#'', Txt ''This is the beginning of the channel'',
                   Txt ''No messages yet - send the first one!'']
         else Box (message_rows fmt w None (allMessages w)),
         (case tippingUser w of None \<Rightarrow> Box []
          | Some _ \<Rightarrow> Btn ''Cancel'' False
              (\<lambda>ev. ev = CloseTip \<or> (case ev of TipSent _ \<Rightarrow> True | _ \<Rightarrow> False))),
         (case truthy (tipToast w) of None \<Rightarrow> Box [] | Some t \<Rightarrow> Txt t)])"

fun list_enabled :: "list_event \<Rightarrow> 'z message_list_scheme \<Rightarrow> bool" where
  "list_enabled ListMount w = (ml_life w = Fresh)"
| "list_enabled (ListProps ch u extra) w = (ml_life w = Mounted)"
| "list_enabled ListUnmount w = (ml_life w = Mounted)"
| "list_enabled TopVisible w = (ml_life w = Mounted \<and> \<not> loading w)"
| "list_enabled ToastTimeout w = (0 < toasts w)"
| "list_enabled ev w = (ml_life w = Mounted \<and> offers (list_view (\<lambda>s. s) w) ev)"

definition list_init :: "browser \<Rightarrow> string \<Rightarrow> string option \<Rightarrow> message list \<Rightarrow> message_list" where
  "list_init b ch u extra =
     \<lparr>storage = storage b, hrefs = hrefs b, ml_channelId = ch, currentUserId = u, ml_extra = extra,
      messages = [], hasMore = False, loading = True, loadingMore = False, deletingIds = [],
      tippingUser = None, tipToast = None, load_run = 0, toasts = 0, ml_life = Fresh\<rparr>"

section \<open>One request of a kind at a time\<close>

lemma rows_offer_delete:
  "list_ex (\<lambda>u. offers u (ClickDelete m)) (message_rows fmt w prev ms) \<Longrightarrow> message_id m \<notin> set (deletingIds w)"
  by (induction ms arbitrary: prev) (auto simp: message_row_def Let_def)

lemma delete_offered: "list_enabled (ClickDelete m) w \<Longrightarrow> message_id m \<notin> set (deletingIds w)"
  by (auto simp: list_view_def dest: rows_offer_delete split: if_splits option.splits)

lemma frames_list_loading:
  "frames loadingMore (load_effect e :: ('z message_list_scheme, unit) io)"
  "frames loadingMore (handleDelete e m :: ('z message_list_scheme, unit) io)"
  unfolding load_effect_def initial_load_def start_load_def handleDelete_def fetchMessages_def
  by (auto simp: browser_ops cancelled_def split: if_splits intro!: frames_finally frames_try frames_bind frames_apiFetch)

lemma frames_list_deleting:
  "frames (\<lambda>w. i \<in> set (deletingIds w)) (load_effect e :: ('z message_list_scheme, unit) io)"
  "frames (\<lambda>w. i \<in> set (deletingIds w)) (load_more e :: ('z message_list_scheme, unit) io)"
  "message_id m \<noteq> i \<Longrightarrow> frames (\<lambda>w. i \<in> set (deletingIds w)) (handleDelete e m :: ('z message_list_scheme, unit) io)"
  unfolding load_effect_def initial_load_def start_load_def load_more_unfold handleDelete_def fetchMessages_def
  by (auto simp: browser_ops cancelled_def split: list.split if_splits
      intro!: frames_finally frames_try frames_bind frames_apiFetch)

lemma flight_load_more: "\<not> loadingMore w \<Longrightarrow> flight loadingMore (load_more e) w"
  unfolding load_more_unfold fetchMessages_def
  by (auto simp: browser_ops split: list.split
      intro!: flight_finally wp_frames [where f = loadingMore] frames_try frames_bind frames_apiFetch
        single_try single_bind single_apiFetch)

lemma flight_handleDelete:
  "flight (\<lambda>w. message_id m \<in> set (deletingIds w)) (handleDelete e m) w"
  unfolding handleDelete_def
  by (auto simp: browser_ops
      intro!: flight_finally wp_frames [where f = "\<lambda>w. message_id m \<in> set (deletingIds w)"] frames_bind frames_apiFetch
        single_bind single_apiFetch)

interpretation older_pages: guarded_flight list_enabled "list_handler e" "list_init b ch u ms" loadingMore
  for e b ch u ms
proof
  show "\<not> loadingMore (list_init b ch u ms)" by (simp add: list_init_def)
next
  fix ev and w :: message_list
  show "frames loadingMore (list_handler e ev :: (message_list, unit) io) \<or>
    (if loadingMore w
     then \<forall>w' ps t. seg (list_handler e ev) w = (w', ps, t) \<longrightarrow> loadingMore w' \<and> \<not> suspended t \<and> ps = []
     else flight loadingMore (list_handler e ev) w)"
  proof (cases ev)
    case TopVisible
    have "seg (load_more e) w = (w, [], Ret ())" if "loadingMore w"
      using that by (simp add: load_more_unfold)
    with TopVisible show ?thesis by (simp add: flight_load_more)
  qed (simp_all add: frames_list_loading Let_def)
qed

interpretation deletion: guarded_flight list_enabled "list_handler e" "list_init b ch u ms"
    "\<lambda>w. i \<in> set (deletingIds w)"
  for e b ch u ms i
proof
  show "\<not> i \<in> set (deletingIds (list_init b ch u ms))" by (simp add: list_init_def)
next
  fix ev and w :: message_list assume en: "list_enabled ev w"
  let ?B = "\<lambda>w :: message_list. i \<in> set (deletingIds w)"
  show "frames ?B (list_handler e ev) \<or>
    (if ?B w then \<forall>w' ps t. seg (list_handler e ev) w = (w', ps, t) \<longrightarrow> ?B w' \<and> \<not> suspended t \<and> ps = []
     else flight ?B (list_handler e ev) w)"
  proof (cases ev)
    case (ClickDelete m)
    show ?thesis
    proof (cases "message_id m = i")
      case True
      with en ClickDelete delete_offered [of m w] flight_handleDelete [of m e w] show ?thesis by simp
    next
      case False
      with ClickDelete show ?thesis by (simp add: frames_list_deleting)
    qed
  qed (simp_all add: frames_list_deleting Let_def)
qed

section \<open>The history behind the pages\<close>

text \<open>
  \<open>list_messages\<close> of the chat service: the rows of a channel, newest first, deleted ones kept
  and marked. One row more than the limit is fetched, deleted rows are dropped from those,
  and what is left decides whether there is more.
\<close>

record row =
  row_message :: message
  row_deleted :: bool

definition rows_before :: "string option \<Rightarrow> row list \<Rightarrow> row list" where
  "rows_before before rows =
     (case before of
        None \<Rightarrow> rows
      | Some b \<Rightarrow> tl (dropWhile (\<lambda>r. message_id (row_message r) \<noteq> b) rows))"

definition list_messages :: "nat \<Rightarrow> string option \<Rightarrow> row list \<Rightarrow> page" where
  "list_messages limit before rows =
     (let live = map row_message
            (filter (\<lambda>r. \<not> row_deleted r) (take (limit + 1) (rows_before before rows)));
          more = limit < length live
      in \<lparr>p_messages = (if more then take limit live else live), p_has_more = more\<rparr>)"

definition message_json :: "message \<Rightarrow> json" where
  "message_json m = JObj [(''message_id'', JStr (message_id m)), (''channel_id'', JStr (channel_id m)),
     (''author_id'', JStr (author_id m)), (''content'', JStr (content m)), (''attachments'', JArr []),
     (''created_at'', JStr (created_at m))]"

definition page_json :: "page \<Rightarrow> json" where
  "page_json p = JObj
     [(''messages'', JArr (map message_json (p_messages p))),
      (''next_cursor'', if p_has_more p then JStr (message_id (last (p_messages p))) else JNull),
      (''has_more'', JBool (p_has_more p))]"

definition page_reply :: "string option \<Rightarrow> row list \<Rightarrow> reply" where
  "page_reply before rows =
     HttpResp \<lparr>status = 200, body = Some (page_json (list_messages 50 before rows))\<rparr>"

text \<open>A channel's rows: one identifier each, as the service gives them out.\<close>

definition history :: "row list \<Rightarrow> bool" where
  "history rows \<longleftrightarrow> distinct (map (\<lambda>r. message_id (row_message r)) rows) \<and>
     (\<forall>r\<in>set rows. message_id (row_message r) \<noteq> [] \<and> username (row_message r) = None)"

lemma as_message_json: "username m = None \<Longrightarrow> as_message (message_json m) = Some m"
  by (simp add: as_message_def message_json_def str_field_def)

lemma as_messages_json:
  "\<forall>m\<in>set ms. username m = None \<Longrightarrow> as_list as_message (JArr (map message_json ms)) = Some ms"
proof (induction ms)
  case (Cons m ms)
  then show ?case by (simp add: as_list_def as_message_json)
qed (simp add: as_list_def)

lemma as_page_json:
  assumes "\<forall>m\<in>set (p_messages p). username m = None"
  shows "as_page (page_json p) = Some p"
  using as_messages_json [OF assms] by (simp add: as_page_def page_json_def bool_field_def)

lemma in_set_tl_dropWhile: "x \<in> set (tl (dropWhile P xs)) \<Longrightarrow> x \<in> set xs"
  by (metis list.sel(2) list.set_sel(2) set_dropWhileD)

lemma as_page_listed: "history rows \<Longrightarrow> as_page (page_json (list_messages l b rows)) = Some (list_messages l b rows)"
proof (rule as_page_json)
  assume h: "history rows"
  have "set (rows_before b rows) \<subseteq> set rows"
    unfolding rows_before_def
    by (cases b) (auto dest: in_set_tl_dropWhile)
  moreover have "set (p_messages (list_messages l b rows)) \<subseteq> row_message ` set (rows_before b rows)"
    by (auto simp: list_messages_def Let_def dest!: in_set_takeD)
  ultimately have "set (p_messages (list_messages l b rows)) \<subseteq> row_message ` set rows" by blast
  then show "\<forall>m\<in>set (p_messages (list_messages l b rows)). username m = None"
    using h by (force simp: history_def)
qed

lemma rows_before_nth:
  assumes "history rows" "0 < n" "n \<le> length rows"
  shows "rows_before (Some (message_id (row_message (rows ! (n - 1))))) rows = drop n rows"
proof -
  let ?id = "\<lambda>r. message_id (row_message r)"
  have rows: "rows = take (n - 1) rows @ rows ! (n - 1) # drop n rows"
    using assms(2,3) id_take_nth_drop [of "n - 1" rows] by simp
  have "?id r \<noteq> ?id (rows ! (n - 1))" if "r \<in> set (take (n - 1) rows)" for r
  proof -
    from that obtain i where "i < n - 1" "r = rows ! i" using assms(3)
      by (auto simp: in_set_conv_nth)
    then show ?thesis using assms nth_eq_iff_index_eq [of "map ?id rows" i "n - 1"]
      by (auto simp: history_def)
  qed
  then have "dropWhile (\<lambda>r. ?id r \<noteq> ?id (rows ! (n - 1))) rows = rows ! (n - 1) # drop n rows"
    by (subst rows, subst dropWhile_append2) auto
  then show ?thesis by (simp add: rows_before_def)
qed

lemma list_messages_live:
  assumes "\<forall>r\<in>set rows. \<not> row_deleted r"
  shows "list_messages l None rows =
    \<lparr>p_messages = map row_message (take l rows), p_has_more = l < length rows\<rparr>"
proof -
  have "filter (\<lambda>r. \<not> row_deleted r) (take (l + 1) rows) = take (l + 1) rows"
    using assms by (auto simp: filter_id_conv dest: in_set_takeD)
  then show ?thesis by (auto simp: list_messages_def rows_before_def Let_def take_map [symmetric] min_def)
qed

lemma list_messages_before:
  assumes "history rows" "0 < n" "n \<le> length rows"
  shows "list_messages l (Some (message_id (row_message (rows ! (n - 1))))) rows =
    list_messages l None (drop n rows)"
  unfolding list_messages_def rows_before_nth [OF assms] by (simp add: rows_before_def)

section \<open>Scrolling through the history\<close>

definition mount_turns :: "row list \<Rightarrow> list_event turn list" where
  "mount_turns rows = [Event ListMount, Answer 0 0 (page_reply None rows), Answer 0 0 Rejected]"

text \<open>
  One more page: the reader reaches the top, the service answers the request for the messages
  before the oldest one shown, which is the \<open>n\<close>th newest.
\<close>

definition scroll_turns :: "row list \<Rightarrow> nat \<Rightarrow> nat \<Rightarrow> list_event turn list" where
  "scroll_turns rows i n =
     [Event TopVisible,
      Answer i 0 (page_reply (Some (message_id (row_message (rows ! (n - 1))))) rows),
      Answer i 0 Rejected]"

definition shows_newest :: "row list \<Rightarrow> nat \<Rightarrow> 'z message_list_scheme \<Rightarrow> bool" where
  "shows_newest rows n w \<longleftrightarrow>
     ml_life w = Mounted \<and> \<not> loading w \<and> \<not> loadingMore w \<and>
     messages w = rev (map row_message (take n rows)) \<and> hasMore w = (n < length rows)"

lemmas run_list = fetchMessages_def apiFetch_def io_simps Let_def first_headers_def getItem_def
  ok_def page_reply_def

lemma mount_loads:
  assumes "history rows" "\<forall>r\<in>set rows. \<not> row_deleted r"
  shows "\<exists>w. exec list_enabled (list_handler e) (mount_turns rows) (list_init b ch u extra, []) =
      Some (w, [Ret ()]) \<and> shows_newest rows 50 w"
  using as_page_listed [OF assms(1), of 50 None] list_messages_live [OF assms(2), of 50]
  by (simp add: mount_turns_def list_init_def load_effect_def start_load_def initial_load_def
      cancelled_def run_list shows_newest_def)

lemma page_after:
  assumes "history rows" "\<forall>r\<in>set rows. \<not> row_deleted r" "0 < n" "n < length rows"
  shows "list_messages 50 (Some (message_id (row_message (rows ! (n - 1))))) rows =
    \<lparr>p_messages = map row_message (take 50 (drop n rows)), p_has_more = n + 50 < length rows\<rparr>"
proof -
  have "\<forall>r\<in>set (drop n rows). \<not> row_deleted r" using assms(2) by (blast dest: in_set_dropD)
  from list_messages_live [OF this, of 50] list_messages_before [of rows n 50] assms(1,3,4)
  show ?thesis by auto
qed

lemma scroll_loads:
  fixes w :: message_list
  assumes "history rows" "\<forall>r\<in>set rows. \<not> row_deleted r" "0 < n" "n < length rows"
    and "shows_newest rows n w"
  shows "\<exists>w' t. exec list_enabled (list_handler e) (scroll_turns rows (length ts) n) (w, ts) =
      Some (w', ts @ [t]) \<and> shows_newest rows (n + 50) w'"
proof -
  let ?old = "message_id (row_message (rows ! (n - 1)))"
  have take: "rev (map row_message (take n rows)) =
      row_message (rows ! (n - 1)) # rev (map row_message (take (n - 1) rows))"
    using assms(3,4) take_Suc_conv_app_nth [of "n - 1" rows] by simp
  have old: "?old \<noteq> []" using assms(1,3,4) by (simp add: history_def)
  note page = page_after [OF assms(1,2,3,4)]
  have more: "rev (map row_message (take (n + 50) rows)) =
      rev (map row_message (take 50 (drop n rows))) @ rev (map row_message (take n rows))"
    by (simp add: take_add)
  show ?thesis
    using assms(4,5) old take as_page_listed [OF assms(1), of 50 "Some ?old"] page more
    by (simp add: scroll_turns_def load_more_unfold run_list shows_newest_def nth_append)
qed

definition scroll_down :: "row list \<Rightarrow> nat \<Rightarrow> list_event turn list" where
  "scroll_down rows k =
     concat (map (\<lambda>i. scroll_turns rows (i + 1) (50 * (i + 1))) [0..<k])"


definition demo_message :: "string \<Rightarrow> message" where
  "demo_message i = \<lparr>message_id = i, channel_id = ''a'', author_id = ''u1'', content = ''hi'',
     created_at = ''t0'', username = None\<rparr>"

definition demo_rows :: "(nat \<Rightarrow> bool) \<Rightarrow> nat \<Rightarrow> row list" where
  "demo_rows del n =
     map (\<lambda>i. \<lparr>row_message = demo_message (replicate (i + 1) CHR 0x61), row_deleted = del i\<rparr>) [0..<n]"

lemma history_demo: "history (demo_rows del n)"
proof -
  have "map (\<lambda>r. message_id (row_message r)) (demo_rows del n) =
      map (\<lambda>i. replicate (i + 1) CHR 0x61) [0..<n]"
    by (simp add: demo_rows_def demo_message_def comp_def)
  moreover have "inj_on (\<lambda>i. replicate (i + 1) CHR 0x61) {0..<n}"
    by (rule inj_onI) (metis length_replicate add_right_imp_eq)
  ultimately show ?thesis
    by (auto simp: history_def distinct_map demo_rows_def demo_message_def comp_def)
qed


lemma mount_with_deleted:
  assumes "history rows" "r \<in> set (take 51 rows)" "row_deleted r"
  shows "\<exists>w. exec list_enabled (list_handler e) (mount_turns rows) (list_init b ch u extra, []) =
      Some (w, [Ret ()]) \<and>
    messages w = rev (map row_message (filter (\<lambda>r. \<not> row_deleted r) (take 51 rows))) \<and>
    \<not> hasMore w \<and> list_enabled TopVisible w"
proof -
  have "length (filter (\<lambda>r. \<not> row_deleted r) (take 51 rows)) < length (take 51 rows)"
    by (rule length_filter_less [OF assms(2)]) (use assms(3) in simp)
  then have "list_messages 50 None rows =
      \<lparr>p_messages = map row_message (filter (\<lambda>r. \<not> row_deleted r) (take 51 rows)), p_has_more = False\<rparr>"
    by (simp add: list_messages_def rows_before_def Let_def)
  with as_page_listed [OF assms(1), of 50 None] show ?thesis
    by (simp add: mount_turns_def list_init_def load_effect_def start_load_def initial_load_def
        cancelled_def run_list)
qed

text \<open>A deleted message cuts the history off: when one of the newest 51 rows is marked
  deleted, the service reports that there is nothing more, and however often the reader
  reaches the top, no further page is asked for.\<close>

theorem deleted_row_ends_history:
  assumes "history rows" "r \<in> set (take 51 rows)" "row_deleted r"
  shows "\<exists>w. exec list_enabled (list_handler e)
      (mount_turns rows @ replicate n (Event TopVisible)) (list_init b ch u extra, []) =
      Some (w, Ret () # replicate n (Ret ())) \<and>
    messages w = rev (map row_message (filter (\<lambda>r. \<not> row_deleted r) (take 51 rows)))"
proof -
  from mount_with_deleted [OF assms] obtain w where
    w: "exec list_enabled (list_handler e) (mount_turns rows) (list_init b ch u extra, []) =
      Some (w, [Ret ()])"
    and m: "messages w = rev (map row_message (filter (\<lambda>r. \<not> row_deleted r) (take 51 rows)))"
    and h: "\<not> hasMore w" "list_enabled TopVisible w" by blast
  have "exec list_enabled (list_handler e) (replicate n (Event TopVisible)) (w, ts) =
      Some (w, ts @ replicate n (Ret ()))" for ts
    using h by (induction n arbitrary: ts) (auto simp: load_more_unfold)
  with w m show ?thesis by (auto simp: exec_append)
qed

theorem deleted_row_ends_history_witness:
  "\<exists>w. exec list_enabled (list_handler demo_env)
      (mount_turns (demo_rows (\<lambda>i. i = 0) 60) @ replicate 2 (Event TopVisible))
      (list_init demo_browser ''a'' None [], []) = Some (w, Ret () # replicate 2 (Ret ())) \<and>
    length (messages w) < 60"
proof -
  let ?rows = "demo_rows (\<lambda>i. i = 0) 60"
  have "?rows ! 0 = \<lparr>row_message = demo_message [CHR 0x61], row_deleted = True\<rparr>"
    by (simp add: demo_rows_def)
  moreover have "?rows ! 0 \<in> set (take 51 ?rows)"
    by (rule in_set_conv_nth [THEN iffD2]) (auto simp: demo_rows_def intro!: exI [of _ 0])
  ultimately have "\<exists>w. exec list_enabled (list_handler demo_env)
      (mount_turns ?rows @ replicate 2 (Event TopVisible))
      (list_init demo_browser ''a'' None [], []) = Some (w, Ret () # replicate 2 (Ret ())) \<and>
    messages w = rev (map row_message (filter (\<lambda>r. \<not> row_deleted r) (take 51 ?rows)))"
    by (intro deleted_row_ends_history [OF history_demo, of "?rows ! 0"]) simp_all
  moreover have "length (filter (\<lambda>r. \<not> row_deleted r) (take 51 ?rows)) \<le> 51"
    by (rule order_trans [OF length_filter_le]) simp
  ultimately show ?thesis by (elim exE conjE) (intro exI conjI, assumption, simp)
qed

section \<open>Merging and deleting\<close>

lemma distinct_merge:
  assumes "distinct (map message_id xs)" "distinct (map message_id ys)"
  shows "distinct (map message_id (merge xs ys))"
proof -
  have "message_id ` set xs \<inter>
      message_id ` set (filter (\<lambda>m. message_id m \<notin> set (map message_id xs)) ys) = {}"
    by (auto intro: rev_image_eqI)
  with assms show ?thesis by (simp add: merge_def distinct_map_filter)
qed

lemma ids_merge:
  "message_id ` set (merge xs ys) = message_id ` set xs \<union> message_id ` set ys"
  by (auto simp: merge_def image_iff)

lemma offers_rows:
  "list_ex (\<lambda>u. offers u ev) (message_rows fmt w prev ms) \<longleftrightarrow>
     (\<exists>m\<in>set ms. currentUserId w \<noteq> Some (author_id m) \<and> ev = ClickTip m \<or>
        currentUserId w = Some (author_id m) \<and> message_id m \<notin> set (deletingIds w) \<and>
        ev = ClickDelete m)"
  by (induction ms arbitrary: prev) (auto simp: message_row_def Let_def when_ui_def)

lemma list_enabled_delete:
  "list_enabled (ClickDelete m) w \<longleftrightarrow> ml_life w = Mounted \<and> \<not> loading w \<and>
     m \<in> set (allMessages w) \<and> currentUserId w = Some (author_id m) \<and>
     message_id m \<notin> set (deletingIds w)"
  by (auto simp: list_view_def offers_rows split: option.split)

text \<open>Only one's own messages can be deleted, and only others can be tipped; a message
  whose deletion is under way cannot be deleted again.\<close>

theorem delete_own_tip_others:
  "(list_enabled (ClickDelete m) w \<longrightarrow>
      m \<in> set (allMessages w) \<and> currentUserId w = Some (author_id m) \<and>
      message_id m \<notin> set (deletingIds w)) \<and>
   (list_enabled (ClickTip m) w \<longrightarrow>
      m \<in> set (allMessages w) \<and> currentUserId w \<noteq> Some (author_id m))"
  by (auto simp: list_view_def offers_rows split: option.splits if_splits)

definition demo_list :: message_list where
  "demo_list = (list_init demo_browser ''a'' (Some ''u1'') [demo_message ''m2''])
     \<lparr>ml_life := Mounted, loading := False, messages := [demo_message ''m1'']\<rparr>"

lemma demo_deletes: "list_enabled (ClickDelete (demo_message i)) demo_list \<longleftrightarrow> i = ''m1'' \<or> i = ''m2''"
  unfolding list_enabled_delete
  by (auto simp: demo_list_def list_init_def demo_message_def allMessages_def merge_def)

theorem delete_own_tip_others_witness:
  "demo_message ''m1'' \<in> set (allMessages demo_list)"
proof -
  have "list_enabled (ClickDelete (demo_message ''m1'')) demo_list" by (simp only: demo_deletes simp_thms)
  with delete_own_tip_others [of "demo_message ''m1''" demo_list] show ?thesis by blast
qed

lemma delete_runs:
  fixes w :: message_list
  assumes "list_enabled (ClickDelete m) w" "status r \<noteq> 401"
  shows "exec list_enabled (list_handler e)
      [Event (ClickDelete m), Answer (length ts) 0 (HttpResp r)] (w, ts) =
    Some (w\<lparr>messages := (if ok r then drop_key message_id (message_id m) (messages w) else messages w),
            deletingIds := removeAll (message_id m) (deletingIds w)\<rparr>, ts @ [Ret ()])"
proof -
  have "removeAll (message_id m) (List.insert (message_id m) (deletingIds w)) =
      removeAll (message_id m) (deletingIds w)" by (simp add: List.insert_def)
  moreover have "ok r \<or> status r = 204 \<longleftrightarrow> ok r" by (auto simp: ok_def)
  ultimately show ?thesis
    using assms
    by (simp add: handleDelete_def apiFetch_def io_simps Let_def first_headers_def getItem_def
        del: list_enabled.simps)
qed

text \<open>A deletion takes effect on what was fetched, and only when the service grants it; the
  mark on the message goes away in any case.\<close>

theorem delete_takes_effect:
  fixes w :: message_list
  assumes "list_enabled (ClickDelete m) w" "status r \<noteq> 401"
  shows "\<exists>w'. exec list_enabled (list_handler e)
      [Event (ClickDelete m), Answer (length ts) 0 (HttpResp r)] (w, ts) = Some (w', ts @ [Ret ()]) \<and>
    messages w' = (if ok r then filter (\<lambda>x. message_id x \<noteq> message_id m) (messages w) else messages w) \<and>
    message_id m \<notin> set (deletingIds w') \<and>
    (ok r \<and> message_id m \<notin> message_id ` set (ml_extra w) \<longrightarrow>
       message_id m \<notin> message_id ` set (allMessages w'))"
  unfolding delete_runs [OF assms] by (auto simp: allMessages_def ids_merge drop_key_def)

theorem delete_takes_effect_witness:
  "\<exists>w'. exec list_enabled (list_handler demo_env)
      [Event (ClickDelete (demo_message ''m1'')), Answer 0 0 (HttpResp \<lparr>status = 204, body = None\<rparr>)]
      (demo_list, []) = Some (w', [Ret ()]) \<and> messages w' = []"
proof -
  have "list_enabled (ClickDelete (demo_message ''m1'')) demo_list" by (simp only: demo_deletes simp_thms)
  from delete_takes_effect [OF this, of "\<lparr>status = 204, body = None\<rparr>" demo_env "[]",
      unfolded list.size append.simps] obtain w' where
    "exec list_enabled (list_handler demo_env)
      [Event (ClickDelete (demo_message ''m1'')), Answer 0 0 (HttpResp \<lparr>status = 204, body = None\<rparr>)]
      (demo_list, []) = Some (w', [Ret ()])"
    "messages w' = filter (\<lambda>x. message_id x \<noteq> message_id (demo_message ''m1'')) (messages demo_list)"
    by (auto simp: ok_def)
  then show ?thesis by (intro exI conjI) (assumption, simp add: demo_list_def)
qed

text \<open>A message that arrived since the page was loaded, such as one's own just sent, is
  still shown after it has been deleted.\<close>

theorem deleted_message_still_shown:
  fixes w :: message_list
  assumes "list_enabled (ClickDelete m) w" "ok r"
    and "message_id m \<in> message_id ` set (ml_extra w)"
  shows "\<exists>w'. exec list_enabled (list_handler e)
      [Event (ClickDelete m), Answer (length ts) 0 (HttpResp r)] (w, ts) = Some (w', ts @ [Ret ()]) \<and>
    message_id m \<in> message_id ` set (allMessages w')"
proof -
  have "status r \<noteq> 401" using assms(2) by (simp add: ok_def)
  from delete_runs [OF assms(1) this] assms(3) show ?thesis by (auto simp: allMessages_def ids_merge)
qed

theorem deleted_message_still_shown_witness:
  "\<exists>w'. exec list_enabled (list_handler demo_env)
      [Event (ClickDelete (demo_message ''m2'')), Answer 0 0 (HttpResp \<lparr>status = 204, body = None\<rparr>)]
      (demo_list, []) = Some (w', [Ret ()]) \<and>
    message_id (demo_message ''m2'') \<in> message_id ` set (allMessages w')"
proof (rule deleted_message_still_shown [where ts = "[]", unfolded list.size append.simps])
  show "list_enabled (ClickDelete (demo_message ''m2'')) demo_list" by (simp only: demo_deletes simp_thms)
qed (simp_all add: ok_def demo_list_def list_init_def)

section \<open>Pages that arrive too late\<close>

text \<open>The first page of a channel that has been left is dropped when it arrives.\<close>

theorem stale_first_page_dropped:
  assumes "ch' \<noteq> ch" "history rows"
  shows "\<exists>w ts. exec list_enabled (list_handler e)
      [Event ListMount, Event (ListProps ch' u' extra'), Answer 0 0 (page_reply None rows),
       Answer 0 0 Rejected] (list_init b ch u extra, []) = Some (w, ts) \<and>
    ml_channelId w = ch' \<and> messages w = [] \<and> \<not> hasMore w \<and> loading w"
  using assms as_page_listed [OF assms(2), of 50 None]
  by (simp add: list_init_def load_effect_def start_load_def initial_load_def cancelled_def run_list)

theorem stale_first_page_dropped_witness:
  "\<exists>w ts. exec list_enabled (list_handler demo_env)
      [Event ListMount, Event (ListProps ''b'' None []),
       Answer 0 0 (page_reply None (demo_rows (\<lambda>_. False) 3)), Answer 0 0 Rejected]
      (list_init demo_browser ''a'' None [], []) = Some (w, ts) \<and>
    ml_channelId w = ''b'' \<and> messages w = [] \<and> \<not> hasMore w \<and> loading w"
  by (rule stale_first_page_dropped) (simp_all add: history_demo)

text \<open>An older page of a channel that has been left is not: it is put on top of the messages
  of the new channel.\<close>

theorem stale_older_page_shown:
  fixes w :: message_list
  assumes "history rows" "\<forall>r\<in>set rows. \<not> row_deleted r" "0 < n" "n < length rows"
    and "shows_newest rows n w" "ch' \<noteq> ml_channelId w"
  shows "\<exists>w' ts'. exec list_enabled (list_handler e)
      [Event TopVisible, Event (ListProps ch' u' extra'),
       Answer (length ts) 0 (page_reply (Some (message_id (row_message (rows ! (n - 1))))) rows),
       Answer (length ts) 0 Rejected] (w, ts) = Some (w', ts') \<and>
    ml_channelId w' = ch' \<and> messages w' = rev (map row_message (take 50 (drop n rows)))"
proof -
  let ?old = "message_id (row_message (rows ! (n - 1)))"
  have take: "rev (map row_message (take n rows)) =
      row_message (rows ! (n - 1)) # rev (map row_message (take (n - 1) rows))"
    using assms(3,4) take_Suc_conv_app_nth [of "n - 1" rows] by simp
  have old: "?old \<noteq> []" using assms(1,3,4) by (simp add: history_def)
  show ?thesis
    using assms(4,5,6) old take as_page_listed [OF assms(1), of 50 "Some ?old"]
      page_after [OF assms(1,2,3,4)]
    by (simp add: load_more_unfold run_list shows_newest_def load_effect_def start_load_def
        initial_load_def nth_append)
qed

theorem stale_older_page_shown_witness:
  "\<exists>w ts w' ts'. exec list_enabled (list_handler demo_env) (mount_turns (demo_rows (\<lambda>_. False) 60))
      (list_init demo_browser ''a'' None [], []) = Some (w, ts) \<and>
    exec list_enabled (list_handler demo_env)
      [Event TopVisible, Event (ListProps ''b'' None []),
       Answer 1 0 (page_reply (Some (message_id (row_message (demo_rows (\<lambda>_. False) 60 ! (50 - 1)))))
         (demo_rows (\<lambda>_. False) 60)),
       Answer 1 0 Rejected] (w, ts) = Some (w', ts') \<and>
    ml_channelId w' = ''b'' \<and> length (messages w') = 10"
proof -
  let ?rows = "demo_rows (\<lambda>_. False) 60"
  have l: "length ?rows = 60" by (simp add: demo_rows_def)
  have d: "\<forall>r\<in>set ?rows. \<not> row_deleted r" by (auto simp: demo_rows_def)
  from mount_loads [OF history_demo d, of demo_env demo_browser "''a''" None "[]"] obtain w where
    m: "exec list_enabled (list_handler demo_env) (mount_turns ?rows)
      (list_init demo_browser ''a'' None [], []) = Some (w, [Ret ()])" and s: "shows_newest ?rows 50 w" by blast
  have "ml_channelId w = ''a''" if "exec list_enabled (list_handler demo_env) (mount_turns ?rows)
      (list_init demo_browser ''a'' None [], []) = Some (w, [Ret ()])"
    using that as_page_listed [OF history_demo, of 50 None "\<lambda>_. False" 60]
    by (auto simp: mount_turns_def list_init_def load_effect_def start_load_def initial_load_def
        cancelled_def run_list)
  with m have "''b'' \<noteq> ml_channelId w" by simp
  have 1: "length [Ret () :: (message_list, unit) io] = 1" by simp
  from stale_older_page_shown [OF history_demo d _ _ s \<open>''b'' \<noteq> ml_channelId w\<close>,
      of demo_env None "[]" "[Ret ()]", unfolded 1]
  obtain w' ts' where "exec list_enabled (list_handler demo_env)
      [Event TopVisible, Event (ListProps ''b'' None []),
       Answer 1 0 (page_reply (Some (message_id (row_message (?rows ! (50 - 1))))) ?rows),
       Answer 1 0 Rejected] (w, [Ret ()]) = Some (w', ts')"
    "ml_channelId w' = ''b''" "messages w' = rev (map row_message (take 50 (drop 50 ?rows)))"
    by (auto simp: l)
  with m show ?thesis by (intro exI conjI) (assumption, assumption, assumption, simp add: l)
qed

end
