(* ===== verification/Timestamps.thy ===== *)
theory Timestamps
  imports MessageList
begin

text \<open>
  A timestamp that \<open>toISOString\<close> writes is read back by \<open>new Date(s).getTime()\<close>: the
  optimistic message of \<open>ChannelView\<close> carries the first, the grouping of \<open>MessageList\<close> uses
  the second. The calendar part is the correctness of the civil date of a day number, the
  other part reads fixed-width fields back at their boundaries.
\<close>

section \<open>The year of the era\<close>

text \<open>\<open>leaps d\<close> is the day of an era less the leap days before it, and \<open>year_start y\<close> the first
  day of the year \<open>y\<close> of an era; both count from the first of March.\<close>

definition leaps :: "nat \<Rightarrow> nat" where
  "leaps d = d + d div 36524 - (d div 1460 + d div 146096)"

definition year_start :: "nat \<Rightarrow> nat" where
  "year_start y = 365 * y + y div 4 - y div 100 + y div 400"

lemma leaps_bound: "(d :: nat) div 1460 + d div 146096 \<le> d + d div 36524"
  by linarith

lemma leaps_step: "leaps d \<le> leaps (Suc d)"
proof -
  have *: "Suc d div 1460 + Suc d div 146096 + (d + d div 36524) \<le>
      d div 1460 + d div 146096 + (Suc d + Suc d div 36524)"
  proof (cases "146096 dvd Suc d")
    case True
    then obtain k where k: "Suc d = 146096 * k" by blast
    then have "Suc d = 36524 * (4 * k)" by simp
    then have "Suc d div 36524 = Suc (d div 36524)" by (metis div_Suc dvd_def dvd_imp_mod_0)
    moreover have "Suc d div 1460 \<le> Suc (d div 1460)" "Suc d div 146096 \<le> Suc (d div 146096)"
      by (simp_all add: div_Suc)
    ultimately show ?thesis by linarith
  next
    case False
    then have "Suc d div 146096 = d div 146096" by (simp add: div_Suc dvd_eq_mod_eq_0)
    moreover have "Suc d div 1460 \<le> Suc (d div 1460)" "d div 36524 \<le> Suc d div 36524"
      by (simp_all add: div_Suc)
    ultimately show ?thesis by linarith
  qed
  have "Suc d + Suc d div 36524 = leaps (Suc d) + (Suc d div 1460 + Suc d div 146096)"
    "d + d div 36524 = leaps d + (d div 1460 + d div 146096)"
    using leaps_bound [of d] leaps_bound [of "Suc d"] by (simp_all add: leaps_def)
  with * show ?thesis by linarith
qed

lemma leaps_mono: "d \<le> d' \<Longrightarrow> leaps d \<le> leaps d'"
  by (rule lift_Suc_mono_le [of leaps, OF leaps_step])


lemma leaps_le:
  assumes "S div 36524 \<le> c" "q \<le> S div 1460"
  shows "leaps S + q \<le> S + c"
proof -
  define a b e where "a = S div 36524" and "b = S div 1460" and "e = S div 146096"
  have "a \<le> c" "q \<le> b" "b + e \<le> S + a" "leaps S = S + a - (b + e)"
    using assms leaps_bound [of S] by (simp_all add: a_def b_def e_def leaps_def)
  then show ?thesis by linarith
qed

lemma year_low:
  assumes "y < 400"
  shows "365 * y \<le> leaps (year_start y)"
proof -
  define q c S where "q = y div 4" and "c = y div 100" and "S = 365 * y + q - c"
  have S: "year_start y = S" using assms by (simp add: year_start_def q_def c_def S_def)
  have c: "100 * c \<le> y" "y < 100 * c + 100" "25 * c \<le> q" "c \<le> 3" unfolding c_def q_def using assms by linarith+
  have q: "4 * q \<le> y" "y < 4 * q + 4" unfolding q_def by linarith+
  have S': "S + c = 365 * y + q" using c q by (simp add: S_def)
  have "36524 * c \<le> S" using S' c q by linarith
  then have "c \<le> S div 36524" by linarith
  moreover have "S div 1460 \<le> q"
  proof -
    have "S < 1460 * q + 1460" using S' q assms by linarith
    then show ?thesis by linarith
  qed
  moreover have "S div 146096 = 0" using S' q assms by simp
  ultimately show ?thesis using S' unfolding S leaps_def by linarith
qed

lemma year_high:
  assumes "y < 400"
  shows "leaps (year_start (y + 1) - 1) < 365 * (y + 1)"
proof -
  define z where "z = y + 1"
  define q c S where "q = z div 4" and "c = z div 100" and "S = year_start z - 1"
  have z: "0 < z" "z \<le> 400" using assms by (simp_all add: z_def)
  have c: "100 * c \<le> z" "z < 100 * c + 100" unfolding c_def by linarith+
  have q: "4 * q \<le> z" "z < 4 * q + 4" "25 * c \<le> q" unfolding q_def c_def by linarith+
  have S': "S + c + 1 = 365 * z + q + z div 400"
    using c q z unfolding S_def year_start_def q_def [symmetric] c_def [symmetric] by linarith
  show ?thesis
  proof (cases "z = 400")
    case True
    then have "y = 399" by (simp add: z_def)
    then show ?thesis by (simp add: leaps_def year_start_def)
  next
    case False
    then have S': "S + c + 1 = 365 * z + q" using S' z by simp
    have "S div 36524 \<le> c"
    proof -
      have "S < 36524 * c + 36524" using S' c q by linarith
      then show ?thesis by linarith
    qed
    moreover have "q \<le> S div 1460"
    proof -
      have "1460 * q \<le> S" using S' c q z by linarith
      then show ?thesis by linarith
    qed
    ultimately have "leaps S + q \<le> S + c" by (rule leaps_le)
    with S' show ?thesis unfolding z_def [symmetric] S_def [symmetric] by linarith
  qed
qed

lemma year_length: "year_start (y + 1) \<le> year_start y + 366"
proof -
  define a b c a' b' c' where "a = y div 4" and "b = y div 100" and "c = y div 400"
    and "a' = (y + 1) div 4" and "b' = (y + 1) div 100" and "c' = (y + 1) div 400"
  note d = this
  have "a' \<le> a + 1" "b \<le> a" "b' \<le> a'" unfolding d by linarith+
  moreover have "c' + b \<le> c + b'"
    unfolding d using mod_mod_cancel [of 100 400 "Suc y"] by (auto simp: div_Suc)
  moreover have "year_start y + b = 365 * y + a + c" "year_start (y + 1) + b' = 365 * y + 365 + a' + c'"
    using calculation unfolding year_start_def d [symmetric] by simp_all
  ultimately show ?thesis by linarith
qed

lemma between_steps:
  fixes s :: "nat \<Rightarrow> nat"
  assumes "s 0 \<le> d" "d < s n"
  shows "\<exists>y<n. s y \<le> d \<and> d < s (y + 1)"
  using assms(2)
proof (induction n)
  case 0
  with assms(1) show ?case by simp
next
  case (Suc n)
  show ?case
  proof (cases "d < s n")
    case True
    with Suc.IH show ?thesis by (auto intro: less_SucI)
  next
    case False
    with Suc.prems show ?thesis by (intro exI [of _ n]) simp
  qed
qed

lemma year_of_era:
  assumes "doe < 146097"
  shows "\<exists>y<400. leaps doe div 365 = y \<and> year_start y \<le> doe \<and> doe \<le> year_start y + 365"
proof -
  have "year_start 0 \<le> doe" "doe < year_start 400" using assms by (simp_all add: year_start_def)
  then obtain y where y: "y < 400" "year_start y \<le> doe" "doe < year_start (y + 1)"
    using between_steps [of year_start doe 400] by blast
  have "365 * y \<le> leaps doe" using year_low [OF y(1)] leaps_mono [OF y(2)] by linarith
  moreover have "leaps doe < 365 * (y + 1)"
    using year_high [OF y(1)] leaps_mono [of doe "year_start (y + 1) - 1"] y(3) by linarith
  ultimately have "leaps doe div 365 = y" by (intro div_nat_eqI) simp_all
  with y year_length [of y] show ?thesis by auto
qed

text \<open>The month: the days of a year from March, in the five-month pattern of 153 days.\<close>

lemma month_of_year:
  assumes "doy \<le> (365 :: nat)"
  shows "(5 * doy + 2) div 153 \<le> 11"
    and "(153 * ((5 * doy + 2) div 153) + 2) div 5 \<le> doy"
    and "doy < (153 * ((5 * doy + 2) div 153) + 2) div 5 + 31"
  using assms by linarith+
section \<open>The calendar\<close>

lemma days_civil:
  assumes "civil days = (y, m, d)"
  shows "days_of (int y) (int m) (int d) = int days" "m \<le> 12" "d \<le> 31" "1 \<le> m" "1 \<le> d"
    and "y < 400 * ((days + 719468) div 146097) + 401"
proof -
  define z era doe where "z = days + 719468" and "era = z div 146097" and "doe = z mod 146097"
  have "doe < 146097" by (simp add: doe_def)
  from year_of_era [OF this] obtain yoe where
    yoe: "yoe < 400" "leaps doe div 365 = yoe" "year_start yoe \<le> doe" "doe \<le> year_start yoe + 365"
    by blast
  define doy mp where "doy = doe - year_start yoe" and "mp = (5 * doy + 2) div 153"
  have doy: "doy \<le> 365" "doe = year_start yoe + doy" using yoe by (simp_all add: doy_def)
  have mp: "mp \<le> 11" "(153 * mp + 2) div 5 \<le> doy" "doy < (153 * mp + 2) div 5 + 31"
    using month_of_year [OF doy(1)] by (simp_all add: mp_def)
  have "doe div 1460 \<le> doe" by simp
  then have lp: "doe - doe div 1460 + doe div 36524 - doe div 146096 = leaps doe"
    by (simp add: leaps_def)
  have ys: "year_start yoe = 365 * yoe + yoe div 4 - yoe div 100" "yoe div 100 \<le> yoe div 4"
    using yoe(1) by (simp add: year_start_def, linarith)
  have v: "y = yoe + era * 400 + (if m \<le> 2 then 1 else 0)" "m = (if mp < 10 then mp + 3 else mp - 9)"
    "d = doy - (153 * mp + 2) div 5 + 1"
    using assms unfolding civil_def Let_def z_def [symmetric] era_def [symmetric] doe_def [symmetric]
      lp yoe(2) ys(1) [symmetric] doy_def [symmetric] mp_def [symmetric] by auto
  show "m \<le> 12" using v(2) mp(1) by (simp split: if_splits)
  show "1 \<le> m" using v(2) by (simp split: if_splits)
  show "1 \<le> d" using v(3) by simp
  show "d \<le> 31" using v(3) mp(2,3) by linarith
  show "y < 400 * ((days + 719468) div 146097) + 401"
    using v(1) yoe(1) unfolding z_def [symmetric] era_def [symmetric] by (simp split: if_splits)
  have y': "(if int m \<le> 2 then int y - 1 else int y) = int yoe + int era * 400"
    using v(1) by simp
  have m': "(if int m > 2 then int m - 3 else int m + 9) = int mp"
    using v(2) mp(1) by (auto split: if_splits)
  have d': "(153 * int mp + 2) div 5 + int d - 1 = int doy"
  proof -
    have "(153 * int mp + 2) div 5 = int ((153 * mp + 2) div 5)" by (simp add: zdiv_int)
    then show ?thesis using v(3) mp(2) by (simp add: of_nat_diff)
  qed
  have s: "int (year_start yoe) = int yoe * 365 + int yoe div 4 - int yoe div 100"
    using ys by (simp add: of_nat_diff zdiv_int)
  have "int days + 719468 = int era * 146097 + int doe"
  proof -
    have "z = era * 146097 + doe" by (simp add: era_def doe_def)
    then show ?thesis using z_def by simp
  qed
  moreover have "(int yoe + int era * 400) mod 400 = int yoe" "(int yoe + int era * 400) div 400 = int era"
    using yoe(1) by simp_all
  ultimately show "days_of (int y) (int m) (int d) = int days"
    using doy(2) s unfolding days_of_def Let_def y' m' by (simp add: d' diff_add_eq)
qed

text \<open>The last day of the year 9999.\<close>

lemma civil_year:
  assumes "civil days = (y, m, d)" "days < 2932897"
  shows "y < 10000"
proof (rule ccontr)
  note c = days_civil [OF assms(1)]
  assume "\<not> y < 10000"
  moreover have "(days + 719468) div 146097 \<le> 24" using assms(2) by linarith
  then have "y \<le> 10000" using c(6) by linarith
  ultimately have "days_of 10000 (int m) (int d) = int days" using c(1) by simp
  moreover have "m = 1 \<or> m = 2 \<or> 3 \<le> m" using c(4) by linarith
  then have "2932897 \<le> days_of 10000 (int m) (int d)"
  proof (elim disjE)
    assume m: "3 \<le> m"
    then have "0 \<le> (153 * (int m - 3) + 2) div 5" by simp
    with m show ?thesis using c(5) by (simp add: days_of_def Let_def)
  qed (use c(5) in \<open>simp_all add: days_of_def Let_def\<close>)
  ultimately show False using assms(2) by linarith
qed

section \<open>Fields of digits\<close>

lemma digit_char: "k < 10 \<Longrightarrow> digit (char_of (k + 48)) = Some (int k)"
  by (simp add: digit_def of_char_of)

lemma number_append:
  "number a (xs @ ys) = (case number a xs of None \<Rightarrow> None | Some b \<Rightarrow> number b ys)"
  by (induction a xs rule: number.induct) (auto split: option.split)

lemma number_show_nat: "number 0 (show_nat n) = Some (int n)"
proof (induction n rule: show_nat.induct)
  case (1 n)
  show ?case
  proof (cases "n < 10")
    case True
    then show ?thesis by (simp add: show_nat.simps [of n] digit_char)
  next
    case False
    with 1 have "number 0 (show_nat n) = Some (10 * int (n div 10) + int (n mod 10))"
      by (simp add: show_nat.simps [of n] number_append digit_char)
    then show ?thesis by (metis mult_div_mod_eq of_nat_add of_nat_mult of_nat_numeral)
  qed
qed

lemma length_show_nat: "n < 10 ^ k \<Longrightarrow> 0 < k \<Longrightarrow> length (show_nat n) \<le> k"
proof (induction n arbitrary: k rule: show_nat.induct)
  case (1 n)
  show ?case
  proof (cases "n < 10")
    case True
    with 1 show ?thesis by (simp add: show_nat.simps [of n])
  next
    case False
    with 1 obtain j where k: "k = Suc j" by (cases k) auto
    have "0 < j" using False 1 k by (cases j) auto
    moreover have "n div 10 < 10 ^ j" using 1 k by (simp add: less_mult_imp_div_less mult.commute)
    ultimately show ?thesis using 1 False k by (simp add: show_nat.simps [of n])
  qed
qed

lemma length_pad: "n < 10 ^ k \<Longrightarrow> 0 < k \<Longrightarrow> length (pad k (show_nat n)) = k"
  using length_show_nat [of n k] by (simp add: pad_def)

lemma number_pad: "number 0 (pad k (show_nat n)) = Some (int n)"
proof -
  have "number 0 (replicate j CHR 0x30 @ s) = number 0 s" for j s
    by (induction j) (simp_all add: digit_def)
  then show ?thesis by (simp add: pad_def number_show_nat)
qed

lemma digits_pad: "c \<in> set (pad k (show_nat n)) \<Longrightarrow> digit c \<noteq> None"
  using show_nat_digits [of c n] by (auto simp: pad_def digit_def Let_def split: if_splits)

lemma digit_other [simp]: "digit CHR ''Z'' = None"
  by (simp add: digit_def)

lemma fraction_pad:
  assumes "n < 1000"
  shows "fraction_ms (pad 3 (show_nat n) @ ''Z'') = Some (int n)"
proof -
  let ?f = "pad 3 (show_nat n)"
  have "takeWhile (\<lambda>c. digit c \<noteq> None) (?f @ ''Z'') = ?f"
    "dropWhile (\<lambda>c. digit c \<noteq> None) (?f @ ''Z'') = ''Z''"
    using digits_pad [of _ 3 n] by (simp_all add: takeWhile_append2 dropWhile_append2)
  moreover have "take 3 (?f @ ''000'') = ?f" using length_pad [of n 3] assms by simp
  ultimately show ?thesis by (simp only: fraction_ms_def Let_def number_pad) simp
qed

lemma date_fields:
  assumes "length ys = 4" "length ms = 2" "length ds = 2" "length hs = 2" "length is = 2" "length ss = 2"
    and "number 0 ys = Some y" "number 0 ms = Some mo" "number 0 ds = Some d" "number 0 hs = Some h"
    and "number 0 is = Some mi" "number 0 ss = Some sec" "fraction_ms f = Some r"
  shows "date_ms (ys @ ''-'' @ ms @ ''-'' @ ds @ ''T'' @ hs @ '':'' @ is @ '':'' @ ss @ ''.'' @ f) =
    Some ((((days_of y mo d * 24 + h) * 60 + mi) * 60 + sec) * 1000 + r)"
  using assms by (simp add: date_ms_def)

section \<open>The round trip\<close>

lemma clock:
  fixes t :: nat
  assumes "t < 86400000"
  shows "t div 3600000 < 10 ^ 2" "t div 60000 mod 60 < 10 ^ 2" "t div 1000 mod 60 < 10 ^ 2"
    and "t = ((t div 3600000 * 60 + t div 60000 mod 60) * 60 + t div 1000 mod 60) * 1000 + t mod 1000"
proof -
  show "t div 3600000 < 10 ^ 2" using assms by simp
  show "t div 60000 mod 60 < 10 ^ 2" "t div 1000 mod 60 < 10 ^ 2"
    by (rule less_trans [of _ 60], simp_all)+
  have q: "t div 3600000 = t div 60000 div 60" "t div 60000 = t div 1000 div 60"
    using div_mult2_eq [of t 60000 60] div_mult2_eq [of t 1000 60] by simp_all
  have "t div 60000 = t div 3600000 * 60 + t div 60000 mod 60"
    unfolding q(1) by (rule div_mult_mod_eq [symmetric])
  moreover have "t div 1000 = t div 60000 * 60 + t div 1000 mod 60"
    unfolding q(2) by (rule div_mult_mod_eq [symmetric])
  moreover have "t = t div 1000 * 1000 + t mod 1000" by (rule div_mult_mod_eq [symmetric])
  ultimately show "t = ((t div 3600000 * 60 + t div 60000 mod 60) * 60 + t div 1000 mod 60) * 1000 + t mod 1000"
    by simp
qed

lemma date_toISOString:
  assumes "ms < 253402300800000"
  shows "date_ms (toISOString ms) = Some (int ms)"
proof -
  define D t where "D = ms div 86400000" and "t = ms mod 86400000"
  obtain y m d where c: "civil D = (y, m, d)" by (metis prod_cases3)
  note dc = days_civil [OF c]
  have "D < 2932897" using assms by (simp add: D_def less_mult_imp_div_less)
  from civil_year [OF c this] have y: "y < 10 ^ 4" by simp
  have m: "m < 10 ^ 2" "d < 10 ^ 2" using dc(2,3) by simp_all
  have "t < 86400000" by (simp add: t_def)
  note t = clock [OF this]
  have iso: "toISOString ms =
      pad 4 (show_nat y) @ ''-'' @ pad 2 (show_nat m) @ ''-'' @ pad 2 (show_nat d) @ ''T'' @
      pad 2 (show_nat (t div 3600000)) @ '':'' @ pad 2 (show_nat (t div 60000 mod 60)) @ '':'' @
      pad 2 (show_nat (t div 1000 mod 60)) @ ''.'' @ pad 3 (show_nat (t mod 1000)) @ ''Z''"
    unfolding toISOString_def D_def [symmetric] t_def [symmetric] c by simp
  have eq: "(((int D * 24 + int (t div 3600000)) * 60 +
      int (t div 60000 mod 60)) * 60 + int (t div 1000 mod 60)) * 1000 + int (t mod 1000) = int ms"
  proof -
    have "ms = D * 86400000 + t" unfolding D_def t_def by (rule div_mult_mod_eq [symmetric])
    then have "int ms = int D * 86400000 + int t" by simp
    moreover have "int t = ((int (t div 3600000) * 60 + int (t div 60000 mod 60)) * 60 +
        int (t div 1000 mod 60)) * 1000 + int (t mod 1000)"
      using arg_cong [OF t(4), of int] by simp
    ultimately show ?thesis by simp
  qed
  show ?thesis
    unfolding iso eq [symmetric] dc(1) [symmetric]
    by (rule date_fields)
       (use y m t in \<open>simp_all only: length_pad number_pad fraction_pad zero_less_numeral mod_less_divisor\<close>)
qed

text \<open>C35. The time a message is sent at is read back from the timestamp it carries, at any
  millisecond from 1970 to 9999; so of two messages one user sends, the later is shown under
  the earlier exactly when less than five minutes lie between them.\<close>

theorem sent_time_read_back:
  assumes "now1 < 253402300800000" "now2 < 253402300800000"
  shows "date_ms (created_at (optimistic ch u c1 now1)) = Some (int now1) \<and>
    (grouped (Some (optimistic ch u c1 now1)) (optimistic ch u c2 now2) \<longleftrightarrow>
       int now2 - int now1 < 5 * 60 * 1000)"
  using assms by (simp add: grouped_def optimistic_def date_toISOString)

theorem sent_time_read_back_witness:
  "\<not> grouped (Some (optimistic ''c'' \<lparr>u_id = ''u'', u_name = ''n''\<rparr> ''a'' 1717245296789))
      (optimistic ''c'' \<lparr>u_id = ''u'', u_name = ''n''\<rparr> ''b'' 1717245596789)"
  using sent_time_read_back [of 1717245296789 1717245596789 "''c''" "\<lparr>u_id = ''u'', u_name = ''n''\<rparr>"
    "''a''" "''b''"] by simp

end
