(* ===== verification/Cluster.thy ===== *)
theory Cluster
  imports Browser
begin

text \<open>
  \<open>infra/cdk/lib/cluster-construct.ts\<close>: the images, the node group and the Kubernetes manifests
  the stack deploys. A manifest is the JSON object the code builds. What the cloud decides is
  a parameter: \<open>uri i\<close> is the address of the image of asset \<open>i\<close>, \<open>file f\<close> the contents of a
  file of the repository.
\<close>

section \<open>Nodes and images\<close>

datatype arch = Arm64 | Amd64

datatype platform = LINUX_ARM64 | LINUX_AMD64

datatype ami_type = AL2023_ARM_64_STANDARD | AL2023_X86_64_STANDARD

record cluster_props =
  repoRoot :: string
  arch :: arch
  appOrigin :: "string option"
  apiRateLimit :: string
  apiRateBurst :: string
  gatewayReplicas :: int
  authReplicas :: int
  dbEndpoint :: string
  dbUsername :: string
  dbPassword :: string
  jwtSecret :: string
  auditWriterPassword :: string
  auditReaderPassword :: string
  redisEndpoint :: string
  cacheRedisEndpoint :: string
  kafkaBootstrap :: string

definition NS :: string where
  "NS = ''concordia''"

definition platform_of :: "arch \<Rightarrow> platform" where
  "platform_of a = (if a = Arm64 then LINUX_ARM64 else LINUX_AMD64)"

record nodegroup =
  instanceType :: string
  amiType :: ami_type
  minSize :: nat
  maxSize :: nat
  desiredSize :: nat

definition nodegroup :: "arch \<Rightarrow> nodegroup" where
  "nodegroup a =
     \<lparr>instanceType = (if a = Arm64 then ''t4g.medium'' else ''t3.medium''),
      amiType = (if a = Arm64 then AL2023_ARM_64_STANDARD else AL2023_X86_64_STANDARD),
      minSize = 2, maxSize = 4, desiredSize = 3\<rparr>"

record asset =
  asset_id :: string
  directory :: string
  dockerfile :: "string option"
  asset_platform :: platform

text \<open>\<open>path.join(repoRoot, p)\<close>, for a root without a slash at its end.\<close>

definition in_repo :: "cluster_props \<Rightarrow> string \<Rightarrow> string" where
  "in_repo p s = repoRoot p @ ''/'' @ s"

definition image_assets :: "cluster_props \<Rightarrow> asset list" where
  "image_assets p =
     (let asset = (\<lambda>i d f. \<lparr>asset_id = i, directory = d, dockerfile = f,
                             asset_platform = platform_of (arch p)\<rparr>) in
      [asset ''GatewayImage'' (repoRoot p) (Some ''services/gateway/Dockerfile''),
       asset ''AuthImage'' (repoRoot p) (Some ''services/auth/Dockerfile''),
       asset ''WebImage'' (in_repo p ''apps/web-app'') (Some ''Dockerfile.prod''),
       asset ''ProxyImage'' (in_repo p ''services/reverse-proxy'') None,
       asset ''ServersImage'' (repoRoot p) (Some ''services/servers/Dockerfile''),
       asset ''PresenceImage'' (in_repo p ''services/presence'') None,
       asset ''AuditImage'' (repoRoot p) (Some ''services/audit/Dockerfile''),
       asset ''VoiceImage'' (repoRoot p) (Some ''services/voice/Dockerfile''),
       asset ''ChatImage'' (repoRoot p) (Some ''services/chat/Dockerfile'')])"

text \<open>The images the nodes may pull: \<open>grantPull\<close> for each.\<close>

definition pullable :: "cluster_props \<Rightarrow> string list" where
  "pullable p = map asset_id (image_assets p)"

section \<open>Building blocks of manifests\<close>

definition text_value :: "string \<Rightarrow> string \<Rightarrow> json" where
  "text_value n v = JObj [(''name'', JStr n), (''value'', JStr v)]"

definition secretRef :: "string \<Rightarrow> json" where
  "secretRef k = JObj [(''secretKeyRef'', JObj [(''name'', JStr ''concordia-secrets''), (''key'', JStr k)])]"

definition from_secret :: "string \<Rightarrow> string \<Rightarrow> json" where
  "from_secret n k = JObj [(''name'', JStr n), (''valueFrom'', secretRef k)]"

definition containerPort :: "int \<Rightarrow> json" where
  "containerPort n = JObj [(''containerPort'', JNum n)]"

text \<open>\<open>cond ? [field] : []\<close>: a property that is set only when its value is given.\<close>

definition opt_field :: "string \<Rightarrow> json option \<Rightarrow> (string \<times> json) list" where
  "opt_field k v = (case v of None \<Rightarrow> [] | Some j \<Rightarrow> [(k, j)])"

record extra =
  healthPath :: "string option"
  startupDelay :: "int option"
  volumeMounts :: "json option"
  volumes :: "json option"
  x_ports :: "json list option"
  replicas :: "int option"
  resources :: "json option"

definition no_extra :: extra where
  "no_extra = \<lparr>healthPath = None, startupDelay = None, volumeMounts = None, volumes = None,
     x_ports = None, replicas = None, resources = None\<rparr>"

definition probe :: "string \<Rightarrow> int \<Rightarrow> int \<Rightarrow> int \<Rightarrow> int \<Rightarrow> json" where
  "probe path port delay period threshold =
     JObj [(''httpGet'', JObj [(''path'', JStr path), (''port'', JNum port)]),
           (''initialDelaySeconds'', JNum delay), (''periodSeconds'', JNum period),
           (''failureThreshold'', JNum threshold)]"

definition probes :: "int \<Rightarrow> extra \<Rightarrow> (string \<times> json) list" where
  "probes port x =
     (case truthy (healthPath x) of
        None \<Rightarrow> []
      | Some path \<Rightarrow>
          [(''readinessProbe'', probe path port (nullish (startupDelay x) 10) 10 30),
           (''livenessProbe'', probe path port (nullish (startupDelay x) 10 + 30) 15 6)])"

definition container :: "string \<Rightarrow> string \<Rightarrow> int \<Rightarrow> json list \<Rightarrow> extra \<Rightarrow> json" where
  "container name img port env x =
     JObj ([(''name'', JStr name), (''image'', JStr img), (''imagePullPolicy'', JStr ''Always''),
            (''ports'', JArr (nullish (x_ports x) [containerPort port])), (''env'', JArr env)] @
           opt_field ''resources'' (resources x) @ opt_field ''volumeMounts'' (volumeMounts x) @
           probes port x)"

definition labels :: "string \<Rightarrow> json" where
  "labels name = JObj [(''app'', JStr name)]"

definition metadata :: "string \<Rightarrow> json" where
  "metadata name = JObj [(''name'', JStr name), (''namespace'', JStr NS)]"

definition deployment :: "string \<Rightarrow> string \<Rightarrow> int \<Rightarrow> json list \<Rightarrow> extra \<Rightarrow> json" where
  "deployment name img port env x =
     JObj [(''apiVersion'', JStr ''apps/v1''), (''kind'', JStr ''Deployment''),
       (''metadata'', JObj [(''name'', JStr name), (''namespace'', JStr NS), (''labels'', labels name)]),
       (''spec'', JObj
         [(''replicas'', JNum (nullish (replicas x) 1)),
          (''selector'', JObj [(''matchLabels'', labels name)]),
          (''template'', JObj
            [(''metadata'', JObj [(''labels'', labels name)]),
             (''spec'', JObj ((''containers'', JArr [container name img port env x]) #
                opt_field ''volumes'' (volumes x)))])])]"

record service_opts =
  s_type :: "string option"
  annotations :: "json option"
  s_ports :: "json list option"

definition no_opts :: service_opts where
  "no_opts = \<lparr>s_type = None, annotations = None, s_ports = None\<rparr>"

definition service_port :: "int \<Rightarrow> int \<Rightarrow> json" where
  "service_port p t = JObj [(''port'', JNum p), (''targetPort'', JNum t)]"

definition named_port :: "string \<Rightarrow> int \<Rightarrow> int \<Rightarrow> json" where
  "named_port n p t = JObj [(''name'', JStr n), (''port'', JNum p), (''targetPort'', JNum t)]"

definition service :: "string \<Rightarrow> int \<Rightarrow> int \<Rightarrow> service_opts \<Rightarrow> json" where
  "service name port target opts =
     JObj [(''apiVersion'', JStr ''v1''), (''kind'', JStr ''Service''),
       (''metadata'', JObj ([(''name'', JStr name), (''namespace'', JStr NS)] @
          opt_field ''annotations'' (annotations opts))),
       (''spec'', JObj
         [(''type'', JStr (nullish (s_type opts) ''ClusterIP'')), (''selector'', labels name),
          (''ports'', JArr (nullish (s_ports opts) [service_port port target]))])]"

definition requests :: "string \<Rightarrow> string \<Rightarrow> json" where
  "requests mem cpu = JObj [(''requests'', JObj [(''memory'', JStr mem), (''cpu'', JStr cpu)])]"

definition job :: "string \<Rightarrow> int \<Rightarrow> json \<Rightarrow> json" where
  "job name backoff c =
     JObj [(''apiVersion'', JStr ''batch/v1''), (''kind'', JStr ''Job''), (''metadata'', metadata name),
       (''spec'', JObj
         [(''backoffLimit'', JNum backoff),
          (''template'', JObj
            [(''spec'', JObj [(''restartPolicy'', JStr ''OnFailure''), (''containers'', JArr [c])])])])]"

definition bash :: json where
  "bash = JArr [JStr ''bash'', JStr ''-c'']"

section \<open>Secrets\<close>

definition audit_url :: "string \<Rightarrow> string \<Rightarrow> cluster_props \<Rightarrow> string" where
  "audit_url role pw p =
     ''postgres://'' @ role @ '':'' @ pw @ ''@'' @ dbEndpoint p @ '':5432/audit?sslmode=require''"

definition appSecret :: "cluster_props \<Rightarrow> json" where
  "appSecret p =
     JObj [(''apiVersion'', JStr ''v1''), (''kind'', JStr ''Secret''),
       (''metadata'', metadata ''concordia-secrets''), (''type'', JStr ''Opaque''),
       (''stringData'', JObj
         [(''JWT_SECRET'', JStr (jwtSecret p)), (''DB_USERNAME'', JStr (dbUsername p)),
          (''DB_PASSWORD'', JStr (dbPassword p)),
          (''AUDIT_DB_WRITER_URL'', JStr (audit_url ''audit_writer'' (auditWriterPassword p) p)),
          (''AUDIT_DB_READER_URL'', JStr (audit_url ''audit_reader'' (auditReaderPassword p) p))])]"

definition tlsSecret :: "(string \<Rightarrow> string) \<Rightarrow> cluster_props \<Rightarrow> json" where
  "tlsSecret file p =
     JObj [(''apiVersion'', JStr ''v1''), (''kind'', JStr ''Secret''), (''metadata'', metadata ''tls-certs''),
       (''type'', JStr ''Opaque''),
       (''stringData'', JObj
         [(''server.crt'', JStr (file (in_repo p ''infra/certs/server.crt''))),
          (''server.key'', JStr (file (in_repo p ''infra/certs/server.key'')))])]"

section \<open>The services\<close>

definition jdbc_url :: "cluster_props \<Rightarrow> string \<Rightarrow> string" where
  "jdbc_url p db = ''jdbc:postgresql://'' @ dbEndpoint p @ '':5432/'' @ db"

definition authDeployment :: "(string \<Rightarrow> string) \<Rightarrow> cluster_props \<Rightarrow> json" where
  "authDeployment uri p = deployment ''auth'' (uri ''AuthImage'') 8081
     [text_value ''SERVER_PORT'' ''8081'',
      text_value ''SPRING_DATASOURCE_URL'' (jdbc_url p ''auth_db''),
      from_secret ''SPRING_DATASOURCE_USERNAME'' ''DB_USERNAME'',
      from_secret ''SPRING_DATASOURCE_PASSWORD'' ''DB_PASSWORD'',
      from_secret ''JWT_SECRET'' ''JWT_SECRET'',
      text_value ''SPRING_KAFKA_BOOTSTRAP_SERVERS'' (kafkaBootstrap p)]
     (no_extra\<lparr>healthPath := Some ''/health'', startupDelay := Some 60,
       replicas := Some (authReplicas p), resources := Some (requests ''768Mi'' ''250m'')\<rparr>)"

definition gatewayEnv :: "cluster_props \<Rightarrow> json list" where
  "gatewayEnv p =
     [text_value ''GATEWAY_PORT'' ''8080'', from_secret ''JWT_SECRET'' ''JWT_SECRET'',
      text_value ''TLS_ENABLED'' ''false'', text_value ''AUTH_URL'' ''http://auth:8081'',
      text_value ''KAFKA_BROKERS'' (kafkaBootstrap p), text_value ''REDIS_ADDR'' (redisEndpoint p),
      text_value ''GATEWAY_WS_BACKPLANE'' (if 1 < gatewayReplicas p then ''true'' else ''false'')] @
     (case truthy (appOrigin p) of None \<Rightarrow> [] | Some o' \<Rightarrow> [text_value ''ALLOWED_ORIGINS'' o'])"

definition gatewayDeployment :: "(string \<Rightarrow> string) \<Rightarrow> cluster_props \<Rightarrow> json" where
  "gatewayDeployment uri p = deployment ''gateway'' (uri ''GatewayImage'') 8080 (gatewayEnv p)
     (no_extra\<lparr>healthPath := Some ''/health'', startupDelay := Some 10,
       replicas := Some (gatewayReplicas p)\<rparr>)"

definition webDeployment :: "(string \<Rightarrow> string) \<Rightarrow> json" where
  "webDeployment uri = deployment ''web-app'' (uri ''WebImage'') 3000 []
     (no_extra\<lparr>healthPath := Some ''/'', startupDelay := Some 5,
       resources := Some (requests ''512Mi'' ''100m'')\<rparr>)"

definition serversDeployment :: "(string \<Rightarrow> string) \<Rightarrow> cluster_props \<Rightarrow> json" where
  "serversDeployment uri p = deployment ''servers'' (uri ''ServersImage'') 8082
     [text_value ''SERVER_PORT'' ''8082'', text_value ''GRPC_PORT'' ''50051'',
      text_value ''SPRING_DATASOURCE_URL'' (jdbc_url p ''servers_db''),
      from_secret ''SPRING_DATASOURCE_USERNAME'' ''DB_USERNAME'',
      from_secret ''SPRING_DATASOURCE_PASSWORD'' ''DB_PASSWORD'',
      from_secret ''JWT_SECRET'' ''JWT_SECRET'',
      text_value ''SPRING_KAFKA_BOOTSTRAP_SERVERS'' (kafkaBootstrap p)]
     (no_extra\<lparr>healthPath := Some ''/health'', startupDelay := Some 60,
       x_ports := Some [containerPort 8082, containerPort 50051],
       resources := Some (requests ''768Mi'' ''250m'')\<rparr>)"

definition presenceDeployment :: "(string \<Rightarrow> string) \<Rightarrow> cluster_props \<Rightarrow> json" where
  "presenceDeployment uri p = deployment ''presence'' (uri ''PresenceImage'') 8086
     [text_value ''PRESENCE_PORT'' ''8086'', text_value ''REDIS_ADDR'' (redisEndpoint p),
      from_secret ''JWT_SECRET'' ''JWT_SECRET'']
     (no_extra\<lparr>healthPath := Some ''/health'', startupDelay := Some 10\<rparr>)"

definition auditDeployment :: "(string \<Rightarrow> string) \<Rightarrow> cluster_props \<Rightarrow> json" where
  "auditDeployment uri p = deployment ''audit'' (uri ''AuditImage'') 8087
     [text_value ''AUDIT_PORT'' ''8087'', text_value ''KAFKA_BROKERS'' (kafkaBootstrap p),
      text_value ''AUDIT_TOPIC'' ''audit.events'',
      from_secret ''AUDIT_DB_WRITER_URL'' ''AUDIT_DB_WRITER_URL'',
      from_secret ''AUDIT_DB_READER_URL'' ''AUDIT_DB_READER_URL'',
      from_secret ''JWT_SECRET'' ''JWT_SECRET'']
     (no_extra\<lparr>healthPath := Some ''/health'', startupDelay := Some 20\<rparr>)"

definition chatDeployment :: "(string \<Rightarrow> string) \<Rightarrow> cluster_props \<Rightarrow> json" where
  "chatDeployment uri p = deployment ''chat'' (uri ''ChatImage'') 8083
     [text_value ''CHAT_PORT'' ''8083'', text_value ''CASSANDRA_HOST'' ''cassandra'',
      text_value ''CASSANDRA_KEYSPACE'' ''discord_chat'',
      text_value ''KAFKA_BROKERS'' (kafkaBootstrap p),
      text_value ''SERVERS_GRPC_ADDR'' ''http://servers:50051'',
      text_value ''SERVERS_HTTP_ADDR'' ''http://servers:8082'',
      text_value ''PRESENCE_HTTP_ADDR'' ''http://presence:8086'',
      text_value ''GATEWAY_INTERNAL_PUSH_URL'' ''http://gateway:8080/internal/push'',
      from_secret ''JWT_SECRET'' ''JWT_SECRET'', text_value ''CHAT_CACHE_ENABLED'' ''true'',
      text_value ''CHAT_CACHE_REDIS_ADDR'' (''redis://'' @ cacheRedisEndpoint p),
      text_value ''CHAT_CACHE_TTL_SECONDS'' ''5'']
     (no_extra\<lparr>healthPath := Some ''/health'', startupDelay := Some 20\<rparr>)"

definition voiceDeployment :: "(string \<Rightarrow> string) \<Rightarrow> cluster_props \<Rightarrow> json" where
  "voiceDeployment uri p = deployment ''voice'' (uri ''VoiceImage'') 8084
     [text_value ''VOICE_PORT'' ''8084'', text_value ''REDIS_ADDR'' (''redis://'' @ redisEndpoint p),
      text_value ''GRPC_ADDR'' ''servers:50051'', text_value ''KAFKA_BROKERS'' (kafkaBootstrap p),
      from_secret ''JWT_SECRET'' ''JWT_SECRET'']
     (no_extra\<lparr>healthPath := Some ''/health'', startupDelay := Some 15\<rparr>)"

definition proxyDeployment :: "(string \<Rightarrow> string) \<Rightarrow> cluster_props \<Rightarrow> json" where
  "proxyDeployment uri p = deployment ''reverse-proxy'' (uri ''ProxyImage'') 443
     [text_value ''SECURITY_SECURE_CHANNEL'' ''true'',
      text_value ''API_RATE_LIMIT'' (apiRateLimit p),
      text_value ''API_RATE_BURST'' (apiRateBurst p)]
     (no_extra\<lparr>x_ports := Some [containerPort 80, containerPort 443, containerPort 8088],
       volumeMounts := Some (JArr [JObj [(''name'', JStr ''certs''), (''mountPath'', JStr ''/certs''),
         (''readOnly'', JBool True)]]),
       volumes := Some (JArr [JObj [(''name'', JStr ''certs''),
         (''secret'', JObj [(''secretName'', JStr ''tls-certs'')])]])\<rparr>)"

section \<open>Jobs and the message store\<close>

definition kafkaTopics :: "string list" where
  "kafkaTopics = [''user-registered'', ''message-created'', ''mention'', ''audit.events'']"

definition create_topic :: "string \<Rightarrow> string" where
  "create_topic t =
     ''kafka-topics.sh --bootstrap-server \"$KAFKA\" --create --if-not-exists --topic '' @ t @
     '' --partitions 1 --replication-factor 2''"

definition kafkaTopicInit :: "cluster_props \<Rightarrow> json" where
  "kafkaTopicInit p = job ''kafka-topic-init'' 20
     (JObj [(''name'', JStr ''init''), (''image'', JStr ''bitnamilegacy/kafka:3.8''), (''command'', bash),
        (''args'', JArr [JStr (join_with '' && '' (map create_topic kafkaTopics) @
                               '' && echo \"topics ready\"'')]),
        (''env'', JArr [text_value ''KAFKA'' (kafkaBootstrap p)])])"

definition dbInitLines :: "string list" where
  "dbInitLines =
     [''set -e'',
      ''for db in servers_db audit; do'',
      ''  psql -tc \"SELECT 1 FROM pg_database WHERE datname='$db'\" | grep -q 1 || psql -c \"CREATE DATABASE $db\"'',
      ''done'',
      ''psql -d audit -c \"CREATE ROLE audit_writer LOGIN PASSWORD '$AUDIT_WRITER_PASSWORD'\" || true'',
      ''psql -d audit -c \"ALTER ROLE audit_writer LOGIN PASSWORD '$AUDIT_WRITER_PASSWORD'\"'',
      ''psql -d audit -c \"CREATE ROLE audit_reader LOGIN PASSWORD '$AUDIT_READER_PASSWORD'\" || true'',
      ''psql -d audit -c \"ALTER ROLE audit_reader LOGIN PASSWORD '$AUDIT_READER_PASSWORD'\"'',
      ''psql -d audit -v ON_ERROR_STOP=1 <<'SQL'' @ [CHR 0x27],
      ''CREATE TABLE IF NOT EXISTS audit_events ('',
      ''  seq BIGSERIAL PRIMARY KEY,'',
      ''  event_id UUID NOT NULL UNIQUE,'',
      ''  event_type TEXT NOT NULL,'',
      ''  timestamp TEXT NOT NULL,'',
      ''  actor JSONB NOT NULL,'',
      ''  resource JSONB,'',
      ''  outcome TEXT NOT NULL,'',
      ''  metadata JSONB,'',
      ''  prev_hash TEXT,'',
      ''  hash TEXT NOT NULL,'',
      ''  received_at TIMESTAMPTZ NOT NULL DEFAULT now()'',
      '');'',
      ''CREATE INDEX IF NOT EXISTS idx_audit_type ON audit_events (event_type);'',
      ''CREATE INDEX IF NOT EXISTS idx_audit_actor ON audit_events ((actor->>'user_id'));'',
      ''CREATE INDEX IF NOT EXISTS idx_audit_ts ON audit_events (timestamp);'',
      ''GRANT USAGE ON SCHEMA public TO audit_writer;'',
      ''GRANT INSERT, SELECT ON audit_events TO audit_writer;'',
      ''GRANT USAGE, SELECT ON SEQUENCE audit_events_seq_seq TO audit_writer;'',
      ''GRANT USAGE ON SCHEMA public TO audit_reader;'',
      ''GRANT SELECT ON audit_events TO audit_reader;'',
      ''SQL'',
      ''echo \"db-init done\"'']"

definition dbInitScript :: string where
  "dbInitScript = join_with [CHR 0x0A] dbInitLines"

definition dbInit :: "cluster_props \<Rightarrow> json" where
  "dbInit p = job ''db-init'' 20
     (JObj [(''name'', JStr ''init''), (''image'', JStr ''postgres:16''), (''command'', bash),
        (''args'', JArr [JStr dbInitScript]),
        (''env'', JArr
           [text_value ''PGHOST'' (dbEndpoint p), text_value ''PGPORT'' ''5432'',
            text_value ''PGUSER'' (dbUsername p), from_secret ''PGPASSWORD'' ''DB_PASSWORD'',
            text_value ''PGDATABASE'' ''auth_db'', text_value ''PGSSLMODE'' ''require'',
            text_value ''AUDIT_WRITER_PASSWORD'' (auditWriterPassword p),
            text_value ''AUDIT_READER_PASSWORD'' (auditReaderPassword p)])])"

definition storageClass :: json where
  "storageClass =
     JObj [(''apiVersion'', JStr ''storage.k8s.io/v1''), (''kind'', JStr ''StorageClass''),
       (''metadata'', JObj [(''name'', JStr ''gp3''),
          (''annotations'', JObj [(''storageclass.kubernetes.io/is-default-class'', JStr ''true'')])]),
       (''provisioner'', JStr ''ebs.csi.aws.com''), (''volumeBindingMode'', JStr ''WaitForFirstConsumer''),
       (''parameters'', JObj [(''type'', JStr ''gp3'')])]"

definition k8s_namespace :: json where
  "k8s_namespace = JObj [(''apiVersion'', JStr ''v1''), (''kind'', JStr ''Namespace''),
     (''metadata'', JObj [(''name'', JStr NS)])]"

definition cassandraContainer :: json where
  "cassandraContainer =
     JObj [(''name'', JStr ''cassandra''), (''image'', JStr ''cassandra:4''),
       (''ports'', JArr [JObj [(''containerPort'', JNum 9042), (''name'', JStr ''cql'')]]),
       (''env'', JArr [text_value ''CASSANDRA_CLUSTER_NAME'' ''concordia'',
          text_value ''MAX_HEAP_SIZE'' ''1024M'', text_value ''HEAP_NEWSIZE'' ''200M'']),
       (''resources'', requests ''1Gi'' ''250m''),
       (''readinessProbe'', JObj
          [(''exec'', JObj [(''command'', JArr [JStr ''bash'', JStr ''-c'',
              JStr (''cqlsh -e 'describe cluster'' @ [CHR 0x27])])]),
           (''initialDelaySeconds'', JNum 60), (''periodSeconds'', JNum 15),
           (''timeoutSeconds'', JNum 10), (''failureThreshold'', JNum 30)]),
       (''volumeMounts'', JArr [JObj [(''name'', JStr ''data''), (''mountPath'', JStr ''/var/lib/cassandra'')]])]"

definition cassandraStatefulSet :: json where
  "cassandraStatefulSet =
     JObj [(''apiVersion'', JStr ''apps/v1''), (''kind'', JStr ''StatefulSet''),
       (''metadata'', metadata ''cassandra''),
       (''spec'', JObj
         [(''serviceName'', JStr ''cassandra''), (''replicas'', JNum 1),
          (''selector'', JObj [(''matchLabels'', labels ''cassandra'')]),
          (''template'', JObj
            [(''metadata'', JObj [(''labels'', labels ''cassandra'')]),
             (''spec'', JObj [(''terminationGracePeriodSeconds'', JNum 120),
                (''containers'', JArr [cassandraContainer])])]),
          (''volumeClaimTemplates'', JArr [JObj
            [(''metadata'', JObj [(''name'', JStr ''data'')]),
             (''spec'', JObj [(''accessModes'', JArr [JStr ''ReadWriteOnce'']),
                (''storageClassName'', JStr ''gp3''),
                (''resources'', JObj [(''requests'', JObj [(''storage'', JStr ''10Gi'')])])])]])])]"

definition cassandraService :: json where
  "cassandraService =
     JObj [(''apiVersion'', JStr ''v1''), (''kind'', JStr ''Service''), (''metadata'', metadata ''cassandra''),
       (''spec'', JObj [(''clusterIP'', JStr ''None''), (''selector'', labels ''cassandra''),
          (''ports'', JArr [service_port 9042 9042])])]"

definition cassandraInit :: json where
  "cassandraInit = job ''cassandra-init'' 30
     (JObj [(''name'', JStr ''init''), (''image'', JStr ''cassandra:4''), (''command'', bash),
        (''args'', JArr [JStr (''cqlsh cassandra -e \"CREATE KEYSPACE IF NOT EXISTS discord_chat WITH '' @
           ''replication = {'class':'SimpleStrategy','replication_factor':1};\" && echo keyspace-ready'')])])"

section \<open>The workloads\<close>

definition serversService :: json where
  "serversService = service ''servers'' 8082 8082
     (no_opts\<lparr>s_ports := Some [named_port ''http'' 8082 8082, named_port ''grpc'' 50051 50051]\<rparr>)"

definition proxyService :: json where
  "proxyService = service ''reverse-proxy'' 443 443
     \<lparr>s_type = Some ''LoadBalancer'',
      annotations = Some (JObj
        [(''service.beta.kubernetes.io/aws-load-balancer-type'', JStr ''nlb''),
         (''service.beta.kubernetes.io/aws-load-balancer-scheme'', JStr ''internet-facing'')]),
      s_ports = Some [named_port ''http'' 80 80, named_port ''https'' 443 443]\<rparr>"

definition workloads :: "(string \<Rightarrow> string) \<Rightarrow> (string \<Rightarrow> string) \<Rightarrow> cluster_props \<Rightarrow> json list" where
  "workloads uri file p =
     [appSecret p, tlsSecret file p, kafkaTopicInit p, dbInit p, cassandraStatefulSet, cassandraService,
      cassandraInit, authDeployment uri p, service ''auth'' 8081 8081 no_opts,
      serversDeployment uri p, serversService,
      presenceDeployment uri p, service ''presence'' 8086 8086 no_opts,
      auditDeployment uri p, service ''audit'' 8087 8087 no_opts,
      voiceDeployment uri p, service ''voice'' 8084 8084 no_opts,
      chatDeployment uri p, service ''chat'' 8083 8083 no_opts,
      gatewayDeployment uri p, service ''gateway'' 8080 8080 no_opts,
      webDeployment uri, service ''web-app'' 3000 3000 no_opts,
      proxyDeployment uri p, proxyService]"

text \<open>All that is applied to the cluster.\<close>

definition manifests :: "(string \<Rightarrow> string) \<Rightarrow> (string \<Rightarrow> string) \<Rightarrow> cluster_props \<Rightarrow> json list" where
  "manifests uri file p = storageClass # k8s_namespace # workloads uri file p"

end
