(* ===== verification/Topology.thy ===== *)
theory Topology
  imports Cluster
begin

text \<open>
  What the manifests of \<open>Cluster\<close> promise together: the references from one to another, read
  off the JSON objects by path, and the topology they set up.
\<close>

section \<open>Reading manifests\<close>

fun field :: "string \<Rightarrow> json \<Rightarrow> json option" where
  "field k (JObj fs) = map_of fs k"
| "field k _ = None"

fun at :: "string list \<Rightarrow> json \<Rightarrow> json option" where
  "at [] j = Some j"
| "at (k # ks) j = (case field k j of None \<Rightarrow> None | Some j' \<Rightarrow> at ks j')"

fun items :: "json option \<Rightarrow> json list" where
  "items (Some (JArr js)) = js"
| "items _ = []"

fun text_of :: "json option \<Rightarrow> string option" where
  "text_of (Some (JStr s)) = Some s"
| "text_of _ = None"

fun num_of :: "json option \<Rightarrow> int option" where
  "num_of (Some (JNum n)) = Some n"
| "num_of _ = None"

definition kind_of :: "json \<Rightarrow> string option" where
  "kind_of m = text_of (at [''kind''] m)"

definition name_of :: "json \<Rightarrow> string option" where
  "name_of m = text_of (at [''metadata'', ''name''] m)"

definition namespace_of :: "json \<Rightarrow> string option" where
  "namespace_of m = text_of (at [''metadata'', ''namespace''] m)"

definition pod_label :: "json \<Rightarrow> string option" where
  "pod_label m = text_of (at [''spec'', ''template'', ''metadata'', ''labels'', ''app''] m)"

definition containers :: "json \<Rightarrow> json list" where
  "containers m = items (at [''spec'', ''template'', ''spec'', ''containers''] m)"

definition container_ports :: "json \<Rightarrow> int list" where
  "container_ports m =
     concat (map (\<lambda>c. List.map_filter (\<lambda>q. num_of (field ''containerPort'' q)) (items (field ''ports'' c)))
       (containers m))"

definition images_of :: "json \<Rightarrow> string list" where
  "images_of m = List.map_filter (\<lambda>c. text_of (field ''image'' c)) (containers m)"

definition environment :: "json \<Rightarrow> json list" where
  "environment m = concat (map (\<lambda>c. items (field ''env'' c)) (containers m))"

definition secret_refs :: "json \<Rightarrow> (string option \<times> string option) list" where
  "secret_refs m =
     List.map_filter (\<lambda>v. map_option (\<lambda>r. (text_of (field ''name'' r), text_of (field ''key'' r)))
         (at [''valueFrom'', ''secretKeyRef''] v)) (environment m)"

definition env_text :: "string \<Rightarrow> json \<Rightarrow> string option" where
  "env_text n m =
     (case List.find (\<lambda>v. text_of (field ''name'' v) = Some n) (environment m) of
        None \<Rightarrow> None | Some v \<Rightarrow> text_of (field ''value'' v))"

definition mounts :: "json \<Rightarrow> string option list" where
  "mounts m = concat (map (\<lambda>c. map (\<lambda>v. text_of (field ''name'' v)) (items (field ''volumeMounts'' c))) (containers m))"

definition pod_volumes :: "json \<Rightarrow> json list" where
  "pod_volumes m = items (at [''spec'', ''template'', ''spec'', ''volumes''] m)"

definition claims :: "json \<Rightarrow> json list" where
  "claims m = items (at [''spec'', ''volumeClaimTemplates''] m)"

definition service_target :: "json \<Rightarrow> string option" where
  "service_target s = text_of (at [''spec'', ''selector'', ''app''] s)"

definition service_ports :: "json \<Rightarrow> (int \<times> int) list" where
  "service_ports s =
     List.map_filter (\<lambda>q. case (num_of (field ''port'' q), num_of (field ''targetPort'' q)) of
         (Some p, Some t) \<Rightarrow> Some (p, t) | _ \<Rightarrow> None) (items (at [''spec'', ''ports''] s))"

definition of_kind :: "string \<Rightarrow> json list \<Rightarrow> json list" where
  "of_kind k ms = filter (\<lambda>m. kind_of m = Some k) ms"

definition pods :: "json list \<Rightarrow> json list" where
  "pods ms = filter (\<lambda>m. kind_of m = Some ''Deployment'' \<or> kind_of m = Some ''StatefulSet'') ms"

section \<open>The contract\<close>

text \<open>A Service is backed when one workload carries its label and listens on every target port.\<close>

definition backed :: "json list \<Rightarrow> json \<Rightarrow> bool" where
  "backed ms s =
     (case filter (\<lambda>m. pod_label m \<noteq> None \<and> pod_label m = service_target s) (pods ms) of
        [m] \<Rightarrow> service_ports s \<noteq> [] \<and> list_all (\<lambda>(p, t). t \<in> set (container_ports m)) (service_ports s)
      | _ \<Rightarrow> False)"

definition secret_keys :: "json \<Rightarrow> string list" where
  "secret_keys m = (case field ''stringData'' m of Some (JObj fs) \<Rightarrow> map fst fs | _ \<Rightarrow> [])"

definition has_secret :: "json list \<Rightarrow> string option \<times> string option \<Rightarrow> bool" where
  "has_secret ms r =
     list_ex (\<lambda>s. name_of s \<noteq> None \<and> name_of s = fst r \<and> snd r \<in> Some ` set (secret_keys s))
       (of_kind ''Secret'' ms)"

definition volume_ok :: "json list \<Rightarrow> json \<Rightarrow> bool" where
  "volume_ok ms v =
     list_ex (\<lambda>s. name_of s \<noteq> None \<and> name_of s = text_of (at [''secret'', ''secretName''] v))
       (of_kind ''Secret'' ms)"

definition claim_ok :: "json list \<Rightarrow> json \<Rightarrow> bool" where
  "claim_ok ms c =
     list_ex (\<lambda>s. name_of s \<noteq> None \<and> name_of s = text_of (at [''spec'', ''storageClassName''] c))
       (of_kind ''StorageClass'' ms)"

definition mounts_ok :: "json \<Rightarrow> bool" where
  "mounts_ok m =
     list_all (\<lambda>n. n \<noteq> None \<and> (n \<in> set (map (\<lambda>v. text_of (field ''name'' v)) (pod_volumes m)) \<or>
         n \<in> set (map (\<lambda>c. text_of (at [''metadata'', ''name''] c)) (claims m)))) (mounts m)"

text \<open>Every reference a manifest makes is to something that is there.\<close>

definition well_referenced :: "json list \<Rightarrow> json \<Rightarrow> bool" where
  "well_referenced ms m \<longleftrightarrow>
     list_all (has_secret ms) (secret_refs m) \<and> mounts_ok m \<and>
     list_all (volume_ok ms) (pod_volumes m) \<and> list_all (claim_ok ms) (claims m) \<and>
     (kind_of m = Some ''Service'' \<longrightarrow> backed ms m)"

section \<open>The building blocks\<close>

lemma nullish_simps [simp]: "nullish None d = d" "nullish (Some x) d = x"
  by (simp_all add: nullish_def)

declare List.map_filter_simps [simp]

lemmas reading = kind_of_def name_of_def namespace_of_def pod_label_def containers_def container_ports_def
  images_of_def environment_def secret_refs_def mounts_def pod_volumes_def claims_def
  service_target_def service_ports_def secret_keys_def List.map_filter_def

lemma read_deployment [simp]:
  "kind_of (deployment n i q env x) = Some ''Deployment''"
  "name_of (deployment n i q env x) = Some n"
  "namespace_of (deployment n i q env x) = Some NS"
  "pod_label (deployment n i q env x) = Some n"
  "container_ports (deployment n i q env x) =
     List.map_filter (\<lambda>q. num_of (field ''containerPort'' q)) (nullish (x_ports x) [containerPort q])"
  "images_of (deployment n i q env x) = [i]"
  "environment (deployment n i q env x) = env"
  "pod_volumes (deployment n i q env x) = items (volumes x)"
  "claims (deployment n i q env x) = []"
  "mounts (deployment n i q env x) = map (\<lambda>v. text_of (field ''name'' v)) (items (volumeMounts x))"
  by (simp_all add: reading deployment_def container_def labels_def opt_field_def probes_def
      split: option.split)

lemma read_service [simp]:
  "kind_of (service n q t os) = Some ''Service''"
  "name_of (service n q t os) = Some n"
  "namespace_of (service n q t os) = Some NS"
  "pod_label (service n q t os) = None"
  "environment (service n q t os) = []"
  "pod_volumes (service n q t os) = []"
  "claims (service n q t os) = []"
  "mounts (service n q t os) = []"
  "service_target (service n q t os) = Some n"
  "service_ports (service n q t os) =
     List.map_filter (\<lambda>q. case (num_of (field ''port'' q), num_of (field ''targetPort'' q)) of
         (Some p, Some t) \<Rightarrow> Some (p, t) | _ \<Rightarrow> None) (nullish (s_ports os) [service_port q t])"
  by (simp_all add: reading service_def labels_def opt_field_def split: option.split)

lemma read_job [simp]:
  "kind_of (job n b c) = Some ''Job''"
  "name_of (job n b c) = Some n"
  "namespace_of (job n b c) = Some NS"
  "pod_label (job n b c) = None"
  "environment (job n b c) = items (field ''env'' c)"
  "pod_volumes (job n b c) = []"
  "claims (job n b c) = []"
  "mounts (job n b c) = map (\<lambda>v. text_of (field ''name'' v)) (items (field ''volumeMounts'' c))"
  by (simp_all add: reading job_def metadata_def)

lemma read_env [simp]:
  "field ''name'' (text_value n v) = Some (JStr n)" "field ''name'' (from_secret n k) = Some (JStr n)"
  "field ''value'' (text_value n v) = Some (JStr v)" "field ''value'' (from_secret n k) = None"
  "field ''valueFrom'' (text_value n v) = None" "field ''valueFrom'' (from_secret n k) = Some (secretRef k)"
  "field ''secretKeyRef'' (secretRef k) = Some (JObj [(''name'', JStr ''concordia-secrets''), (''key'', JStr k)])"
  by (simp_all add: text_value_def from_secret_def secretRef_def)

lemma read_ports [simp]:
  "field ''containerPort'' (containerPort n) = Some (JNum n)"
  "field ''port'' (service_port a b) = Some (JNum a)" "field ''targetPort'' (service_port a b) = Some (JNum b)"
  "field ''port'' (named_port nm a b) = Some (JNum a)" "field ''targetPort'' (named_port nm a b) = Some (JNum b)"
  by (simp_all add: containerPort_def service_port_def named_port_def)

section \<open>The manifests of the stack\<close>

lemmas the_deployments = authDeployment_def gatewayDeployment_def webDeployment_def serversDeployment_def
  presenceDeployment_def auditDeployment_def chatDeployment_def voiceDeployment_def proxyDeployment_def

lemmas the_services = serversService_def proxyService_def no_opts_def

lemmas the_jobs = kafkaTopicInit_def dbInit_def cassandraInit_def

lemma read_secrets [simp]:
  "kind_of (appSecret p) = Some ''Secret''" "name_of (appSecret p) = Some ''concordia-secrets''"
  "secret_keys (appSecret p) =
     [''JWT_SECRET'', ''DB_USERNAME'', ''DB_PASSWORD'', ''AUDIT_DB_WRITER_URL'', ''AUDIT_DB_READER_URL'']"
  "kind_of (tlsSecret f p) = Some ''Secret''" "name_of (tlsSecret f p) = Some ''tls-certs''"
  "secret_keys (tlsSecret f p) = [''server.crt'', ''server.key'']"
  by (simp_all add: reading appSecret_def tlsSecret_def metadata_def)

lemma read_cassandra [simp]:
  "kind_of cassandraStatefulSet = Some ''StatefulSet''" "name_of cassandraStatefulSet = Some ''cassandra''"
  "pod_label cassandraStatefulSet = Some ''cassandra''" "container_ports cassandraStatefulSet = [9042]"
  "kind_of cassandraService = Some ''Service''" "name_of cassandraService = Some ''cassandra''"
  "service_target cassandraService = Some ''cassandra''" "service_ports cassandraService = [(9042, 9042)]"
  "kind_of storageClass = Some ''StorageClass''" "name_of storageClass = Some ''gp3''"
  "kind_of k8s_namespace = Some ''Namespace''" "name_of k8s_namespace = Some NS"
  by (simp_all add: reading cassandraStatefulSet_def cassandraService_def cassandraContainer_def
      metadata_def labels_def service_port_def storageClass_def k8s_namespace_def)

text \<open>What there is to refer to.\<close>

lemma secrets_there:
  "of_kind ''Secret'' (manifests uri file p) = [appSecret p, tlsSecret file p]"
  by (simp add: manifests_def workloads_def of_kind_def the_deployments the_services the_jobs)

lemma storage_there: "of_kind ''StorageClass'' (manifests uri file p) = [storageClass]"
  by (simp add: manifests_def workloads_def of_kind_def the_deployments the_services the_jobs)

lemma pods_there:
  "pods (manifests uri file p) =
     [cassandraStatefulSet, authDeployment uri p, serversDeployment uri p, presenceDeployment uri p,
      auditDeployment uri p, voiceDeployment uri p, chatDeployment uri p, gatewayDeployment uri p,
      webDeployment uri, proxyDeployment uri p]"
  by (simp add: manifests_def workloads_def pods_def the_deployments the_services the_jobs)

lemma no_references [simp]:
  "environment (appSecret p) = []" "pod_volumes (appSecret p) = []" "claims (appSecret p) = []" "mounts (appSecret p) = []"
  "environment (tlsSecret f p) = []" "pod_volumes (tlsSecret f p) = []" "claims (tlsSecret f p) = []" "mounts (tlsSecret f p) = []"
  "environment storageClass = []" "pod_volumes storageClass = []" "claims storageClass = []" "mounts storageClass = []"
  "environment k8s_namespace = []" "pod_volumes k8s_namespace = []" "claims k8s_namespace = []" "mounts k8s_namespace = []"
  "environment cassandraService = []" "pod_volumes cassandraService = []" "claims cassandraService = []"
  "mounts cassandraService = []" "pod_volumes cassandraStatefulSet = []"
  by (simp_all add: reading appSecret_def tlsSecret_def storageClass_def k8s_namespace_def
      cassandraService_def cassandraStatefulSet_def metadata_def)

lemma cassandra_claim [simp]:
  "map (\<lambda>c. text_of (at [''metadata'', ''name''] c)) (claims cassandraStatefulSet) = [Some ''data'']"
  "map (\<lambda>c. text_of (at [''spec'', ''storageClassName''] c)) (claims cassandraStatefulSet) = [Some ''gp3'']"
  "mounts cassandraStatefulSet = [Some ''data'']" "secret_refs cassandraStatefulSet = []"
  by (simp_all add: reading cassandraStatefulSet_def cassandraContainer_def text_value_def)

lemma has_app_secret:
  "has_secret (manifests uri file p) (Some ''concordia-secrets'', Some k) \<longleftrightarrow>
     k \<in> set [''JWT_SECRET'', ''DB_USERNAME'', ''DB_PASSWORD'', ''AUDIT_DB_WRITER_URL'', ''AUDIT_DB_READER_URL'']"
  unfolding has_secret_def secrets_there by simp

lemma all_manifests:
  "(\<forall>m\<in>set (manifests uri file p). P m) \<longleftrightarrow>
     P storageClass \<and> P k8s_namespace \<and> P (appSecret p) \<and> P (tlsSecret file p) \<and> P (kafkaTopicInit p) \<and>
     P (dbInit p) \<and> P cassandraStatefulSet \<and> P cassandraService \<and> P cassandraInit \<and>
     P (authDeployment uri p) \<and> P (service ''auth'' 8081 8081 no_opts) \<and>
     P (serversDeployment uri p) \<and> P serversService \<and>
     P (presenceDeployment uri p) \<and> P (service ''presence'' 8086 8086 no_opts) \<and>
     P (auditDeployment uri p) \<and> P (service ''audit'' 8087 8087 no_opts) \<and>
     P (voiceDeployment uri p) \<and> P (service ''voice'' 8084 8084 no_opts) \<and>
     P (chatDeployment uri p) \<and> P (service ''chat'' 8083 8083 no_opts) \<and>
     P (gatewayDeployment uri p) \<and> P (service ''gateway'' 8080 8080 no_opts) \<and>
     P (webDeployment uri) \<and> P (service ''web-app'' 3000 3000 no_opts) \<and>
     P (proxyDeployment uri p) \<and> P proxyService"
  unfolding manifests_def workloads_def by simp

text \<open>The four kinds of reference, and the Services, each over all manifests.\<close>

lemma refs_resolve:
  "\<forall>m\<in>set (manifests uri file p). list_all (has_secret (manifests uri file p)) (secret_refs m)"
proof -
  have "list_all (has_secret (manifests uri file p)) (secret_refs cassandraStatefulSet)"
    by (simp only: cassandra_claim) simp
  then show ?thesis
    unfolding all_manifests
    by (simp add: has_app_secret secret_refs_def the_deployments the_services the_jobs gatewayEnv_def
        split: option.split)
qed

lemma mounts_resolve: "\<forall>m\<in>set (manifests uri file p). mounts_ok m"
proof -
  have "mounts_ok cassandraStatefulSet" by (simp only: mounts_ok_def cassandra_claim) simp
  then show ?thesis
    unfolding all_manifests by (simp add: mounts_ok_def the_deployments the_services the_jobs no_extra_def)
qed

lemma volumes_resolve:
  "\<forall>m\<in>set (manifests uri file p). list_all (volume_ok (manifests uri file p)) (pod_volumes m)"
  unfolding all_manifests volume_ok_def secrets_there
  by (simp add: the_deployments the_services the_jobs no_extra_def)

lemma claims_resolve:
  "\<forall>m\<in>set (manifests uri file p). list_all (claim_ok (manifests uri file p)) (claims m)"
proof -
  have "list_all (claim_ok (manifests uri file p)) (claims cassandraStatefulSet)"
    using cassandra_claim(2) unfolding claim_ok_def storage_there by (auto simp: list_all_iff)
  then show ?thesis
    unfolding all_manifests by (simp add: the_deployments the_services the_jobs)
qed

lemma services_backed:
  "\<forall>m\<in>set (manifests uri file p). kind_of m = Some ''Service'' \<longrightarrow> backed (manifests uri file p) m"
  unfolding backed_def pods_there all_manifests
  by (simp add: the_deployments the_services the_jobs no_extra_def)


section \<open>Addresses\<close>

text \<open>
  The host and port of an address, with or without a scheme, and whether a pod that uses it
  reaches a workload: cluster DNS resolves the name of a Service, which must offer the port.
\<close>

fun after_scheme :: "string \<Rightarrow> string option" where
  "after_scheme [] = None"
| "after_scheme (c # cs) =
     (if starts_with ''://'' (c # cs) then Some (drop 3 (c # cs)) else after_scheme cs)"

definition read_number :: "string \<Rightarrow> int" where
  "read_number ds = foldl (\<lambda>n c. n * 10 + (of_char c - 48)) 0 ds"

definition host_port :: "string \<Rightarrow> string \<times> int" where
  "host_port a =
     (let r = nullish (after_scheme a) a; h = takeWhile (\<lambda>c. c \<noteq> CHR 0x3A) r;
          ds = takeWhile (\<lambda>c. c \<in> set ''0123456789'') (drop (length h + 1) r)
      in (h, read_number ds))"

definition reaches :: "json list \<Rightarrow> string \<Rightarrow> bool" where
  "reaches ms a =
     (case host_port a of (h, q) \<Rightarrow>
        list_ex (\<lambda>s. name_of s = Some h \<and> list_ex (\<lambda>(q', t). q' = q) (service_ports s) \<and> backed ms s)
          (of_kind ''Service'' ms))"

text \<open>
  The gateway's upstreams (\<open>services/gateway/server.go\<close>, \<open>configFromEnv\<close>): a variable that is
  unset or empty has a default.
\<close>

definition gateway_upstreams :: "json \<Rightarrow> (string \<times> string) list" where
  "gateway_upstreams m =
     map (\<lambda>(n, k, d). (n, or_default (env_text k m) d))
       [(''auth'', ''AUTH_URL'', ''http://auth:8081''),
        (''servers'', ''SERVERS_URL'', ''http://servers:8082''),
        (''chat'', ''CHAT_URL'', ''http://chat:8083''),
        (''voice'', ''VOICE_URL'', ''http://voice:8084''),
        (''tips'', ''TIPS_URL'', ''http://tips:8085''),
        (''presence'', ''PRESENCE_URL'', ''http://presence:8086'')]"

text \<open>The addresses one workload's environment gives of another.\<close>

definition peer_addresses :: "(string \<Rightarrow> string) \<Rightarrow> cluster_props \<Rightarrow> string option list" where
  "peer_addresses uri p =
     [env_text ''AUTH_URL'' (gatewayDeployment uri p),
      env_text ''SERVERS_GRPC_ADDR'' (chatDeployment uri p),
      env_text ''SERVERS_HTTP_ADDR'' (chatDeployment uri p),
      env_text ''PRESENCE_HTTP_ADDR'' (chatDeployment uri p),
      env_text ''GATEWAY_INTERNAL_PUSH_URL'' (chatDeployment uri p),
      env_text ''GRPC_ADDR'' (voiceDeployment uri p)]"

lemma services_there:
  "of_kind ''Service'' (manifests uri file p) =
     [cassandraService, service ''auth'' 8081 8081 no_opts, serversService,
      service ''presence'' 8086 8086 no_opts, service ''audit'' 8087 8087 no_opts,
      service ''voice'' 8084 8084 no_opts, service ''chat'' 8083 8083 no_opts,
      service ''gateway'' 8080 8080 no_opts, service ''web-app'' 3000 3000 no_opts, proxyService]"
  by (simp add: manifests_def workloads_def of_kind_def the_deployments the_services the_jobs)

lemma reaches_iff:
  "reaches (manifests uri f p) a \<longleftrightarrow>
     host_port a \<in> set [(''cassandra'', 9042), (''auth'', 8081), (''servers'', 8082), (''servers'', 50051),
       (''presence'', 8086), (''audit'', 8087), (''voice'', 8084), (''chat'', 8083), (''gateway'', 8080),
       (''web-app'', 3000), (''reverse-proxy'', 80), (''reverse-proxy'', 443)]"
proof -
  have b: "\<forall>s\<in>set (of_kind ''Service'' (manifests uri f p)). backed (manifests uri f p) s"
    using services_backed [of uri f p] by (auto simp: of_kind_def)
  obtain h q where "host_port a = (h, q)" by (cases "host_port a")
  then have "reaches (manifests uri f p) a \<longleftrightarrow>
      list_ex (\<lambda>s. name_of s = Some h \<and> list_ex (\<lambda>(q', t). q' = q) (service_ports s))
        (of_kind ''Service'' (manifests uri f p))"
    using b by (auto simp: reaches_def list_ex_iff)
  also have "\<dots> \<longleftrightarrow> (h, q) \<in> set [(''cassandra'', 9042), (''auth'', 8081), (''servers'', 8082), (''servers'', 50051),
       (''presence'', 8086), (''audit'', 8087), (''voice'', 8084), (''chat'', 8083), (''gateway'', 8080),
       (''web-app'', 3000), (''reverse-proxy'', 80), (''reverse-proxy'', 443)]"
    unfolding services_there by (auto simp: the_services)
  finally show ?thesis using \<open>host_port a = (h, q)\<close> by simp
qed

lemma upstreams_configured:
  "gateway_upstreams (gatewayDeployment uri p) =
     [(''auth'', ''http://auth:8081''), (''servers'', ''http://servers:8082''), (''chat'', ''http://chat:8083''),
      (''voice'', ''http://voice:8084''), (''tips'', ''http://tips:8085''), (''presence'', ''http://presence:8086'')]"
  by (simp add: gateway_upstreams_def env_text_def gatewayDeployment_def gatewayEnv_def or_default_def
      split: option.split)

lemma peers_configured:
  "peer_addresses uri p =
     map Some [''http://auth:8081'', ''http://servers:50051'', ''http://servers:8082'', ''http://presence:8086'',
       ''http://gateway:8080/internal/push'', ''servers:50051'']"
  by (simp add: peer_addresses_def env_text_def gatewayDeployment_def gatewayEnv_def chatDeployment_def
      voiceDeployment_def)

lemma parsed_addresses:
  "map host_port [''http://auth:8081'', ''http://servers:50051'', ''http://servers:8082'', ''http://presence:8086'',
     ''http://gateway:8080/internal/push'', ''servers:50051'', ''http://chat:8083'', ''http://voice:8084'',
     ''http://tips:8085''] =
   [(''auth'', 8081), (''servers'', 50051), (''servers'', 8082), (''presence'', 8086), (''gateway'', 8080),
    (''servers'', 50051), (''chat'', 8083), (''voice'', 8084), (''tips'', 8085)]"
  by code_simp


section \<open>Replicas, probes and images\<close>

definition replicas_of :: "json \<Rightarrow> int option" where
  "replicas_of m = num_of (at [''spec'', ''replicas''] m)"

lemma replicas_deployment [simp]:
  "replicas_of (deployment n i q env x) = Some (nullish (replicas x) 1)"
  by (simp add: replicas_of_def deployment_def)

text \<open>Pushes reach every socket however many gateways run: the Redis backplane is switched on
  exactly when there is more than one replica.\<close>

theorem backplane_iff_scaled:
  "replicas_of (gatewayDeployment uri p) = Some (gatewayReplicas p) \<and>
   env_text ''GATEWAY_WS_BACKPLANE'' (gatewayDeployment uri p) =
     Some (if 1 < gatewayReplicas p then ''true'' else ''false'') \<and>
   env_text ''ALLOWED_ORIGINS'' (gatewayDeployment uri p) = truthy (appOrigin p)"
  by (simp add: env_text_def gatewayDeployment_def gatewayEnv_def split: option.split)

definition probe_of :: "string \<Rightarrow> json \<Rightarrow> (string \<times> int \<times> int \<times> int \<times> int) option" where
  "probe_of k c =
     (case field k c of
        None \<Rightarrow> None
      | Some q \<Rightarrow>
          (case (text_of (at [''httpGet'', ''path''] q), num_of (at [''httpGet'', ''port''] q),
                 num_of (field ''initialDelaySeconds'' q), num_of (field ''periodSeconds'' q),
                 num_of (field ''failureThreshold'' q)) of
             (Some a, Some b, Some d, Some s, Some t) \<Rightarrow> Some (a, b, d, s, t)
           | _ \<Rightarrow> None))"

text \<open>
  A probed workload is asked for its health on a port it listens on; it is restarted only
  after it has failed for a minute and a half, and the first such check comes half a minute
  after the first readiness check.
\<close>

definition probed :: "json \<Rightarrow> bool" where
  "probed m =
     list_all (\<lambda>c. case (probe_of ''readinessProbe'' c, probe_of ''livenessProbe'' c) of
         (Some (a, b, d, s, t), Some (a', b', d', s', t')) \<Rightarrow>
           a' = a \<and> b' = b \<and> b \<in> set (container_ports m) \<and> 0 < d \<and> d' = d + 30 \<and> 90 \<le> s' * t'
       | _ \<Rightarrow> False) (containers m)"

lemma read_container:
  "containers (deployment n i q env x) = [container n i q env x]"
  by (simp add: reading deployment_def)

lemma read_probes:
  assumes "truthy (healthPath x) = Some h"
  shows "probe_of ''readinessProbe'' (container n i q env x) = Some (h, q, nullish (startupDelay x) 10, 10, 30)"
    and "probe_of ''livenessProbe'' (container n i q env x) = Some (h, q, nullish (startupDelay x) 10 + 30, 15, 6)"
  using assms by (auto simp: probe_of_def container_def probes_def probe_def opt_field_def split: option.split)

lemma read_no_probes:
  "truthy (healthPath x) = None \<Longrightarrow> probe_of ''livenessProbe'' (container n i q env x) = None"
  "truthy (healthPath x) = None \<Longrightarrow> probe_of ''readinessProbe'' (container n i q env x) = None"
  by (auto simp: probe_of_def container_def probes_def opt_field_def split: option.split)

text \<open>Every deployed service but the reverse proxy has both probes, on a port it listens on;
  liveness is first checked half a minute after readiness and tolerates a minute and a half of
  failures. The reverse proxy has neither.\<close>

theorem deployments_probed:
  "map name_of (filter (\<lambda>m. \<not> probed m) (of_kind ''Deployment'' (manifests uri f p))) =
     [Some ''reverse-proxy'']"
proof -
  have "of_kind ''Deployment'' (manifests uri f p) =
     [authDeployment uri p, serversDeployment uri p, presenceDeployment uri p,
      auditDeployment uri p, voiceDeployment uri p, chatDeployment uri p, gatewayDeployment uri p,
      webDeployment uri, proxyDeployment uri p]"
    by (simp add: manifests_def workloads_def of_kind_def the_deployments the_services the_jobs)
  then show ?thesis
    by (simp add: probed_def the_deployments read_container read_probes read_no_probes no_extra_def)
qed

end
