(* ===== verification/Deploy.thy ===== *)
theory Deploy
  imports Topology
begin

text \<open>
  The rest of \<open>infra/cdk\<close>: the network (\<open>lib/network-construct.ts\<close>), the managed data plane
  (\<open>lib/data-construct.ts\<close>), the stack that joins them (\<open>lib/concordia-stack.ts\<close>) and the
  program that deploys it (\<open>bin/concordia.ts\<close>), with its secrets file. Addresses the cloud
  assigns are a parameter (\<open>cloud\<close>).
\<close>

section \<open>Network and data\<close>

datatype subnet_type = PUBLIC | PRIVATE_WITH_EGRESS

record subnet =
  subnet_name :: string
  subnet_kind :: subnet_type
  cidrMask :: nat

record vpc =
  maxAzs :: nat
  natGateways :: nat
  subnets :: "subnet list"

definition network :: vpc where
  "network =
     \<lparr>maxAzs = 2, natGateways = 1,
      subnets = [\<lparr>subnet_name = ''public'', subnet_kind = PUBLIC, cidrMask = 24\<rparr>,
                 \<lparr>subnet_name = ''private'', subnet_kind = PRIVATE_WITH_EGRESS, cidrMask = 24\<rparr>]\<rparr>"

text \<open>Security groups: the ports they admit from inside the VPC.\<close>

record security_group =
  sg_id :: string
  sg_description :: string
  admits :: "(int \<times> string) list"

definition security_groups :: "security_group list" where
  "security_groups =
     [\<lparr>sg_id = ''DbSg'', sg_description = ''Concordia RDS Postgres'',
       admits = [(5432, ''Postgres from within the VPC'')]\<rparr>,
      \<lparr>sg_id = ''RedisSg'', sg_description = ''Concordia ElastiCache Redis'',
       admits = [(6379, ''Redis from within the VPC'')]\<rparr>,
      \<lparr>sg_id = ''KafkaSg'', sg_description = ''Concordia MSK Kafka'',
       admits = [(9092, ''Kafka PLAINTEXT from within the VPC'')]\<rparr>]"

record postgres_instance =
  pg_version :: nat
  pg_subnets :: subnet_type
  pg_type :: "string \<times> string"
  databaseName :: string
  pg_username :: string
  pg_password :: string
  pg_groups :: "string list"
  allocatedStorage :: nat
  maxAllocatedStorage :: nat
  multiAz :: bool
  backupDays :: nat
  deleteAutomatedBackups :: bool
  destroyed_with_stack :: bool

definition postgres :: "string \<Rightarrow> string \<Rightarrow> postgres_instance" where
  "postgres username pw =
     \<lparr>pg_version = 16, pg_subnets = PRIVATE_WITH_EGRESS, pg_type = (''T3'', ''MICRO''),
      databaseName = ''auth_db'', pg_username = username, pg_password = pw, pg_groups = [''DbSg''],
      allocatedStorage = 20, maxAllocatedStorage = 50, multiAz = False, backupDays = 0,
      deleteAutomatedBackups = True, destroyed_with_stack = True\<rparr>"

record cache_cluster =
  cc_id :: string
  cc_engine :: string
  cacheNodeType :: string
  numCacheNodes :: nat
  cc_subnets :: subnet_type
  cc_groups :: "string list"

definition redis_clusters :: "cache_cluster list" where
  "redis_clusters =
     map (\<lambda>i. \<lparr>cc_id = i, cc_engine = ''redis'', cacheNodeType = ''cache.t3.micro'', numCacheNodes = 1,
                cc_subnets = PRIVATE_WITH_EGRESS, cc_groups = [''RedisSg'']\<rparr>) [''Redis'', ''CacheRedis'']"

record kafka_cluster =
  kf_name :: string
  kafkaVersion :: string
  numberOfBrokerNodes :: nat
  kf_type :: string
  clientSubnets :: subnet_type
  kf_groups :: "string list"
  volumeSize :: nat
  unauthenticated :: bool
  clientBroker :: string
  inCluster :: bool

definition kafka :: kafka_cluster where
  "kafka =
     \<lparr>kf_name = ''concordia'', kafkaVersion = ''3.6.0'', numberOfBrokerNodes = 2, kf_type = ''kafka.t3.small'',
      clientSubnets = PRIVATE_WITH_EGRESS, kf_groups = [''KafkaSg''], volumeSize = 20,
      unauthenticated = True, clientBroker = ''PLAINTEXT'', inCluster = True\<rparr>"

text \<open>What the cloud answers once the resources exist.\<close>

record cloud =
  db_hostname :: string
  redis_address :: string
  redis_port :: string
  cache_address :: string
  cache_port :: string
  broker_string :: string

section \<open>The stack\<close>

record stack_props =
  st_repoRoot :: string
  st_arch :: arch
  st_appOrigin :: "string option"
  st_apiRateLimit :: string
  st_apiRateBurst :: string
  st_gatewayReplicas :: int
  st_authReplicas :: int
  st_dbUsername :: string
  st_dbPassword :: string
  st_jwtSecret :: string
  st_auditWriterPassword :: string
  st_auditReaderPassword :: string

definition redis_endpoint :: "string \<Rightarrow> string \<Rightarrow> string" where
  "redis_endpoint a q = a @ '':'' @ q"

definition cluster_of :: "stack_props \<Rightarrow> cloud \<Rightarrow> cluster_props" where
  "cluster_of s c =
     \<lparr>repoRoot = st_repoRoot s, arch = st_arch s, appOrigin = st_appOrigin s,
      apiRateLimit = st_apiRateLimit s, apiRateBurst = st_apiRateBurst s,
      gatewayReplicas = st_gatewayReplicas s, authReplicas = st_authReplicas s,
      dbEndpoint = db_hostname c, dbUsername = st_dbUsername s, dbPassword = st_dbPassword s,
      jwtSecret = st_jwtSecret s, auditWriterPassword = st_auditWriterPassword s,
      auditReaderPassword = st_auditReaderPassword s,
      redisEndpoint = redis_endpoint (redis_address c) (redis_port c),
      cacheRedisEndpoint = redis_endpoint (cache_address c) (cache_port c),
      kafkaBootstrap = broker_string c\<rparr>"

section \<open>The secrets file\<close>

text \<open>
  The file holds an object; \<open>None\<close> when it does not exist. \<open>rnd n\<close> are \<open>n\<close> random bytes, drawn
  at each run in the order of the code.
\<close>

definition hex_byte :: "nat \<Rightarrow> string" where
  "hex_byte b = (let h = (\<lambda>n. if n < 10 then char_of (n + 48) else char_of (n + 87)) in
     [h (b div 16), h (b mod 16)])"

definition hex_string :: "nat list \<Rightarrow> string" where
  "hex_string bs = concat (map hex_byte bs)"

definition secretDefaults :: "(nat \<Rightarrow> nat \<Rightarrow> nat list) \<Rightarrow> (string \<times> string) list" where
  "secretDefaults rnd =
     [(''dbPassword'', hex_string (rnd 0 24)), (''jwtSecret'', hex_string (rnd 1 24)),
      (''auditWriterPassword'', hex_string (rnd 2 16)), (''auditReaderPassword'', hex_string (rnd 3 16))]"

fun set_prop :: "string \<Rightarrow> json \<Rightarrow> (string \<times> json) list \<Rightarrow> (string \<times> json) list" where
  "set_prop k v [] = [(k, v)]"
| "set_prop k v ((k', u) # fs) = (if k' = k then (k, v) # fs else (k', u) # set_prop k v fs)"

fun fill ::
  "(string \<times> string) list \<Rightarrow> (string \<times> json) list \<times> bool \<Rightarrow> (string \<times> json) list \<times> bool" where
  "fill [] st = st"
| "fill ((k, v) # ds) (fs, changed) =
     (if falsy (map_of fs k) then fill ds (set_prop k (JStr v) fs, True) else fill ds (fs, changed))"

definition load_secrets ::
  "(string \<times> json) list option \<Rightarrow> (nat \<Rightarrow> nat \<Rightarrow> nat list) \<Rightarrow>
     (string \<times> json) list \<times> (string \<times> json) list option" where
  "load_secrets saved rnd =
     (case fill (secretDefaults rnd) (nullish saved [], False) of
        (fs, changed) \<Rightarrow> (fs, if changed then Some fs else saved))"

section \<open>The deployment\<close>

text \<open>\<open>Number(v)\<close> of a number or of a string of digits; anything else is outside the model.\<close>

fun js_number :: "json \<Rightarrow> int option" where
  "js_number (JNum n) = Some n"
| "js_number (JStr s) =
     (if s \<noteq> [] \<and> list_all (\<lambda>c. c \<in> set ''0123456789'') s then Some (read_number s) else None)"
| "js_number _ = None"

text \<open>\<open>tryGetContext(k)\<close>, with \<open>null\<close> read as undefined, as \<open>??\<close> does.\<close>

definition context_or :: "(string \<Rightarrow> json option) \<Rightarrow> string \<Rightarrow> json \<Rightarrow> json" where
  "context_or ctx k d = (case ctx k of None \<Rightarrow> d | Some JNull \<Rightarrow> d | Some v \<Rightarrow> v)"

definition arch_of :: "json \<Rightarrow> arch" where
  "arch_of v = (if v = JStr ''arm64'' then Arm64 else Amd64)"

definition secret :: "(string \<times> json) list \<Rightarrow> string \<Rightarrow> string" where
  "secret fs k = js_string (map_of fs k)"

definition concordia ::
  "(string \<Rightarrow> json option) \<Rightarrow> string \<Rightarrow> (string \<times> json) list \<Rightarrow> stack_props option" where
  "concordia ctx root secrets =
     (case (js_number (context_or ctx ''gatewayReplicas'' (JNum 2)),
            js_number (context_or ctx ''authReplicas'' (JNum 3))) of
        (Some g, Some a) \<Rightarrow> Some
          \<lparr>st_repoRoot = root, st_arch = arch_of (context_or ctx ''arch'' (JStr ''arm64'')),
           st_appOrigin = text_of (ctx ''appOrigin''),
           st_apiRateLimit = json_string (context_or ctx ''apiRateLimit'' (JStr ''100000000'')),
           st_apiRateBurst = json_string (context_or ctx ''apiRateBurst'' (JStr ''10000000'')),
           st_gatewayReplicas = g, st_authReplicas = a, st_dbUsername = ''concordia'',
           st_dbPassword = secret secrets ''dbPassword'', st_jwtSecret = secret secrets ''jwtSecret'',
           st_auditWriterPassword = secret secrets ''auditWriterPassword'',
           st_auditReaderPassword = secret secrets ''auditReaderPassword''\<rparr>
      | _ \<Rightarrow> None)"

section \<open>Secrets stay what they were\<close>

lemma map_of_set_prop [simp]: "map_of (set_prop k v fs) = (map_of fs)(k \<mapsto> v)"
  by (induction k v fs rule: set_prop.induct) auto

lemma fill_keeps:
  "\<not> falsy (map_of (fst st) k) \<Longrightarrow> map_of (fst (fill ds st)) k = map_of (fst st) k"
proof (induction ds st rule: fill.induct)
  case (2 k' v ds fs changed)
  then show ?case by (cases "falsy (map_of fs k')"; cases "k = k'") auto
qed simp

lemma fill_covers:
  "(k, v) \<in> set ds \<Longrightarrow> \<forall>(k, v)\<in>set ds. v \<noteq> [] \<Longrightarrow> \<not> falsy (map_of (fst (fill ds st)) k)"
proof (induction ds st rule: fill.induct)
  case (2 k' v' ds fs changed)
  show ?case
  proof (cases "k = k'")
    case True
    have "\<not> falsy (map_of (set_prop k' (JStr v') fs) k')" using 2(4) by simp
    with True fill_keeps [of "(set_prop k' (JStr v') fs, True)" k ds] fill_keeps [of "(fs, changed)" k ds]
    show ?thesis by auto
  next
    case False
    with 2 show ?thesis by (cases "falsy (map_of fs k')") auto
  qed
qed simp

lemma fill_id: "\<forall>(k, v)\<in>set ds. \<not> falsy (map_of fs k) \<Longrightarrow> fill ds (fs, b) = (fs, b)"
  by (induction ds) auto

lemma fill_changed: "snd st \<Longrightarrow> snd (fill ds st)"
  by (induction ds st rule: fill.induct) auto

lemma fill_unchanged: "\<not> snd (fill ds (fs, b)) \<Longrightarrow> fill ds (fs, b) = (fs, b)"
proof (induction ds arbitrary: b)
  case (Cons d ds)
  obtain k v where d: "d = (k, v)" by (cases d)
  show ?case
  proof (cases "falsy (map_of fs k)")
    case True
    with Cons.prems d fill_changed [of "(set_prop k (JStr v) fs, True)" ds] show ?thesis by simp
  next
    case False
    with Cons d show ?thesis by simp
  qed
qed simp

lemma hex_string_empty [simp]: "hex_string bs = [] \<longleftrightarrow> bs = []"
  by (cases bs) (simp_all add: hex_string_def hex_byte_def Let_def)

lemma default_values:
  "(\<And>i n. length (rnd i n) = n) \<Longrightarrow> \<forall>(k, v)\<in>set (secretDefaults rnd). v \<noteq> []"
  by (simp add: secretDefaults_def) (metis length_0_conv zero_neq_numeral)

lemma same_keys: "map fst (secretDefaults rnd) = map fst (secretDefaults rnd')"
  by (simp add: secretDefaults_def)



section \<open>The databases and brokers the workloads use\<close>

text \<open>
  The database an address names, behind the credentials some carry: host, port, name. The
  databases the init job creates are the words of the loop of its script.
\<close>

definition db_address :: "string \<Rightarrow> (string \<times> int) \<times> string" where
  "db_address u =
     (let r = nullish (after_scheme u) u;
          a = (if CHR 0x40 \<in> set r then tl (dropWhile (\<lambda>c. c \<noteq> CHR 0x40) r) else r);
          d = tl (dropWhile (\<lambda>c. c \<noteq> CHR 0x2F) a)
      in (host_port a, takeWhile (\<lambda>c. c \<noteq> CHR 0x3F) d))"

definition secret_text :: "string \<Rightarrow> json \<Rightarrow> string option" where
  "secret_text k m = text_of (at [''stringData'', k] m)"

definition db_urls :: "(string \<Rightarrow> string) \<Rightarrow> cluster_props \<Rightarrow> string option list" where
  "db_urls uri p =
     [env_text ''SPRING_DATASOURCE_URL'' (authDeployment uri p),
      env_text ''SPRING_DATASOURCE_URL'' (serversDeployment uri p),
      secret_text ''AUDIT_DB_WRITER_URL'' (appSecret p), secret_text ''AUDIT_DB_READER_URL'' (appSecret p)]"

fun split_words :: "string \<Rightarrow> string list" where
  "split_words [] = [[]]"
| "split_words (c # cs) =
     (if c = CHR 0x20 then [] # split_words cs
      else (case split_words cs of [] \<Rightarrow> [[c]] | w # ws \<Rightarrow> (c # w) # ws))"

definition created_databases :: "string list" where
  "created_databases =
     split_words (takeWhile (\<lambda>c. c \<noteq> CHR 0x3B) (drop (length ''for db in '') (dbInitLines ! 1)))"

text \<open>The last word of the command that creates a topic is its replication factor.\<close>

definition replication_factor :: "string \<Rightarrow> int" where
  "replication_factor cmd = read_number (last (split_words cmd))"

lemma the_created_databases: "created_databases = [''servers_db'', ''audit'']"
  unfolding created_databases_def dbInitLines_def by code_simp

lemma the_replication: "map (replication_factor \<circ> create_topic) kafkaTopics = [2, 2, 2, 2]"
  by code_simp

lemma after_jdbc: "after_scheme (''jdbc:postgresql://'' @ r) = Some r"
  and after_postgres: "after_scheme (''postgres://'' @ r) = Some r"
  by (simp_all add: starts_with_def)

definition plain_host :: "string \<Rightarrow> bool" where
  "plain_host h \<longleftrightarrow> list_all (\<lambda>c. c \<notin> {CHR 0x3A, CHR 0x2F, CHR 0x40, CHR 0x3F}) h"

lemma stop_at:
  "list_all P h \<Longrightarrow> \<not> P c \<Longrightarrow> takeWhile P (h @ c # r) = h"
  "list_all P h \<Longrightarrow> \<not> P c \<Longrightarrow> dropWhile P (h @ c # r) = c # r"
  by (induction h) auto

lemma plain_hosts:
  assumes "plain_host h"
  shows "list_all (\<lambda>c. c \<noteq> CHR 0x3A) h" "list_all (\<lambda>c. c \<noteq> CHR 0x2F) h" "CHR 0x40 \<notin> set h"
  using assms by (auto simp: plain_host_def list_all_iff)

lemma read_5432: "takeWhile (\<lambda>c. c \<in> set ''0123456789'') (''5432/'' @ r) = ''5432''" "read_number ''5432'' = 5432"
  by (simp, code_simp)

lemma host_then_port:
  assumes "plain_host h" "after_scheme d = None"
  shows "host_port (h @ '':5432/'' @ d) = (h, 5432)"
    and "tl (dropWhile (\<lambda>c. c \<noteq> CHR 0x2F) (h @ '':5432/'' @ d)) = d"
    and "CHR 0x40 \<in> set (h @ '':5432/'' @ d) \<longleftrightarrow> CHR 0x40 \<in> set d"
proof -
  note h = plain_hosts [OF assms(1)]
  have "after_scheme (h @ '':5432/'' @ d) = None"
    using h(1) assms(2) by (induction h) (auto simp: starts_with_def)
  then show "host_port (h @ '':5432/'' @ d) = (h, 5432)"
    using stop_at(1) [OF h(1), of "CHR 0x3A" "''5432/'' @ d"] read_5432(1) [of d] read_5432(2)
    by (simp add: host_port_def nullish_def)
  have "dropWhile (\<lambda>c. c \<noteq> CHR 0x2F) (h @ '':5432/'' @ d) = CHR 0x2F # d"
    using h(2) by (induction h) auto
  then show "tl (dropWhile (\<lambda>c. c \<noteq> CHR 0x2F) (h @ '':5432/'' @ d)) = d" by simp
  show "CHR 0x40 \<in> set (h @ '':5432/'' @ d) \<longleftrightarrow> CHR 0x40 \<in> set d" using h(3) by simp
qed

lemma jdbc_address:
  assumes "plain_host h" "after_scheme d = None" "CHR 0x40 \<notin> set d" "list_all (\<lambda>c. c \<noteq> CHR 0x3F) d"
  shows "db_address (''jdbc:postgresql://'' @ h @ '':5432/'' @ d) = ((h, 5432), d)"
  using host_then_port [OF assms(1,2)] assms(3,4)
  unfolding db_address_def after_jdbc by (simp add: Let_def nullish_def list_all_iff)

lemma audit_address:
  assumes "plain_host h" "list_all (\<lambda>c. c \<noteq> CHR 0x40) cred"
  shows "db_address (''postgres://'' @ cred @ ''@'' @ h @ '':5432/audit?sslmode=require'') = ((h, 5432), ''audit'')"
proof -
  define d where "d = ''audit?sslmode=require''"
  have d: "after_scheme d = None" "takeWhile (\<lambda>c. c \<noteq> CHR 0x3F) d = ''audit''"
    by (simp_all add: d_def starts_with_def)
  have "'':5432/audit?sslmode=require'' = '':5432/'' @ d" by (simp add: d_def)
  then have "db_address (''postgres://'' @ cred @ ''@'' @ h @ '':5432/audit?sslmode=require'') =
      (host_port (h @ '':5432/'' @ d),
       takeWhile (\<lambda>c. c \<noteq> CHR 0x3F) (tl (dropWhile (\<lambda>c. c \<noteq> CHR 0x2F) (h @ '':5432/'' @ d))))"
    using stop_at(2) [OF assms(2), of "CHR 0x40" "h @ '':5432/'' @ d"]
    unfolding db_address_def after_postgres by (simp add: Let_def nullish_def)
  with host_then_port [OF assms(1) d(1)] d(2) show ?thesis by simp
qed

text \<open>The groups that guard the database let a connection in on this port.\<close>

definition admitted :: "postgres_instance \<Rightarrow> int \<Rightarrow> bool" where
  "admitted db q \<longleftrightarrow> list_ex (\<lambda>g. sg_id g \<in> set (pg_groups db) \<and> q \<in> fst ` set (admits g)) security_groups"


definition demo_cloud :: cloud where
  "demo_cloud = \<lparr>db_hostname = ''db.local'', redis_address = ''r'', redis_port = ''6379'',
     cache_address = ''c'', cache_port = ''6379'', broker_string = ''b1:9092,b2:9092''\<rparr>"


section \<open>What is deployed by default\<close>

text \<open>Without any context the stack runs two gateways with the backplane on and three auth
  replicas on ARM nodes, and the proxy's limit is a hundred million requests a second.\<close>

theorem default_deployment:
  "\<exists>st. concordia (\<lambda>_. None) root s = Some st \<and>
    (let p = cluster_of st c in
     arch p = Arm64 \<and> replicas_of (gatewayDeployment uri p) = Some 2 \<and>
     env_text ''GATEWAY_WS_BACKPLANE'' (gatewayDeployment uri p) = Some ''true'' \<and>
     env_text ''ALLOWED_ORIGINS'' (gatewayDeployment uri p) = None \<and>
     replicas_of (authDeployment uri p) = Some 3 \<and>
     env_text ''API_RATE_LIMIT'' (proxyDeployment uri p) = Some ''100000000'')"
  by (simp add: concordia_def context_or_def cluster_of_def arch_of_def gatewayDeployment_def gatewayEnv_def
      authDeployment_def proxyDeployment_def env_text_def Let_def truthy_def)

end
