(* ===== verification/Resources.thy ===== *)
theory Resources
  imports Deploy
begin

text \<open>
  The resources of the stack and the order in which they come into being: the EKS cluster with the
  storage add-on and the role it assumes (\<open>lib/cluster-construct.ts\<close>), the subnet group of Redis
  and the lookup of the brokers (\<open>lib/data-construct.ts\<close>), the outputs, and the dependencies,
  those the code adds and those that come of using a value of another resource. A deployment
  creates a resource once all it needs are there, in any order otherwise.
\<close>

section \<open>The cluster and its storage add-on\<close>

record eks_cluster =
  clusterName :: string
  k8s_version :: string
  defaultCapacity :: nat

definition eks :: eks_cluster where
  "eks = \<lparr>clusterName = ''concordia'', k8s_version = ''1.31'', defaultCapacity = 0\<rparr>"

text \<open>The condition of the trust: \<open>issuer\<close> is the identity provider of the cluster.\<close>

definition ebsCsiTrust :: "string \<Rightarrow> json" where
  "ebsCsiTrust issuer = JObj
     [(issuer @ '':sub'', JStr ''system:serviceaccount:kube-system:ebs-csi-controller-sa''),
      (issuer @ '':aud'', JStr ''sts.amazonaws.com'')]"

record iam_role =
  assumed_with :: json
  managedPolicies :: "string list"

definition ebsCsiRole :: "string \<Rightarrow> iam_role" where
  "ebsCsiRole issuer =
     \<lparr>assumed_with = JObj [(''StringEquals'', ebsCsiTrust issuer)],
      managedPolicies = [''service-role/AmazonEBSCSIDriverPolicy'']\<rparr>"

record eks_addon =
  addon_cluster :: string
  addonName :: string
  addon_role_arn :: string
  resolveConflicts :: string

definition ebsCsiAddon :: "string \<Rightarrow> eks_addon" where
  "ebsCsiAddon role_arn =
     \<lparr>addon_cluster = clusterName eks, addonName = ''aws-ebs-csi-driver'', addon_role_arn = role_arn,
      resolveConflicts = ''OVERWRITE''\<rparr>"

section \<open>Lookups and outputs\<close>

record subnet_group =
  sn_description :: string
  sn_subnets :: subnet_type

definition redis_subnets :: subnet_group where
  "redis_subnets = \<lparr>sn_description = ''Concordia Redis subnet group'', sn_subnets = PRIVATE_WITH_EGRESS\<rparr>"

text \<open>The call that asks for the addresses of the brokers, and the field of its answer that is used.\<close>

definition broker_lookup :: "string \<Rightarrow> string \<times> string \<times> json" where
  "broker_lookup arn = (''Kafka'', ''getBootstrapBrokers'', JObj [(''ClusterArn'', JStr arn)])"

definition broker_answer :: "json \<Rightarrow> string option" where
  "broker_answer j = str_field ''BootstrapBrokerString'' j"

record object_value =
  objectType :: string
  objectNamespace :: string
  objectName :: string
  jsonPath :: string
  timeout_minutes :: nat

definition nlbHostname :: object_value where
  "nlbHostname =
     \<lparr>objectType = ''service'', objectNamespace = NS, objectName = ''reverse-proxy'',
      jsonPath = ''.status.loadBalancer.ingress[0].hostname'', timeout_minutes = 10\<rparr>"

definition cluster_outputs :: "string \<Rightarrow> string \<Rightarrow> (string \<times> string) list" where
  "cluster_outputs host region =
     [(''AppUrl'', ''https://'' @ host),
      (''KubeconfigCommand'',
       ''aws eks update-kubeconfig --name '' @ clusterName eks @ '' --region '' @ region)]"

definition data_outputs :: "cloud \<Rightarrow> (string \<times> string) list" where
  "data_outputs c =
     [(''DbEndpoint'', db_hostname c), (''RedisEndpoint'', redis_endpoint (redis_address c) (redis_port c)),
      (''KafkaBootstrap'', broker_string c)]"

section \<open>What needs what\<close>

datatype resource =
    Vpc | DbSg | Postgres | RedisSg | RedisSubnets | Redis | CacheRedis | KafkaSg | Kafka | KafkaBootstrap
  | EksCluster | Nodes | EbsCsiTrust | EbsCsiRole | EbsCsiAddon | Gp3StorageClass | Namespace | Workloads
  | NlbHostname

definition all_resources :: "resource list" where
  "all_resources =
     [Vpc, DbSg, Postgres, RedisSg, RedisSubnets, Redis, CacheRedis, KafkaSg, Kafka, KafkaBootstrap,
      EksCluster, Nodes, EbsCsiTrust, EbsCsiRole, EbsCsiAddon, Gp3StorageClass, Namespace, Workloads, NlbHostname]"

text \<open>The resources whose values are properties of another.\<close>

fun data_uses :: "resource \<Rightarrow> resource list" where
  "data_uses DbSg = [Vpc]"
| "data_uses Postgres = [Vpc, DbSg]"
| "data_uses RedisSg = [Vpc]"
| "data_uses RedisSubnets = [Vpc]"
| "data_uses Redis = [RedisSubnets, RedisSg]"
| "data_uses CacheRedis = [RedisSubnets, RedisSg]"
| "data_uses KafkaSg = [Vpc]"
| "data_uses Kafka = [Vpc, KafkaSg]"
| "data_uses KafkaBootstrap = [Kafka]"
| "data_uses _ = []"

fun cluster_uses :: "resource \<Rightarrow> resource list" where
  "cluster_uses EksCluster = [Vpc]"
| "cluster_uses Nodes = [EksCluster, Vpc]"
| "cluster_uses EbsCsiTrust = [EksCluster]"
| "cluster_uses EbsCsiRole = [EksCluster, EbsCsiTrust]"
| "cluster_uses EbsCsiAddon = [EksCluster, EbsCsiRole]"
| "cluster_uses Gp3StorageClass = [EksCluster]"
| "cluster_uses Namespace = [EksCluster]"
| "cluster_uses Workloads = [EksCluster, Postgres, Redis, CacheRedis, KafkaBootstrap]"
| "cluster_uses NlbHostname = [EksCluster]"
| "cluster_uses _ = []"

text \<open>\<open>addDependency\<close>.\<close>

definition redis_dependencies :: "(resource \<times> resource) list" where
  "redis_dependencies = [(Redis, RedisSubnets), (CacheRedis, RedisSubnets)]"

definition broker_dependencies :: "(resource \<times> resource) list" where
  "broker_dependencies = [(KafkaBootstrap, Kafka)]"

definition storage_dependencies :: "(resource \<times> resource) list" where
  "storage_dependencies = [(EbsCsiAddon, Nodes), (Gp3StorageClass, EbsCsiAddon)]"

definition workload_dependencies :: "(resource \<times> resource) list" where
  "workload_dependencies =
     [(Workloads, Namespace), (Workloads, Gp3StorageClass), (NlbHostname, Workloads)]"

definition dependencies :: "(resource \<times> resource) list" where
  "dependencies = redis_dependencies @ broker_dependencies @ storage_dependencies @ workload_dependencies"

definition needs :: "resource \<Rightarrow> resource list" where
  "needs r = data_uses r @ cluster_uses r @
     map snd (filter (\<lambda>(a, b). a = r) dependencies)"

lemmas needs_simps [simp] = needs_def dependencies_def redis_dependencies_def broker_dependencies_def
  storage_dependencies_def workload_dependencies_def

section \<open>Deploying\<close>

inductive deploys :: "resource list \<Rightarrow> bool" where
  begins: "deploys []"
| creates: "deploys xs \<Longrightarrow> r \<notin> set xs \<Longrightarrow> set (needs r) \<subseteq> set xs \<Longrightarrow> deploys (xs @ [r])"

inductive_cases deploys_snoc: "deploys (xs @ [r])"

lemma deploys_closed: "deploys xs \<Longrightarrow> r \<in> set xs \<Longrightarrow> set (needs r) \<subseteq> set xs"
  by (induction rule: deploys.induct) auto

lemma deploys_distinct: "deploys xs \<Longrightarrow> distinct xs"
  by (induction rule: deploys.induct) auto

lemma all_resources_UNIV: "set all_resources = UNIV"
proof -
  have "r \<in> set all_resources" for r by (cases r) (simp_all add: all_resources_def)
  then show ?thesis by blast
qed

text \<open>Each resource comes, in the order of the code, after all it needs.\<close>

fun place :: "resource list \<Rightarrow> resource \<Rightarrow> nat" where
  "place [] r = 0"
| "place (x # xs) r = (if x = r then 0 else Suc (place xs r))"

lemma needs_before: "b \<in> set (needs a) \<Longrightarrow> place all_resources b < place all_resources a"
  by (cases a) (auto simp: all_resources_def)

text \<open>As long as something is missing, something can be created.\<close>

lemma deploys_next:
  assumes "deploys xs" "set xs \<noteq> UNIV"
  shows "\<exists>r. deploys (xs @ [r])"
proof -
  let ?M = "\<lambda>r. r \<notin> set xs"
  obtain r0 where "?M r0" using assms(2) by blast
  then obtain r where r: "?M r" "\<And>s. ?M s \<Longrightarrow> place all_resources r \<le> place all_resources s"
    using ex_has_least_nat [of ?M r0 "place all_resources"] by blast
  have "set (needs r) \<subseteq> set xs"
    using needs_before [of _ r] r(2) by (metis leD subsetI)
  with assms(1) r(1) show ?thesis by (blast intro: deploys.creates)
qed

lemma deploys_completes:
  "deploys xs \<Longrightarrow> \<exists>ys. deploys (xs @ ys) \<and> set (xs @ ys) = UNIV"
proof (induction "length all_resources - length xs" arbitrary: xs rule: less_induct)
  case less
  show ?case
  proof (cases "set xs = UNIV")
    case True
    with less.prems show ?thesis by (intro exI [of _ "[]"]) simp
  next
    case False
    from deploys_next [OF less.prems this] obtain r where r: "deploys (xs @ [r])" by blast
    from deploys_distinct [OF r] have "length (xs @ [r]) \<le> card (UNIV :: resource set)"
      by (metis all_resources_UNIV card_mono distinct_card finite_set subset_UNIV)
    also have "\<dots> \<le> length all_resources" by (metis all_resources_UNIV card_length)
    finally have "length all_resources - length (xs @ [r]) < length all_resources - length xs" by simp
    from less.hyps [OF this r] obtain ys where "deploys ((xs @ [r]) @ ys)" "set ((xs @ [r]) @ ys) = UNIV" by blast
    then show ?thesis by (intro exI [of _ "r # ys"]) simp
  qed
qed

text \<open>C39. However far a deployment has come it can be completed: no resources wait for each other. And
  the workloads are applied only when all they rest on is there: their namespace; nodes to run on;
  the storage class, the driver behind it and the role the driver assumes; the database, both
  caches, and the brokers, whose addresses have been looked up. The address of the load balancer is
  asked for only when the workloads are applied.\<close>

theorem workloads_come_last:
  assumes "deploys xs"
  shows "(\<exists>ys. deploys (xs @ ys) \<and> set (xs @ ys) = UNIV) \<and>
    (Workloads \<in> set xs \<longrightarrow>
       {EksCluster, Nodes, Namespace, Gp3StorageClass, EbsCsiAddon, EbsCsiRole, EbsCsiTrust, Postgres, Redis,
        CacheRedis, Kafka, KafkaBootstrap} \<subseteq> set xs) \<and>
    (NlbHostname \<in> set xs \<longrightarrow> Workloads \<in> set xs)"
proof -
  note c = deploys_closed [OF assms]
  have "Workloads \<in> set xs \<Longrightarrow> {EksCluster, Namespace, Gp3StorageClass, Postgres, Redis, CacheRedis, KafkaBootstrap} \<subseteq> set xs"
    using c [of Workloads] by simp
  moreover have "Gp3StorageClass \<in> set xs \<Longrightarrow> EbsCsiAddon \<in> set xs" using c [of Gp3StorageClass] by simp
  moreover have "EbsCsiAddon \<in> set xs \<Longrightarrow> {Nodes, EbsCsiRole} \<subseteq> set xs" using c [of EbsCsiAddon] by simp
  moreover have "EbsCsiRole \<in> set xs \<Longrightarrow> EbsCsiTrust \<in> set xs" using c [of EbsCsiRole] by simp
  moreover have "KafkaBootstrap \<in> set xs \<Longrightarrow> Kafka \<in> set xs" using c [of KafkaBootstrap] by simp
  moreover have "NlbHostname \<in> set xs \<Longrightarrow> Workloads \<in> set xs" using c [of NlbHostname] by simp
  ultimately show ?thesis using deploys_completes [OF assms] by blast
qed

theorem workloads_come_last_witness:
  "deploys [Vpc, EksCluster] \<and> (\<exists>ys. deploys ([Vpc, EksCluster] @ ys) \<and> Nodes \<in> set ([Vpc, EksCluster] @ ys))"
proof -
  have "deploys ([] @ [Vpc])" by (intro deploys.intros) simp_all
  then have d: "deploys ([Vpc] @ [EksCluster])" by (intro deploys.creates) simp_all
  from workloads_come_last [OF this, THEN conjunct1] d show ?thesis by auto
qed

text \<open>The address the stack prints is that of the Service of the reverse proxy, a load balancer the
  workloads declare, which takes connections on the port of https.\<close>

lemma printed_url_is_proxy:
  "map_of (cluster_outputs host region) ''AppUrl'' = Some (''https://'' @ host) \<and>
   (\<exists>m\<in>set (workloads uri file p). kind_of m = Some ''Service'' \<and> name_of m = Some (objectName nlbHostname) \<and>
      namespace_of m = Some (objectNamespace nlbHostname) \<and>
      text_of (at [''spec'', ''type''] m) = Some ''LoadBalancer'' \<and> 443 \<in> fst ` set (service_ports m))"
proof
  show "map_of (cluster_outputs host region) ''AppUrl'' = Some (''https://'' @ host)"
    by (simp add: cluster_outputs_def)
  show "\<exists>m\<in>set (workloads uri file p). kind_of m = Some ''Service'' \<and> name_of m = Some (objectName nlbHostname) \<and>
      namespace_of m = Some (objectNamespace nlbHostname) \<and>
      text_of (at [''spec'', ''type''] m) = Some ''LoadBalancer'' \<and> 443 \<in> fst ` set (service_ports m)"
  proof (rule bexI [of _ proxyService])
    show "proxyService \<in> set (workloads uri file p)" by (simp add: workloads_def)
  qed (simp add: proxyService_def service_def nlbHostname_def reading metadata_def named_port_def labels_def opt_field_def)
qed

end
