(* ===== verification/Layout.thy ===== *)
theory Layout
  imports Chat
begin

text \<open>
  \<open>app/layout.tsx\<close>: the frame around every page. Outside the login and register pages, and when
  there is a token, it holds a WebSocket over which mentions arrive; in the desktop client it
  hands them to the shell as notifications. The object \<open>window.electronAPI\<close> of \<open>preload.js\<close> is
  there when \<open>desktop\<close> is true; what it sends to the shell is kept in \<open>shell\<close>.
\<close>

section \<open>State\<close>

text \<open>The closure of a socket and of a timer is the token its effect run read.\<close>

record layout = browser +
  ly_path :: "string option"
  mounted :: bool
  ly_sockets :: "string socket list"
  ly_timers :: "string timer list"
  ly_wsRef :: "nat option"
  cleanup :: bool
  nav_listeners :: nat
  shell :: "(string \<times> json) list"
  ly_life :: life

text \<open>\<open>pathname?.replace(/\/$/, '') || ''\<close>.\<close>

definition normalizedPathname :: "string option \<Rightarrow> string" where
  "normalizedPathname path =
     (case path of
        None \<Rightarrow> []
      | Some p \<Rightarrow> if p \<noteq> [] \<and> last p = CHR 0x2F then butlast p else p)"

definition isAuthPage :: "string option \<Rightarrow> bool" where
  "isAuthPage path \<longleftrightarrow> normalizedPathname path = ''/login'' \<or> normalizedPathname path = ''/register''"

datatype layout_event =
    LayoutMount
  | LayoutPath "string option"
  | WsOpened nat
  | WsFrame nat "json option"
  | WsClosed nat
  | Reconnect nat
  | ShellNavigate string

section \<open>The connection\<close>

definition ly_connectWs ::
  "env \<Rightarrow> (string \<Rightarrow> bool) \<Rightarrow> string \<Rightarrow> 'z layout_scheme \<Rightarrow> 'z layout_scheme" where
  "ly_connectWs e refuses token w =
     (let u = getWebSocketUrl e ''/ws'' w in
      if refuses u then w
      else w\<lparr>ly_sockets := ly_sockets w @ [new_socket token u], ly_wsRef := Some (length (ly_sockets w))\<rparr>)"

definition auth_frame :: "string \<Rightarrow> json" where
  "auth_frame token = JObj [(''type'', JStr ''auth''), (''token'', JStr token)]"

definition ly_onopen :: "nat \<Rightarrow> 'z layout_scheme \<Rightarrow> 'z layout_scheme" where
  "ly_onopen i w =
     w\<lparr>ly_sockets := update_at i (\<lambda>s. send_ws (auth_frame (closure s)) (s\<lparr>ready := Open\<rparr>)) (ly_sockets w)\<rparr>"

text \<open>The notification a frame asks for; a frame that is not JSON, or is \<open>null\<close>, asks for none.\<close>

definition notification_of :: "json option \<Rightarrow> json option" where
  "notification_of data =
     (case data of
        None \<Rightarrow> None
      | Some j \<Rightarrow>
          if get_prop ''type'' j = Some (Some (JStr ''mention'')) then
            (let payload = opt_prop ''payload'' (Some j);
                 part = (\<lambda>k d. json_string (or_json (opt_prop k payload) (JStr d))) in
             Some (JObj
               [(''title'', JStr (''Mentioned in #'' @ part ''channel_name'' ''channel'')),
                (''body'', or_json (opt_prop ''content'' payload) (JStr ''You have a new mention.'')),
                (''channelUrl'', JStr (''/servers/'' @ part ''server_id'' ''default'' @
                   ''/channels/'' @ part ''channel_id'' ''general''))]))
          else None)"

definition ly_onmessage :: "bool \<Rightarrow> json option \<Rightarrow> 'z layout_scheme \<Rightarrow> 'z layout_scheme" where
  "ly_onmessage desktop data w =
     (case notification_of data of
        Some n \<Rightarrow> if desktop then w\<lparr>shell := shell w @ [(''show-notification'', n)]\<rparr> else w
      | None \<Rightarrow> w)"

definition ly_onclose :: "nat \<Rightarrow> 'z layout_scheme \<Rightarrow> 'z layout_scheme" where
  "ly_onclose i w =
     w\<lparr>ly_sockets := update_at i (\<lambda>s. s\<lparr>ready := Closed\<rparr>) (ly_sockets w),
       ly_timers := ly_timers w @ [new_timer (closure (ly_sockets w ! i)) 5000]\<rparr>"

text \<open>
  The effect, and the clean-up it returns when it did connect; when the constructor of the
  socket throws, the effect ends there.
\<close>

definition layout_effect ::
  "env \<Rightarrow> bool \<Rightarrow> (string \<Rightarrow> bool) \<Rightarrow> 'z layout_scheme \<Rightarrow> 'z layout_scheme" where
  "layout_effect e desktop refuses w =
     (if window e = None \<or> isAuthPage (ly_path w) \<or> \<not> mounted w then w
      else case truthy (getItem w ''access_token'') of
        None \<Rightarrow> w
      | Some token \<Rightarrow>
          ly_connectWs e refuses token
            (w\<lparr>cleanup := \<not> refuses (getWebSocketUrl e ''/ws'' w),
               nav_listeners := nav_listeners w + (if desktop then 1 else 0)\<rparr>))"

definition layout_cleanup :: "'z layout_scheme \<Rightarrow> 'z layout_scheme" where
  "layout_cleanup w =
     (if cleanup w then w\<lparr>cleanup := False, ly_sockets := close_ref (ly_wsRef w) (ly_sockets w)\<rparr> else w)"

section \<open>The component\<close>

text \<open>
  The first render is not mounted; the effect that sets \<open>mounted\<close> runs on it, and the
  connection effect runs again because \<open>mounted\<close> changed.
\<close>

fun layout_handler ::
  "env \<Rightarrow> bool \<Rightarrow> (string \<Rightarrow> bool) \<Rightarrow> layout_event \<Rightarrow> ('z layout_scheme, unit) io" where
  "layout_handler e desktop refuses LayoutMount =
     upd (\<lambda>w. layout_effect e desktop refuses (w\<lparr>mounted := True, ly_life := Mounted\<rparr>))"
| "layout_handler e desktop refuses (LayoutPath p) =
     upd (\<lambda>w. if isAuthPage p = isAuthPage (ly_path w) then w\<lparr>ly_path := p\<rparr>
       else layout_effect e desktop refuses (layout_cleanup (w\<lparr>ly_path := p\<rparr>)))"
| "layout_handler e desktop refuses (WsOpened i) = upd (ly_onopen i)"
| "layout_handler e desktop refuses (WsFrame i d) = upd (ly_onmessage desktop d)"
| "layout_handler e desktop refuses (WsClosed i) = upd (ly_onclose i)"
| "layout_handler e desktop refuses (Reconnect i) =
     upd (\<lambda>w. ly_connectWs e refuses (t_closure (ly_timers w ! i))
       (w\<lparr>ly_timers := update_at i timer_done (ly_timers w)\<rparr>))"
| "layout_handler e desktop refuses (ShellNavigate u) =
     upd (\<lambda>w. w\<lparr>hrefs := hrefs w @ replicate (nav_listeners w) u\<rparr>)"

fun layout_enabled :: "layout_event \<Rightarrow> 'z layout_scheme \<Rightarrow> bool" where
  "layout_enabled LayoutMount w = (ly_life w = Fresh)"
| "layout_enabled (LayoutPath p) w = (ly_life w = Mounted)"
| "layout_enabled (WsOpened i) w = in_state Connecting i (ly_sockets w)"
| "layout_enabled (WsFrame i d) w = in_state Open i (ly_sockets w)"
| "layout_enabled (WsClosed i) w = (i < length (ly_sockets w) \<and> ready (ly_sockets w ! i) \<noteq> Closed)"
| "layout_enabled (Reconnect i) w = pending_at i (ly_timers w)"
| "layout_enabled (ShellNavigate u) w = (0 < nav_listeners w)"

definition layout_init :: "browser \<Rightarrow> string option \<Rightarrow> layout" where
  "layout_init b path =
     \<lparr>storage = storage b, hrefs = hrefs b, ly_path = path, mounted = False, ly_sockets = [],
      ly_timers = [], ly_wsRef = None, cleanup = False, nav_listeners = 0, shell = [], ly_life = Fresh\<rparr>"

text \<open>What is rendered: nothing before it is mounted, the page alone on an auth page, else both side bars.\<close>

datatype shell_part = ServerBar | ChannelBar | Page

definition layout_view :: "'z layout_scheme \<Rightarrow> shell_part list" where
  "layout_view w =
     (if \<not> mounted w then [] else if isAuthPage (ly_path w) then [Page] else [ServerBar, ChannelBar, Page])"

section \<open>Mentions\<close>

text \<open>The frame of a mention, as the gateway pushes it.\<close>

definition mention_frame :: "string \<Rightarrow> string \<Rightarrow> string \<Rightarrow> string \<Rightarrow> json" where
  "mention_frame srv ch name msg = JObj [(''type'', JStr ''mention''), (''payload'', JObj
     [(''server_id'', JStr srv), (''channel_id'', JStr ch), (''channel_name'', JStr name), (''content'', JStr msg)])]"

lemma notification_of_mention:
  assumes "srv \<noteq> []" "ch \<noteq> []" "name \<noteq> []" "msg \<noteq> []"
  shows "notification_of (Some (mention_frame srv ch name msg)) = Some (JObj
    [(''title'', JStr (''Mentioned in #'' @ name)), (''body'', JStr msg),
     (''channelUrl'', JStr (''/servers/'' @ srv @ ''/channels/'' @ ch))])"
  using assms by (simp add: notification_of_def mention_frame_def opt_prop_def or_json_def)

section \<open>Connections pile up\<close>

definition live_sockets :: "'z layout_scheme \<Rightarrow> nat" where
  "live_sockets w = length (filter live (ly_sockets w))"

text \<open>A page that is connected, and can connect again.\<close>

definition connected :: "env \<Rightarrow> (string \<Rightarrow> bool) \<Rightarrow> 'z layout_scheme \<Rightarrow> bool" where
  "connected e refuses w \<longleftrightarrow> ly_life w = Mounted \<and> mounted w \<and> \<not> isAuthPage (ly_path w) \<and> cleanup w \<and>
     window e \<noteq> None \<and> truthy (getItem w ''access_token'') \<noteq> None \<and>
     \<not> refuses (getWebSocketUrl e ''/ws'' w) \<and>
     (\<exists>i. ly_wsRef w = Some i \<and> i < length (ly_sockets w) \<and> live (ly_sockets w ! i))"

text \<open>To the login page and back, with what the browser does about it.\<close>

definition round_trip :: "'z layout_scheme \<Rightarrow> layout_event turn list" where
  "round_trip w = map Event
     [LayoutPath (Some ''/login''), LayoutPath (Some ''/''), WsClosed (the (ly_wsRef w)),
      Reconnect (length (ly_timers w))]"

lemma auth_pages [simp]: "isAuthPage (Some ''/login'')" "\<not> isAuthPage (Some ''/'')"
  by (simp_all add: isAuthPage_def normalizedPathname_def)

lemma close_closed: "update_at i (\<lambda>s. s\<lparr>ready := Closed\<rparr>) ss = ss[i := (ss ! i)\<lparr>ready := Closed\<rparr>]" if "i < length ss"
  using that by (simp add: update_at_def)

lemma filter_update_drop:
  "i < length xs \<Longrightarrow> P (xs ! i) \<Longrightarrow> \<not> P x \<Longrightarrow> length (filter P (xs[i := x])) = length (filter P xs) - 1"
proof (induction xs arbitrary: i)
  case (Cons a xs)
  then show ?case
  proof (cases i)
    case (Suc j)
    with Cons have "P (xs ! j)" "j < length xs" by simp_all
    then have "filter P xs \<noteq> []" by (metis filter_empty_conv nth_mem)
    with Cons Suc show ?thesis by (auto simp: Suc_diff_Suc)
  qed simp
qed simp

lemma exec_upd:
  "en ev w \<Longrightarrow> h ev = upd u \<Longrightarrow> exec en h (Event ev # evs) (w, ts) = exec en h evs (u w, ts @ [Ret ()])"
  by (simp add: upd_def)

text \<open>The four turns one by one.\<close>

lemma leave_page:
  assumes "ly_life w = Mounted" "\<not> isAuthPage (ly_path w)" "cleanup w" "ly_wsRef w = Some i" "i < length (ly_sockets w)"
  shows "exec layout_enabled (layout_handler e d refuses) (Event (LayoutPath (Some ''/login'')) # evs) (w, ts) =
    exec layout_enabled (layout_handler e d refuses) evs
      (w\<lparr>ly_path := Some ''/login'', cleanup := False, ly_sockets := (ly_sockets w)[i := close_ws (ly_sockets w ! i)]\<rparr>,
       ts @ [Ret ()])"
  using assms
  by (simp add: exec_upd del: exec.simps)
     (simp add: layout_cleanup_def layout_effect_def close_ref_def update_at_def)

lemma enter_page:
  assumes "ly_life w = Mounted" "isAuthPage (ly_path w)" "\<not> cleanup w" "mounted w" "window e \<noteq> None"
    and "truthy (getItem w ''access_token'') = Some tok" "\<not> refuses (getWebSocketUrl e ''/ws'' w)"
  shows "exec layout_enabled (layout_handler e d refuses) (Event (LayoutPath (Some ''/'')) # evs) (w, ts) =
    exec layout_enabled (layout_handler e d refuses) evs
      (w\<lparr>ly_path := Some ''/'', cleanup := True, nav_listeners := nav_listeners w + (if d then 1 else 0),
         ly_sockets := ly_sockets w @ [new_socket tok (getWebSocketUrl e ''/ws'' w)],
         ly_wsRef := Some (length (ly_sockets w))\<rparr>, ts @ [Ret ()])"
proof -
  define u where "u = getWebSocketUrl e ''/ws'' w"
  have "getWebSocketUrl e ''/ws'' w' = u" if "storage w' = storage w" for w' :: "'a layout_scheme"
    unfolding u_def using that by (rule getWebSocketUrl_storage)
  moreover obtain l where "window e = Some l" using assms(5) by blast
  ultimately show ?thesis using assms(1-4,6,7)
    by (simp add: exec_upd del: exec.simps)
       (simp add: layout_cleanup_def layout_effect_def ly_connectWs_def getItem_def Let_def)
qed

lemma socket_ends:
  assumes "i < length (ly_sockets w)" "ready (ly_sockets w ! i) \<noteq> Closed"
  shows "exec layout_enabled (layout_handler e d refuses) (Event (WsClosed i) # evs) (w, ts) =
    exec layout_enabled (layout_handler e d refuses) evs
      (w\<lparr>ly_sockets := (ly_sockets w)[i := (ly_sockets w ! i)\<lparr>ready := Closed\<rparr>],
         ly_timers := ly_timers w @ [new_timer (closure (ly_sockets w ! i)) 5000]\<rparr>, ts @ [Ret ()])"
  using assms by (simp add: exec_upd ly_onclose_def update_at_def del: exec.simps)

lemma reconnects:
  assumes "j < length (ly_timers w)" "t_pending (ly_timers w ! j)" "\<not> refuses (getWebSocketUrl e ''/ws'' w)"
  shows "exec layout_enabled (layout_handler e d refuses) (Event (Reconnect j) # evs) (w, ts) =
    exec layout_enabled (layout_handler e d refuses) evs
      (w\<lparr>ly_timers := (ly_timers w)[j := timer_done (ly_timers w ! j)],
         ly_sockets := ly_sockets w @ [new_socket (t_closure (ly_timers w ! j)) (getWebSocketUrl e ''/ws'' w)],
         ly_wsRef := Some (length (ly_sockets w))\<rparr>, ts @ [Ret ()])"
proof -
  define u where "u = getWebSocketUrl e ''/ws'' w"
  have "getWebSocketUrl e ''/ws'' w' = u" if "storage w' = storage w" for w' :: "'a layout_scheme"
    unfolding u_def using that by (rule getWebSocketUrl_storage)
  with assms show ?thesis
    by (simp add: exec_upd pending_at_def del: exec.simps) (simp add: ly_connectWs_def update_at_def Let_def)
qed

lemma trip:
  fixes w :: "'z layout_scheme"
  assumes "connected e refuses w"
  shows "\<exists>w' us. exec layout_enabled (layout_handler e d refuses) (round_trip w) (w, ts) = Some (w', ts @ us) \<and>
    connected e refuses w' \<and> live_sockets w' = Suc (live_sockets w)"
proof -
  from assms obtain i tok where i: "ly_wsRef w = Some i" "i < length (ly_sockets w)" "live (ly_sockets w ! i)"
    and tok: "truthy (getItem w ''access_token'') = Some tok"
    by (auto simp: connected_def)
  note c = assms [unfolded connected_def]
  define ss where "ss = ly_sockets w"
  define u where "u = getWebSocketUrl e ''/ws'' w"
  have url: "getWebSocketUrl e ''/ws'' w' = u" if "storage w' = storage w" for w' :: "'z layout_scheme"
    unfolding u_def using that by (rule getWebSocketUrl_storage)
  define w1 where "w1 = w\<lparr>ly_path := Some ''/login'', cleanup := False, ly_sockets := ss[i := close_ws (ss ! i)]\<rparr>"
  define w2 where "w2 = w1\<lparr>ly_path := Some ''/'', cleanup := True,
      nav_listeners := nav_listeners w1 + (if d then 1 else 0),
      ly_sockets := ly_sockets w1 @ [new_socket tok (getWebSocketUrl e ''/ws'' w1)],
      ly_wsRef := Some (length (ly_sockets w1))\<rparr>"
  define w3 where "w3 = w2\<lparr>ly_sockets := (ly_sockets w2)[i := (ly_sockets w2 ! i)\<lparr>ready := Closed\<rparr>],
      ly_timers := ly_timers w2 @ [new_timer (closure (ly_sockets w2 ! i)) 5000]\<rparr>"
  define w4 where "w4 = w3\<lparr>ly_timers := (ly_timers w3)[length (ly_timers w) := timer_done (ly_timers w3 ! length (ly_timers w))],
      ly_sockets := ly_sockets w3 @ [new_socket (t_closure (ly_timers w3 ! length (ly_timers w))) (getWebSocketUrl e ''/ws'' w3)],
      ly_wsRef := Some (length (ly_sockets w3))\<rparr>"
  have st: "storage w1 = storage w" "storage w2 = storage w" "storage w3 = storage w" "storage w4 = storage w"
    by (simp_all add: w1_def w2_def w3_def w4_def)
  have r: "\<not> refuses (getWebSocketUrl e ''/ws'' w1)" "\<not> refuses (getWebSocketUrl e ''/ws'' w3)"
    using c url [OF st(1)] url [OF st(3)] by (simp_all add: u_def)
  have g: "truthy (getItem w1 ''access_token'') = Some tok" using tok st by (simp add: getItem_def)
  have l: "length (ly_timers w) < length (ly_timers w3)" "t_pending (ly_timers w3 ! length (ly_timers w))"
    by (simp_all add: w3_def w2_def w1_def)
  have n: "i < length (ly_sockets w2)" "ready (ly_sockets w2 ! i) \<noteq> Closed"
    using i live_not_closed [OF i(3)] by (simp_all add: w2_def w1_def nth_append ss_def)
  have "exec layout_enabled (layout_handler e d refuses) (round_trip w) (w, ts) =
      exec layout_enabled (layout_handler e d refuses)
        [Event (LayoutPath (Some ''/'')), Event (WsClosed i), Event (Reconnect (length (ly_timers w)))] (w1, ts @ [Ret ()])"
    using leave_page [of w i] c i by (simp add: round_trip_def w1_def ss_def del: exec.simps)
  also have "\<dots> = exec layout_enabled (layout_handler e d refuses)
        [Event (WsClosed i), Event (Reconnect (length (ly_timers w)))] (w2, (ts @ [Ret ()]) @ [Ret ()])"
    unfolding w2_def by (rule enter_page) (use c g r in \<open>simp_all add: w1_def\<close>)
  also have "\<dots> = exec layout_enabled (layout_handler e d refuses)
        [Event (Reconnect (length (ly_timers w)))] (w3, ((ts @ [Ret ()]) @ [Ret ()]) @ [Ret ()])"
    unfolding w3_def by (rule socket_ends [OF n])
  also have "\<dots> = Some (w4, ts @ [Ret (), Ret (), Ret (), Ret ()])"
    using reconnects [where e = e and refuses = refuses and w = w3 and d = d and evs = "[]", OF l r(2)] by (simp add: w4_def del: exec.simps) (simp only: exec.simps)
  finally have "exec layout_enabled (layout_handler e d refuses) (round_trip w) (w, ts) =
      Some (w4, ts @ [Ret (), Ret (), Ret (), Ret ()])" .
  moreover have s4: "ly_sockets w4 = ss[i := (close_ws (ss ! i))\<lparr>ready := Closed\<rparr>] @
      [new_socket tok u, new_socket (closure (ss ! i)) u]"
    using i url [OF st(1)] url [OF st(3)]
    by (simp add: w4_def w3_def w2_def w1_def ss_def nth_append list_update_append)
  moreover have "connected e refuses w4"
    using c st url [OF st(4)] i s4 r(1) url [OF st(1)]
    by (auto simp: connected_def getItem_def nth_append live_def w4_def w3_def w2_def w1_def ss_def)
  moreover have "live_sockets w4 = Suc (live_sockets w)"
  proof -
    have "length (filter live (ss[i := (close_ws (ss ! i))\<lparr>ready := Closed\<rparr>])) = length (filter live ss) - 1"
      using filter_update_drop [of i ss live] i by (simp add: ss_def live_def)
    moreover have "0 < length (filter live ss)" using i by (auto simp: ss_def filter_empty_conv)
    ultimately show ?thesis unfolding live_sockets_def s4 by (simp add: live_def ss_def [symmetric])
  qed
  ultimately show ?thesis by blast
qed

fun trips ::
  "env \<Rightarrow> bool \<Rightarrow> (string \<Rightarrow> bool) \<Rightarrow> nat \<Rightarrow> 'z layout_scheme \<times> 'z layout_scheme threads \<Rightarrow>
     ('z layout_scheme \<times> 'z layout_scheme threads) option" where
  "trips e d refuses 0 c = Some c"
| "trips e d refuses (Suc n) c =
     (case exec layout_enabled (layout_handler e d refuses) (round_trip (fst c)) c of
        None \<Rightarrow> None | Some c' \<Rightarrow> trips e d refuses n c')"

text \<open>The clean-up of the frame does not end its connection: closing the socket makes
  \<open>onclose\<close> schedule a new one, so each visit to the login page and back leaves one live
  connection more.\<close>

theorem connections_pile_up:
  assumes "connected e refuses w"
  shows "\<exists>w' us. trips e d refuses n (w, ts) = Some (w', ts @ us) \<and> live_sockets w' = live_sockets w + n"
  using assms
proof (induction n arbitrary: w ts)
  case (Suc n)
  from trip [OF Suc.prems, of d ts] obtain w1 us where
    1: "exec layout_enabled (layout_handler e d refuses) (round_trip w) (w, ts) = Some (w1, ts @ us)"
      "connected e refuses w1" "live_sockets w1 = Suc (live_sockets w)" by blast
  from Suc.IH [OF 1(2), of "ts @ us"] obtain w2 us' where
    "trips e d refuses n (w1, ts @ us) = Some (w2, (ts @ us) @ us')" "live_sockets w2 = live_sockets w1 + n" by blast
  with 1 show ?case by simp
qed simp

definition demo_layout :: layout where
  "demo_layout = (layout_init \<lparr>storage = [''access_token'' \<mapsto> ''t''], hrefs = []\<rparr> (Some ''/''))
     \<lparr>mounted := True, ly_life := Mounted, ly_sockets := [new_socket ''t'' ''u''], ly_wsRef := Some 0, cleanup := True\<rparr>"

theorem connections_pile_up_witness:
  "\<exists>w' us. trips \<lparr>api_url = None, window = Some (''https:'', ''h'')\<rparr> True (\<lambda>_. False) 3 (demo_layout, []) = Some (w', us) \<and>
    live_sockets w' = 4"
proof -
  have "connected \<lparr>api_url = None, window = Some (''https:'', ''h'')\<rparr> (\<lambda>_. False) demo_layout"
    by (simp add: connected_def demo_layout_def layout_init_def getItem_def live_def)
  moreover have "live_sockets demo_layout = 1"
    by (simp add: live_sockets_def demo_layout_def live_def)
  ultimately show ?thesis using connections_pile_up [of _ _ demo_layout True 3 "[]"] by fastforce
qed

end
