(* ===== verification/ServerSidebar.thy ===== *)
theory ServerSidebar
  imports MessageList "HOL-Library.Word"
begin

text \<open>
  \<open>app/components/ServerSidebar.tsx\<close>: the list of the user's servers, with the dialog that
  creates or joins one. Navigation by \<open>router.push\<close> is recorded in \<open>routes\<close>.
\<close>

section \<open>Colours, initials, paths\<close>

record server =
  server_id :: string
  server_name :: string
  owner_id :: string

definition as_server :: "json \<Rightarrow> server option" where
  "as_server j =
     (case (str_field ''server_id'' j, str_field ''name'' j, str_field ''owner_id'' j) of
        (Some i, Some n, Some u) \<Rightarrow> Some \<lparr>server_id = i, server_name = n, owner_id = u\<rparr>
      | _ \<Rightarrow> None)"

definition COLORS :: "string list" where
  "COLORS = [''#6366f1'', ''#22c55e'', ''#eab308'', ''#ef4444'',
             ''#3b82f6'', ''#ec4899'', ''#14b8a6'', ''#f97316'']"

text \<open>\<open>x | 0\<close>: the number wrapped to 32 bits, read with its sign.\<close>

definition to_int32 :: "int \<Rightarrow> int" where
  "to_int32 x = (x + 2 ^ 31) mod 2 ^ 32 - 2 ^ 31"

definition server_hash :: "string \<Rightarrow> int" where
  "server_hash s = foldl (\<lambda>hash c. to_int32 (hash * 31 + of_char c)) 0 s"

definition serverColor :: "string \<Rightarrow> string" where
  "serverColor s = COLORS ! nat (\<bar>server_hash s\<bar> mod int (length COLORS))"

definition serverInitial :: "string \<Rightarrow> string" where
  "serverInitial name = initial name"

text \<open>\<open>/^\/servers\/([^/]+)/\<close> on the path.\<close>

definition segment_after :: "string \<Rightarrow> string \<Rightarrow> string option" where
  "segment_after p s =
     (if starts_with p s
      then (case takeWhile (\<lambda>c. c \<noteq> CHR 0x2F) (drop (length p) s) of [] \<Rightarrow> None | x # xs \<Rightarrow> Some (x # xs))
      else None)"

definition server_of_path :: "string \<Rightarrow> string option" where
  "server_of_path path = segment_after ''/servers/'' path"

text \<open>\<open>UUID_RE\<close>, with its \<open>i\<close> flag.\<close>

definition is_hex :: "char \<Rightarrow> bool" where
  "is_hex c \<longleftrightarrow> c \<in> set ''0123456789abcdef''"

definition hex_run :: "nat \<Rightarrow> string \<Rightarrow> bool" where
  "hex_run n s \<longleftrightarrow> length s = n \<and> list_all is_hex s"

definition is_uuid :: "string \<Rightarrow> bool" where
  "is_uuid i =
     (let s = lower i in
      length s = 36 \<and> hex_run 8 (take 8 s) \<and> s ! 8 = CHR 0x2D \<and> hex_run 4 (take 4 (drop 9 s)) \<and>
      s ! 13 = CHR 0x2D \<and> hex_run 4 (take 4 (drop 14 s)) \<and> s ! 18 = CHR 0x2D \<and>
      hex_run 4 (take 4 (drop 19 s)) \<and> s ! 23 = CHR 0x2D \<and> hex_run 12 (drop 24 s))"

text \<open>The colour is the one of a 32-bit polynomial hash.\<close>

lemma to_int32_signed: "to_int32 x = signed_take_bit 31 x"
  by (simp add: to_int32_def signed_take_bit_eq_take_bit_shift take_bit_eq_mod)

lemma server_hash_word:
  "server_hash s = sint (foldl (\<lambda>h c. h * 31 + of_char c) (0 :: 32 word) s)"
proof -
  have step: "to_int32 (sint h * 31 + of_char c) = sint (h * 31 + of_char c)" for h :: "32 word" and c
  proof -
    have "h * 31 + of_char c = (word_of_int (sint h * 31 + of_char c) :: 32 word)"
      by (simp add: String.comm_ring_1_class.of_int_of_char)
    then show ?thesis by (simp only: int_word_sint) (simp add: to_int32_def)
  qed
  have "foldl (\<lambda>hash c. to_int32 (hash * 31 + of_char c)) (sint h) s =
      sint (foldl (\<lambda>h c. h * 31 + of_char c) h s)" for h :: "32 word"
    by (induction s arbitrary: h) (simp_all add: step)
  from this [of 0] show ?thesis by (simp add: server_hash_def)
qed

lemma COLORS_length [simp]: "length COLORS = 8"
  by (simp add: COLORS_def)

text \<open>C21. Every server gets one of the eight colours, picked by the 32-bit hash of its
  identifier: the running \<open>| 0\<close> of the code computes the polynomial in 31 over machine words,
  and the index is in range for every identifier, the most negative hash included.\<close>

theorem server_color_by_word_hash:
  "serverColor s \<in> set COLORS \<and>
   serverColor s =
     COLORS ! nat (\<bar>sint (foldl (\<lambda>h c. h * 31 + of_char c) (0 :: 32 word) s)\<bar> mod 8)"
proof -
  have "nat (\<bar>server_hash s\<bar> mod 8) < length COLORS" by (simp add: nat_less_iff)
  then have "serverColor s \<in> set COLORS" by (simp add: serverColor_def)
  then show ?thesis by (simp add: serverColor_def server_hash_word)
qed

section \<open>The component\<close>

datatype modal_tab = CreateTab | JoinTab

record server_sidebar = browser +
  servers :: "server list"
  ss_loading :: bool
  ss_error :: "string option"
  ss_open :: bool
  modalTab :: modal_tab
  newName :: string
  creating :: bool
  createError :: "string option"
  joinId :: string
  joining :: bool
  joinError :: "string option"
  pathname :: string
  routes :: "string list"
  ss_life :: life

datatype sidebar_event =
    SidebarMount
  | Retry
  | GoHome
  | GoServer string
  | GoTips
  | OpenDialog
  | CloseDialog
  | ShowTab modal_tab
  | SetNewName string
  | SubmitCreate
  | SetJoinId string
  | SubmitJoin
  | PathChanged string

definition closeModal :: "'z server_sidebar_scheme \<Rightarrow> 'z server_sidebar_scheme" where
  "closeModal w = w\<lparr>ss_open := False, newName := [], joinId := [], createError := None, joinError := None\<rparr>"

definition push_route :: "string \<Rightarrow> 'z server_sidebar_scheme \<Rightarrow> 'z server_sidebar_scheme" where
  "push_route r w = w\<lparr>routes := routes w @ [r]\<rparr>"

definition status_error :: "response \<Rightarrow> exn" where
  "status_error res = ErrorMsg (show_int (status res))"

definition fetchServers :: "env \<Rightarrow> ('z server_sidebar_scheme, unit) io" where
  "fetchServers e =
     Put (\<lambda>w. w\<lparr>ss_loading := True, ss_error := None\<rparr>)
       (finally_do
          (try_catch
             (bind (apiFetch e ''/servers'' no_init) (\<lambda>res.
                if \<not> ok res then Throw (status_error res)
                else bind (read_as (as_list as_server) res) (\<lambda>data.
                  upd (\<lambda>w. w\<lparr>servers := data\<rparr>))))
             (\<lambda>_. upd (\<lambda>w. w\<lparr>ss_error := Some ''Failed to load servers''\<rparr>)))
          (\<lambda>w. w\<lparr>ss_loading := False\<rparr>))"

definition create_init :: "string \<Rightarrow> req_init" where
  "create_init name = json_init POST (JObj [(''name'', JStr name)])"

definition handleCreate :: "env \<Rightarrow> ('z server_sidebar_scheme, unit) io" where
  "handleCreate e =
     Get (\<lambda>w.
       let name = trim (newName w) in
       if name = [] then Ret ()
       else Put (\<lambda>w. w\<lparr>creating := True, createError := None\<rparr>)
         (finally_do
            (try_catch
               (bind (apiFetch e ''/servers'' (create_init name)) (\<lambda>res.
                  if \<not> ok res then Throw (status_error res)
                  else bind (read_as as_server res) (\<lambda>created.
                    upd (\<lambda>w. push_route (''/servers/'' @ server_id created)
                      (closeModal (w\<lparr>servers := servers w @ [created]\<rparr>))))))
               (\<lambda>_. upd (\<lambda>w. w\<lparr>createError := Some ''Failed to create server''\<rparr>)))
            (\<lambda>w. w\<lparr>creating := False\<rparr>)))"

definition join_failed :: "exn \<Rightarrow> string" where
  "join_failed x =
     (if x = ErrorMsg ''not_found'' then ''Server not found'' else ''Failed to join server'')"

definition handleJoin :: "env \<Rightarrow> ('z server_sidebar_scheme, unit) io" where
  "handleJoin e =
     Get (\<lambda>w.
       let sid = trim (joinId w) in
       if sid = [] then Ret ()
       else if \<not> is_uuid sid
       then upd (\<lambda>w. w\<lparr>joinError := Some ''Invalid server ID format''\<rparr>)
       else if list_ex (\<lambda>s. server_id s = sid) (servers w)
       then upd (\<lambda>w. push_route (''/servers/'' @ sid) (closeModal w))
       else Put (\<lambda>w. w\<lparr>joining := True, joinError := None\<rparr>)
         (finally_do
            (try_catch
               (bind (apiFetch e (''/servers/'' @ sid @ ''/join'') post_init) (\<lambda>res.
                  if \<not> ok res \<and> status res \<noteq> 409 then
                    (if status res = 404 then Throw (ErrorMsg ''not_found'')
                     else Throw (status_error res))
                  else
                    bind (apiFetch e (''/servers/'' @ sid) no_init) (\<lambda>detailRes.
                    bind (if ok detailRes then
                            bind (read_as as_server detailRes) (\<lambda>joined.
                              upd (\<lambda>w. w\<lparr>servers := add_new server_id joined (servers w)\<rparr>))
                          else fetchServers e) (\<lambda>_.
                    upd (\<lambda>w. push_route (''/servers/'' @ sid) (closeModal w))))))
               (\<lambda>x. upd (\<lambda>w. w\<lparr>joinError := Some (join_failed x)\<rparr>)))
            (\<lambda>w. w\<lparr>joining := False\<rparr>)))"

fun sidebar_handler :: "env \<Rightarrow> sidebar_event \<Rightarrow> ('z server_sidebar_scheme, unit) io" where
  "sidebar_handler e SidebarMount = Put (\<lambda>w. w\<lparr>ss_life := Mounted\<rparr>) (fetchServers e)"
| "sidebar_handler e Retry = fetchServers e"
| "sidebar_handler e GoHome = upd (push_route ''/'')"
| "sidebar_handler e (GoServer i) = upd (push_route (''/servers/'' @ i))"
| "sidebar_handler e GoTips = upd (push_route ''/app/tips'')"
| "sidebar_handler e OpenDialog = upd (\<lambda>w. w\<lparr>ss_open := True\<rparr>)"
| "sidebar_handler e CloseDialog = upd closeModal"
| "sidebar_handler e (ShowTab t) = upd (\<lambda>w. w\<lparr>modalTab := t\<rparr>)"
| "sidebar_handler e (SetNewName s) = upd (\<lambda>w. w\<lparr>newName := s\<rparr>)"
| "sidebar_handler e SubmitCreate = handleCreate e"
| "sidebar_handler e (SetJoinId s) = upd (\<lambda>w. w\<lparr>joinId := s\<rparr>)"
| "sidebar_handler e SubmitJoin = handleJoin e"
| "sidebar_handler e (PathChanged p) = upd (\<lambda>w. w\<lparr>pathname := p\<rparr>)"

definition server_icon :: "server \<Rightarrow> sidebar_event ui" where
  "server_icon s = Btn (serverInitial (server_name s)) False (\<lambda>ev. ev = GoServer (server_id s))"

definition dialog_view :: "'z server_sidebar_scheme \<Rightarrow> sidebar_event ui" where
  "dialog_view w = Box
     [Btn ''Create'' False (\<lambda>ev. ev = ShowTab CreateTab), Btn ''Join'' False (\<lambda>ev. ev = ShowTab JoinTab),
      (case modalTab w of
         CreateTab \<Rightarrow> Box
           [Txt ''Create a Server'', Txt ''Give your server a name to get started.'',
            Inp ''Server name'' (newName w)
              (\<lambda>ev. case ev of SetNewName s \<Rightarrow> length s \<le> 100 | _ \<Rightarrow> False),
            (case truthy (createError w) of Some m \<Rightarrow> Txt m | None \<Rightarrow> Box []),
            Btn ''Cancel'' False (\<lambda>ev. ev = CloseDialog),
            Btn (if creating w then ''Creating...'' else ''Create'')
              (creating w \<or> trim (newName w) = []) (\<lambda>ev. ev = SubmitCreate)]
       | JoinTab \<Rightarrow> Box
           [Txt ''Join a Server'', Txt ''Paste a server ID to join.'',
            Inp ''Server ID (UUID)'' (joinId w)
              (\<lambda>ev. case ev of SetJoinId s \<Rightarrow> length s \<le> 64 | _ \<Rightarrow> False),
            (case truthy (joinError w) of Some m \<Rightarrow> Txt m | None \<Rightarrow> Box []),
            Btn ''Cancel'' False (\<lambda>ev. ev = CloseDialog),
            Btn (if joining w then ''Joining...'' else ''Join'')
              (joining w \<or> trim (joinId w) = []) (\<lambda>ev. ev = SubmitJoin)])]"

definition sidebar_view :: "'z server_sidebar_scheme \<Rightarrow> sidebar_event ui" where
  "sidebar_view w = Box
     [Btn [] False (\<lambda>ev. ev = GoHome),
      (case truthy (ss_error w) of None \<Rightarrow> Box []
       | Some _ \<Rightarrow> Box [Txt ''Error'', Btn ''Retry'' False (\<lambda>ev. ev = Retry)]),
      when_ui (\<not> ss_loading w \<and> truthy (ss_error w) = None) (Box (map server_icon (servers w))),
      when_ui (\<not> ss_loading w) (Btn ''+'' False (\<lambda>ev. ev = OpenDialog)),
      Btn ''Tips'' False (\<lambda>ev. ev = GoTips),
      when_ui (ss_open w) (dialog_view w)]"

fun sidebar_enabled :: "sidebar_event \<Rightarrow> 'z server_sidebar_scheme \<Rightarrow> bool" where
  "sidebar_enabled SidebarMount w = (ss_life w = Fresh)"
| "sidebar_enabled (PathChanged p) w = True"
| "sidebar_enabled ev w = (ss_life w = Mounted \<and> offers (sidebar_view w) ev)"

definition sidebar_init :: "browser \<Rightarrow> string \<Rightarrow> server_sidebar" where
  "sidebar_init b path =
     \<lparr>storage = storage b, hrefs = hrefs b, servers = [], ss_loading = True, ss_error = None,
      ss_open = False, modalTab = CreateTab, newName = [], creating = False, createError = None,
      joinId = [], joining = False, joinError = None, pathname = path, routes = [], ss_life = Fresh\<rparr>"

definition activeServerId :: "'z server_sidebar_scheme \<Rightarrow> string option" where
  "activeServerId w = server_of_path (pathname w)"

section \<open>Creating and joining, one at a time\<close>

lemma single_fetchServers: "single (fetchServers e)"
  unfolding fetchServers_def
  by (auto intro!: single_bind single_try single_finally single_apiFetch)

lemma frames_fetchServers:
  "frames creating (fetchServers e :: ('z server_sidebar_scheme, unit) io)"
  "frames joining (fetchServers e :: ('z server_sidebar_scheme, unit) io)"
  unfolding fetchServers_def
  by (auto simp: browser_ops intro!: frames_finally frames_try frames_bind frames_apiFetch)

lemma sidebar_other [simp]:
  "creating (closeModal w) = creating w" "joining (closeModal w) = joining w"
  "creating (push_route r w) = creating w" "joining (push_route r w) = joining w"
  by (simp_all add: closeModal_def push_route_def)

lemma frames_handleCreate: "frames joining (handleCreate e :: ('z server_sidebar_scheme, unit) io)"
  unfolding handleCreate_def
  by (auto simp: browser_ops Let_def intro!: frames_finally frames_try frames_bind frames_apiFetch)

lemma frames_handleJoin: "frames creating (handleJoin e :: ('z server_sidebar_scheme, unit) io)"
  unfolding handleJoin_def
  by (auto simp: browser_ops Let_def frames_fetchServers
      intro!: frames_finally frames_try frames_bind frames_apiFetch)

lemma flight_handleCreate: "\<not> creating w \<Longrightarrow> flight creating (handleCreate e) w"
  unfolding handleCreate_def
  by (auto simp: browser_ops Let_def
      intro!: flight_finally wp_frames [where f = creating] frames_try frames_bind frames_apiFetch
        single_try single_bind single_apiFetch)

lemma flight_handleJoin: "\<not> joining w \<Longrightarrow> flight joining (handleJoin e) w"
  unfolding handleJoin_def
  by (auto simp: browser_ops Let_def frames_fetchServers single_fetchServers
      intro!: flight_finally wp_frames [where f = joining] frames_try frames_bind frames_apiFetch
        single_try single_bind single_apiFetch)

lemma sidebar_offers:
  "offers (sidebar_view w) SubmitCreate \<longleftrightarrow> ss_open w \<and> modalTab w = CreateTab \<and>
     \<not> creating w \<and> \<not> blank (newName w)"
  "offers (sidebar_view w) SubmitJoin \<longleftrightarrow> ss_open w \<and> modalTab w = JoinTab \<and>
     \<not> joining w \<and> \<not> blank (joinId w)"
  by (auto simp: sidebar_view_def dialog_view_def server_icon_def list_ex_iff blank_def
      split: option.splits modal_tab.splits)

interpretation creation: guarded_flight sidebar_enabled "sidebar_handler e" "sidebar_init b path" creating
  for e b path
proof
  show "\<not> creating (sidebar_init b path)" by (simp add: sidebar_init_def)
next
  fix ev and w :: server_sidebar assume en: "sidebar_enabled ev w"
  show "frames creating (sidebar_handler e ev :: (server_sidebar, unit) io) \<or>
    (if creating w
     then \<forall>w' ps t. seg (sidebar_handler e ev) w = (w', ps, t) \<longrightarrow> creating w' \<and> \<not> suspended t \<and> ps = []
     else flight creating (sidebar_handler e ev) w)"
  proof (cases ev)
    case SubmitCreate
    with en have "\<not> creating w" by (simp add: sidebar_offers)
    with SubmitCreate show ?thesis by (simp add: flight_handleCreate)
  qed (simp_all add: frames_fetchServers frames_handleJoin)
qed

interpretation joining: guarded_flight sidebar_enabled "sidebar_handler e" "sidebar_init b path" joining
  for e b path
proof
  show "\<not> joining (sidebar_init b path)" by (simp add: sidebar_init_def)
next
  fix ev and w :: server_sidebar assume en: "sidebar_enabled ev w"
  show "frames joining (sidebar_handler e ev :: (server_sidebar, unit) io) \<or>
    (if joining w
     then \<forall>w' ps t. seg (sidebar_handler e ev) w = (w', ps, t) \<longrightarrow> joining w' \<and> \<not> suspended t \<and> ps = []
     else flight joining (sidebar_handler e ev) w)"
  proof (cases ev)
    case SubmitJoin
    with en have "\<not> joining w" by (simp add: sidebar_offers)
    with SubmitJoin show ?thesis by (simp add: flight_handleJoin)
  qed (simp_all add: frames_fetchServers frames_handleCreate)
qed

text \<open>At most one server is being created and at most one joined at any moment, each
  exactly while its button is disabled, whatever else is loading; neither form goes out
  blank.\<close>

theorem one_creation_one_join:
  assumes "reachable sidebar_enabled (sidebar_handler e) (sidebar_init b path) (w, ts)"
  shows "owners creating ts = (if creating w then 1 else 0) \<and>
    owners joining ts = (if joining w then 1 else 0) \<and>
    (sidebar_enabled SubmitCreate w \<longrightarrow> \<not> creating w \<and> \<not> blank (newName w)) \<and>
    (sidebar_enabled SubmitJoin w \<longrightarrow> \<not> joining w \<and> \<not> blank (joinId w))"
  using creation.one_owner [OF assms] joining.one_owner [OF assms] by (simp add: sidebar_offers)

theorem one_creation_one_join_witness:
  "\<exists>w ts. reachable sidebar_enabled (sidebar_handler \<lparr>api_url = None, window = None\<rparr>)
      (sidebar_init \<lparr>storage = Map.empty, hrefs = []\<rparr> ''/'') (w, ts) \<and>
    creating w \<and> owners creating ts = 1"
proof -
  let ?e = "\<lparr>api_url = None, window = None\<rparr>" and ?b = "\<lparr>storage = Map.empty, hrefs = []\<rparr>"
  have "\<exists>w ts. exec sidebar_enabled (sidebar_handler ?e)
      [Event SidebarMount, Answer 0 0 Rejected, Event OpenDialog, Event (SetNewName ''x''),
       Event SubmitCreate] (sidebar_init ?b ''/'', []) = Some (w, ts) \<and> creating w"
    by (simp add: sidebar_init_def fetchServers_def apiFetch_def io_simps Let_def handleCreate_def
        sidebar_view_def dialog_view_def trim_def is_ws_def)
  then obtain w ts where r: "reachable sidebar_enabled (sidebar_handler ?e) (sidebar_init ?b ''/'') (w, ts)"
    and c: "creating w" using exec_reachable_init by metis
  from one_creation_one_join [OF r] c r show ?thesis by auto
qed

section \<open>The outcomes of joining\<close>

lemma status_error_message: "status_error r \<noteq> ErrorMsg ''not_found''"
proof
  assume "status_error r = ErrorMsg ''not_found''"
  then have "show_int (status r) = ''not_found''" by (simp add: status_error_def)
  then have "CHR ''n'' \<in> set (show_int (status r))" by simp
  with show_int_no_letter show False by blast
qed

lemma join_run_refused:
  fixes w :: server_sidebar
  assumes "is_uuid (trim (joinId w))" "trim (joinId w) \<notin> server_id ` set (servers w)"
    and "status r \<noteq> 401" "\<not> ok r" "status r \<noteq> 409"
  shows "run (handleJoin e) [HttpResp r] w = Some
    ([HttpFetch (api_request e (''/servers/'' @ trim (joinId w) @ ''/join'') post_init
       (first_headers e post_init w))],
     w\<lparr>joining := False, joinError := Some (if status r = 404 then ''Server not found''
                                          else ''Failed to join server'')\<rparr>, Returned ())"
proof -
  have "trim (joinId w) \<noteq> []" using assms(1) by (auto simp: is_uuid_def lower_def)
  moreover have "\<not> list_ex (\<lambda>s. server_id s = trim (joinId w)) (servers w)"
    using assms(2) by (simp add: list_ex_id)
  ultimately show ?thesis
    using assms status_error_message [of r]
    by (simp add: handleJoin_def apiFetch_def io_simps Let_def first_headers_def getItem_def join_failed_def)
qed

lemma join_run_granted:
  fixes w :: server_sidebar
  assumes "is_uuid (trim (joinId w))" "trim (joinId w) \<notin> server_id ` set (servers w)"
    and "status r1 \<noteq> 401" "ok r1 \<or> status r1 = 409" "ok r2" "body r2 = Some j" "as_server j = Some s"
  shows "run (handleJoin e) [HttpResp r1, HttpResp r2] w = Some
    ([HttpFetch (api_request e (''/servers/'' @ trim (joinId w) @ ''/join'') post_init
        (first_headers e post_init w)),
      HttpFetch (api_request e (''/servers/'' @ trim (joinId w)) no_init (first_headers e no_init w))],
     (push_route (''/servers/'' @ trim (joinId w))
       (closeModal (w\<lparr>servers := add_new server_id s (servers w)\<rparr>)))\<lparr>joining := False\<rparr>, Returned ())"
proof -
  have "trim (joinId w) \<noteq> []" using assms(1) by (auto simp: is_uuid_def lower_def)
  moreover have "\<not> list_ex (\<lambda>s. server_id s = trim (joinId w)) (servers w)"
    using assms(2) by (simp add: list_ex_id)
  moreover have "status r2 \<noteq> 401" using assms(5) by (simp add: ok_def)
  ultimately show ?thesis
    using assms
    by (auto simp: handleJoin_def apiFetch_def io_simps Let_def first_headers_def getItem_def
        closeModal_def push_route_def)
qed

text \<open>Joining with a well-formed identifier of a server not yet listed posts the join and
  then asks for the server. An unknown server and any other refusal are told apart and change
  nothing else; a server already joined (409) is not an error; on success the server is listed
  once, the dialog is closed and its page is shown. Either way the form is usable again.\<close>

theorem join_outcomes:
  fixes w :: server_sidebar
  assumes "is_uuid (trim (joinId w))" "trim (joinId w) \<notin> server_id ` set (servers w)"
    and "status r1 \<noteq> 401"
  shows "(\<not> ok r1 \<and> status r1 \<noteq> 409 \<longrightarrow>
      run (handleJoin e) [HttpResp r1] w = Some
        ([HttpFetch (api_request e (''/servers/'' @ trim (joinId w) @ ''/join'') post_init
           (first_headers e post_init w))],
         w\<lparr>joining := False, joinError := Some (if status r1 = 404 then ''Server not found''
                                              else ''Failed to join server'')\<rparr>, Returned ())) \<and>
     ((ok r1 \<or> status r1 = 409) \<and> ok r2 \<and> body r2 = Some j \<and> as_server j = Some s \<longrightarrow>
      run (handleJoin e) [HttpResp r1, HttpResp r2] w = Some
        ([HttpFetch (api_request e (''/servers/'' @ trim (joinId w) @ ''/join'') post_init
            (first_headers e post_init w)),
          HttpFetch (api_request e (''/servers/'' @ trim (joinId w)) no_init (first_headers e no_init w))],
         (push_route (''/servers/'' @ trim (joinId w))
           (closeModal (w\<lparr>servers := add_new server_id s (servers w)\<rparr>)))\<lparr>joining := False\<rparr>, Returned ()))"
  using join_run_refused [OF assms] join_run_granted [OF assms] by blast

definition known_uuid :: string where
  "known_uuid = ''0f8fad5b-d9cb-469f-a165-70867728950e''"

theorem join_outcomes_witness:
  "\<exists>w :: server_sidebar. is_uuid (trim (joinId w)) \<and>
    run (handleJoin \<lparr>api_url = None, window = None\<rparr>) [HttpResp \<lparr>status = 404, body = None\<rparr>] w = Some
      ([HttpFetch (api_request \<lparr>api_url = None, window = None\<rparr> (''/servers/'' @ known_uuid @ ''/join'') post_init [])],
       w\<lparr>joinError := Some ''Server not found''\<rparr>, Returned ())"
proof -
  let ?e = "\<lparr>api_url = None, window = None\<rparr>"
  let ?w = "(sidebar_init \<lparr>storage = Map.empty, hrefs = []\<rparr> ''/'')\<lparr>joinId := known_uuid\<rparr>"
  have t: "trim (joinId ?w) = known_uuid"
    by (simp add: known_uuid_def trim_def is_ws_def)
  have "is_uuid known_uuid" by code_simp
  then have "is_uuid (trim (joinId ?w))" "trim (joinId ?w) \<notin> server_id ` set (servers ?w)"
    by (simp only: t) (simp add: sidebar_init_def)
  from join_outcomes [OF this, of "\<lparr>status = 404, body = None\<rparr>" ?e] t \<open>is_uuid known_uuid\<close>
  have "is_uuid (trim (joinId ?w)) \<and>
    run (handleJoin ?e) [HttpResp \<lparr>status = 404, body = None\<rparr>] ?w = Some
      ([HttpFetch (api_request ?e (''/servers/'' @ known_uuid @ ''/join'') post_init [])],
       ?w\<lparr>joinError := Some ''Server not found''\<rparr>, Returned ())"
    by (simp add: ok_def first_headers_def getItem_def sidebar_init_def post_init_def new_headers_def)
  then show ?thesis by blast
qed

end
