(* ===== verification/ChannelSidebar.thy ===== *)
theory ChannelSidebar
  imports ServerSidebar Auth
begin

text \<open>
  \<open>app/components/ChannelSidebar.tsx\<close>: the channels of the server in the path, with the dialog
  that creates one, the notification switch of the desktop client and the sign-out button.
  Four requests are made at once when the server changes.
\<close>

section \<open>Data and state\<close>

record member =
  m_user :: string
  m_roles :: "string list option"

definition as_string :: "json \<Rightarrow> string option" where
  "as_string j = (case j of JStr s \<Rightarrow> Some s | _ \<Rightarrow> None)"

definition as_member :: "json \<Rightarrow> member option" where
  "as_member j =
     (case (str_field ''user_id'' j, get_prop ''roles'' j) of
        (Some u, Some r) \<Rightarrow> Some \<lparr>m_user = u, m_roles = Option.bind r (as_list as_string)\<rparr>
      | _ \<Rightarrow> None)"

record channel_sidebar = browser +
  channels :: "channel list"
  cs_server :: "server option"
  cs_user :: "user option"
  hasManageRole :: bool
  notificationsEnabled :: bool
  cs_loading :: bool
  cs_error :: "string option"
  cs_open :: bool
  cs_newName :: string
  newType :: channel_type
  cs_creating :: bool
  cs_createError :: "string option"
  cs_path :: string
  cs_routes :: "string list"
  ipc_sent :: "(string \<times> json) list"
  cs_life :: life

datatype channel_sidebar_event =
    SideMount
  | SidePath string
  | Reload
  | AddChannel channel_type
  | GoChannel string
  | Toggle
  | SignOut
  | DismissDialog
  | SetType channel_type
  | SetChannelName string
  | SubmitChannel

text \<open>The paths: \<open>/^\/servers\/[^/]+\/channels\/([^/]+)/\<close> for the active channel.\<close>

definition channel_of_path :: "string \<Rightarrow> string option" where
  "channel_of_path path =
     (case server_of_path path of
        None \<Rightarrow> None
      | Some sid \<Rightarrow> segment_after ''/channels/'' (drop (length ''/servers/'' + length sid) path))"

definition serverOf :: "'z channel_sidebar_scheme \<Rightarrow> string option" where
  "serverOf w = server_of_path (cs_path w)"

section \<open>Loading\<close>

definition manage_role :: "user \<Rightarrow> member list \<Rightarrow> bool" where
  "manage_role u ms =
     (case List.find (\<lambda>m. m_user m = u_id u) ms of
        None \<Rightarrow> False
      | Some m \<Rightarrow> (case m_roles m of None \<Rightarrow> False | Some rs \<Rightarrow> 0 < length rs))"

definition show_user :: "response \<Rightarrow> response \<Rightarrow> ('z channel_sidebar_scheme, unit) io" where
  "show_user userRes membersRes =
     (if ok userRes then
        bind (read_as as_user userRes) (\<lambda>u.
          Put (\<lambda>w. w\<lparr>cs_user := Some u\<rparr>)
            (if ok membersRes then
               bind (read_as (as_list as_member) membersRes) (\<lambda>ms.
                 upd (\<lambda>w. w\<lparr>hasManageRole := manage_role u ms\<rparr>))
             else skip))
      else skip)"

fun show_server ::
  "(response \<times> response) \<times> (response \<times> response) \<Rightarrow> ('z channel_sidebar_scheme, unit) io" where
  "show_server ((channelsRes, serverRes), (userRes, membersRes)) =
     (if \<not> ok channelsRes then Throw (status_error channelsRes)
      else if \<not> ok serverRes then Throw (status_error serverRes)
      else bind (par (read_as (as_list as_channel) channelsRes) (read_as as_server serverRes)) (\<lambda>(chs, s).
        Put (\<lambda>w. w\<lparr>channels := chs, cs_server := Some s\<rparr>) (show_user userRes membersRes)))"

definition fetchData :: "env \<Rightarrow> string \<Rightarrow> ('z channel_sidebar_scheme, unit) io" where
  "fetchData e sid =
     Put (\<lambda>w. w\<lparr>cs_loading := True, cs_error := None\<rparr>)
       (finally_do
          (try_catch
             (bind (par (par (apiFetch e (''/servers/'' @ sid @ ''/channels'') no_init)
                             (apiFetch e (''/servers/'' @ sid) no_init))
                        (par (apiFetch e ''/auth/me'' no_init)
                             (apiFetch e (''/servers/'' @ sid @ ''/members'') no_init)))
                show_server)
             (\<lambda>_. upd (\<lambda>w. w\<lparr>cs_error := Some ''Failed to load channels''\<rparr>)))
          (\<lambda>w. w\<lparr>cs_loading := False\<rparr>))"

definition server_effect :: "env \<Rightarrow> ('z channel_sidebar_scheme, unit) io" where
  "server_effect e =
     Get (\<lambda>w. case serverOf w of
       Some sid \<Rightarrow> fetchData e sid
     | None \<Rightarrow> upd (\<lambda>w. w\<lparr>channels := [], cs_server := None, hasManageRole := False,
                          cs_loading := False, cs_error := None\<rparr>))"

section \<open>Notifications of the desktop client\<close>

text \<open>
  \<open>desktop\<close>: \<open>window.electronAPI\<close> is there. Its \<open>getNotificationPreference\<close> is a promise of the
  shell; what \<open>setNotificationPreference\<close> sends is kept in \<open>ipc_sent\<close>.
\<close>

definition load_preference :: "bool \<Rightarrow> ('z channel_sidebar_scheme, unit) io" where
  "load_preference desktop =
     (if desktop then
        bind (invoke ''get-notification-preference'' JNull) (\<lambda>pref.
          case pref of JBool b \<Rightarrow> upd (\<lambda>w. w\<lparr>notificationsEnabled := b\<rparr>) | _ \<Rightarrow> Throw TypeError)
      else skip)"

definition toggleNotifications :: "bool \<Rightarrow> 'z channel_sidebar_scheme \<Rightarrow> 'z channel_sidebar_scheme" where
  "toggleNotifications desktop w =
     (let newVal = \<not> notificationsEnabled w in
      w\<lparr>notificationsEnabled := newVal,
        ipc_sent := ipc_sent w @ (if desktop then [(''set-notification-preference'', JBool newVal)] else [])\<rparr>)"

section \<open>Creating a channel\<close>

definition cs_openModal :: "channel_type \<Rightarrow> 'z channel_sidebar_scheme \<Rightarrow> 'z channel_sidebar_scheme" where
  "cs_openModal t w = w\<lparr>newType := t, cs_newName := [], cs_createError := None, cs_open := True\<rparr>"

definition cs_closeModal :: "'z channel_sidebar_scheme \<Rightarrow> 'z channel_sidebar_scheme" where
  "cs_closeModal w = w\<lparr>cs_open := False, cs_newName := [], cs_createError := None\<rparr>"

definition type_name :: "channel_type \<Rightarrow> string" where
  "type_name t = (case t of TEXT \<Rightarrow> ''TEXT'' | VOICE \<Rightarrow> ''VOICE'')"

definition channel_req :: "string \<Rightarrow> channel_type \<Rightarrow> req_init" where
  "channel_req name t = json_init POST (JObj [(''name'', JStr name), (''type'', JStr (type_name t))])"

definition createChannel :: "env \<Rightarrow> ('z channel_sidebar_scheme, unit) io" where
  "createChannel e =
     Get (\<lambda>w. case serverOf w of
       None \<Rightarrow> Ret ()
     | Some sid \<Rightarrow>
         if trim (cs_newName w) = [] then Ret ()
         else Put (\<lambda>w. w\<lparr>cs_creating := True, cs_createError := None\<rparr>)
           (finally_do
              (try_catch
                 (bind (apiFetch e (''/servers/'' @ sid @ ''/channels'')
                          (channel_req (trim (cs_newName w)) (newType w))) (\<lambda>res.
                    if status res = 403 then
                      upd (\<lambda>w. w\<lparr>cs_createError := Some ''You don't have permission to create channels''\<rparr>)
                    else if \<not> ok res then Throw (status_error res)
                    else bind (read_as as_channel res) (\<lambda>created.
                      upd (\<lambda>w. cs_closeModal (w\<lparr>channels := channels w @ [created]\<rparr>)))))
                 (\<lambda>_. upd (\<lambda>w. w\<lparr>cs_createError := Some ''Failed to create channel''\<rparr>)))
              (\<lambda>w. w\<lparr>cs_creating := False\<rparr>)))"

section \<open>The component\<close>

fun side_handler ::
  "env \<Rightarrow> bool \<Rightarrow> channel_sidebar_event \<Rightarrow> ('z channel_sidebar_scheme, unit) io" where
  "side_handler e desktop SideMount =
     Put (\<lambda>w. w\<lparr>cs_life := Mounted\<rparr>) (Spawn (server_effect e) (load_preference desktop))"
| "side_handler e desktop (SidePath path) =
     Get (\<lambda>w. let moved = (server_of_path path \<noteq> serverOf w) in
       Put (\<lambda>w. w\<lparr>cs_path := path\<rparr>) (if moved then server_effect e else Ret ()))"
| "side_handler e desktop Reload =
     Get (\<lambda>w. case serverOf w of None \<Rightarrow> Ret () | Some sid \<Rightarrow> fetchData e sid)"
| "side_handler e desktop (AddChannel t) = upd (cs_openModal t)"
| "side_handler e desktop (GoChannel c) =
     upd (\<lambda>w. w\<lparr>cs_routes := cs_routes w @
       [''/servers/'' @ nullish (serverOf w) ''null'' @ ''/channels/'' @ c]\<rparr>)"
| "side_handler e desktop Toggle = upd (toggleNotifications desktop)"
| "side_handler e desktop SignOut = logoutAction e"
| "side_handler e desktop DismissDialog = upd cs_closeModal"
| "side_handler e desktop (SetType t) = upd (\<lambda>w. w\<lparr>newType := t\<rparr>)"
| "side_handler e desktop (SetChannelName s) = upd (\<lambda>w. w\<lparr>cs_newName := s\<rparr>)"
| "side_handler e desktop SubmitChannel = createChannel e"

definition isOwner :: "'z channel_sidebar_scheme \<Rightarrow> bool" where
  "isOwner w =
     (case (cs_user w, cs_server w) of (Some u, Some s) \<Rightarrow> u_id u = owner_id s | _ \<Rightarrow> False)"

definition canManageChannels :: "'z channel_sidebar_scheme \<Rightarrow> bool" where
  "canManageChannels w \<longleftrightarrow> isOwner w \<or> hasManageRole w"

definition of_type :: "channel_type \<Rightarrow> 'z channel_sidebar_scheme \<Rightarrow> channel list" where
  "of_type t w = filter (\<lambda>c. ch_type c = t) (channels w)"

definition section_view ::
  "string \<Rightarrow> string \<Rightarrow> string \<Rightarrow> channel_type \<Rightarrow> 'z channel_sidebar_scheme \<Rightarrow> channel_sidebar_event ui" where
  "section_view title mark none t w = Box
     [Txt title, when_ui (canManageChannels w) (Btn ''+'' False (\<lambda>ev. ev = AddChannel t)),
      Box (map (\<lambda>c. Box [Txt mark, Btn (ch_name c) False (\<lambda>ev. ev = GoChannel (ch_id c))]) (of_type t w)),
      when_ui (of_type t w = []) (Txt none)]"

definition channel_dialog :: "'z channel_sidebar_scheme \<Rightarrow> channel_sidebar_event ui" where
  "channel_dialog w = Box
     [Txt ''Create a Channel'', Txt ''Add a new channel to this server.'',
      Btn ''# Text'' False (\<lambda>ev. ev = SetType TEXT), Btn ''Voice'' False (\<lambda>ev. ev = SetType VOICE),
      Inp (case newType w of TEXT \<Rightarrow> ''channel-name'' | VOICE \<Rightarrow> ''Voice channel'') (cs_newName w)
        (\<lambda>ev. case ev of SetChannelName s \<Rightarrow> length s \<le> 100 | _ \<Rightarrow> False),
      (case truthy (cs_createError w) of Some m \<Rightarrow> Txt m | None \<Rightarrow> Box []),
      Btn ''Cancel'' False (\<lambda>ev. ev = DismissDialog),
      Btn (if cs_creating w then ''Creating...'' else ''Create'')
        (cs_creating w \<or> trim (cs_newName w) = []) (\<lambda>ev. ev = SubmitChannel)]"

definition side_view :: "bool \<Rightarrow> 'z channel_sidebar_scheme \<Rightarrow> channel_sidebar_event ui" where
  "side_view desktop w = Box
     [Txt (case cs_server w of Some s \<Rightarrow> server_name s
           | None \<Rightarrow> if serverOf w = None then [] else ''...''),
      (case truthy (cs_error w) of
         Some m \<Rightarrow> when_ui (\<not> cs_loading w) (Box [Txt m, Btn ''Retry'' False (\<lambda>ev. ev = Reload)])
       | None \<Rightarrow>
           when_ui (\<not> cs_loading w \<and> serverOf w \<noteq> None)
             (Box [section_view ''Text Channels'' ''#'' ''No text channels'' TEXT w,
                   section_view ''Voice Channels'' ''>'' ''No voice channels'' VOICE w])),
      Txt (case cs_user w of Some u \<Rightarrow> initial (u_name u) | None \<Rightarrow> ''U''),
      Txt (case cs_user w of Some u \<Rightarrow> u_name u | None \<Rightarrow> ''username''),
      when_ui desktop
        (Btn (if notificationsEnabled w then ''Disable Notifications'' else ''Enable Notifications'')
           False (\<lambda>ev. ev = Toggle)),
      Btn ''Sign out'' False (\<lambda>ev. ev = SignOut),
      when_ui (cs_open w) (channel_dialog w)]"

fun side_enabled :: "bool \<Rightarrow> channel_sidebar_event \<Rightarrow> 'z channel_sidebar_scheme \<Rightarrow> bool" where
  "side_enabled desktop SideMount w = (cs_life w = Fresh)"
| "side_enabled desktop (SidePath p) w = (cs_life w = Mounted)"
| "side_enabled desktop ev w = (cs_life w = Mounted \<and> offers (side_view desktop w) ev)"

definition side_init :: "browser \<Rightarrow> string \<Rightarrow> channel_sidebar" where
  "side_init b path =
     \<lparr>storage = storage b, hrefs = hrefs b, channels = [], cs_server = None, cs_user = None,
      hasManageRole = False, notificationsEnabled = True, cs_loading = False, cs_error = None,
      cs_open = False, cs_newName = [], newType = TEXT, cs_creating = False, cs_createError = None,
      cs_path = path, cs_routes = [], ipc_sent = [], cs_life = Fresh\<rparr>"

section \<open>One channel is created at a time\<close>

lemma frames_show_user: "frames cs_creating (show_user u m :: ('z channel_sidebar_scheme, unit) io)"
  by (auto simp: show_user_def intro!: frames_bind)

lemma frames_show_server: "frames cs_creating (show_server r :: ('z channel_sidebar_scheme, unit) io)"
  by (cases r rule: show_server.cases) (auto intro!: frames_bind frames_par frames_show_user)

lemma frames_fetchData: "frames cs_creating (fetchData e sid :: ('z channel_sidebar_scheme, unit) io)"
  unfolding fetchData_def
  by (auto simp: browser_ops intro!: frames_finally frames_try frames_bind frames_par frames_apiFetch frames_show_server)

lemma frames_preference: "frames cs_creating (load_preference d :: ('z channel_sidebar_scheme, unit) io)"
  by (auto simp: load_preference_def invoke_def intro!: frames_bind split: json.split reply.split)

lemma frames_logout: "frames cs_creating (logoutAction e :: ('z channel_sidebar_scheme, unit) io)"
  by (auto simp: logoutAction_def browser_ops intro!: frames_bind frames_try split: option.split)

lemma flight_createChannel: "\<not> cs_creating w \<Longrightarrow> flight cs_creating (createChannel e) w"
  unfolding createChannel_def
  by (auto simp: browser_ops cs_closeModal_def split: option.split
      intro!: flight_finally wp_frames [where f = cs_creating] frames_try frames_bind frames_apiFetch
        single_try single_bind single_apiFetch)

lemma side_offers_submit: "offers (side_view d w) SubmitChannel \<Longrightarrow> \<not> cs_creating w"
  by (auto simp: side_view_def section_view_def channel_dialog_def list_ex_iff split: option.splits)

interpretation channel_creation: guarded_flight "side_enabled d" "side_handler e d" "side_init b path" cs_creating
  for d e b path
proof
  show "\<not> cs_creating (side_init b path)" by (simp add: side_init_def)
next
  fix ev and w :: channel_sidebar assume en: "side_enabled d ev w"
  show "frames cs_creating (side_handler e d ev :: (channel_sidebar, unit) io) \<or>
    (if cs_creating w
     then \<forall>w' ps t. seg (side_handler e d ev) w = (w', ps, t) \<longrightarrow> cs_creating w' \<and> \<not> suspended t \<and> ps = []
     else flight cs_creating (side_handler e d ev) w)"
  proof (cases ev)
    case SubmitChannel
    with en have "\<not> cs_creating w" by (auto dest: side_offers_submit)
    with SubmitChannel show ?thesis by (simp add: flight_createChannel)
  qed (simp_all add: frames_fetchData frames_preference frames_logout server_effect_def cs_openModal_def
      cs_closeModal_def toggleNotifications_def Let_def split: option.split)
qed

section \<open>Four answers in any order\<close>

text \<open>
  \<open>feed is rs m\<close>: the answers \<open>rs\<close> of the pending calls of \<open>m\<close> arrive one by one, each named
  by its position among those still pending; \<open>deliver\<close> is that sequence of turns for the
  program \<open>n\<close> of the event loop.
\<close>

fun feed :: "nat list \<Rightarrow> reply list \<Rightarrow> ('w, 'a) io \<Rightarrow> ('w, 'a) io option" where
  "feed [] rs m = Some m"
| "feed (i # is) rs (Await cs k) =
     (if i < length cs then feed is (take i rs @ drop (Suc i) rs) (k i (rs ! i)) else None)"
| "feed (i # is) rs m = None"

fun deliver :: "nat \<Rightarrow> nat list \<Rightarrow> reply list \<Rightarrow> 'e turn list" where
  "deliver n [] rs = []"
| "deliver n (i # is) rs = Answer n i (rs ! i) # deliver n is (take i rs @ drop (Suc i) rs)"

definition orders :: "nat list list" where
  "orders = concat (map (\<lambda>a. concat (map (\<lambda>b. map (\<lambda>c. [a, b, c, 0]) [0, 1]) [0, 1, 2])) [0, 1, 2, 3])"

definition within ::
  "('a \<Rightarrow> ('w, unit) io) \<Rightarrow> (exn \<Rightarrow> ('w, unit) io) \<Rightarrow> ('w \<Rightarrow> 'w) \<Rightarrow> ('w, 'a) io \<Rightarrow> ('w, unit) io" where
  "within F H U m = finally_do (try_catch (bind m F) H) U"

lemma exec_feed:
  assumes "is \<noteq> []" "feed is rs m = Some (Ret x)" "n < length ts" "ts ! n = within F H U m"
  shows "exec en h (deliver n is rs) (w, ts) =
    (case seg (within F H U (Ret x)) w of (w', ps, t) \<Rightarrow> Some (w', ts[n := t] @ ps))"
  using assms
proof (induction "is" rs m arbitrary: ts rule: feed.induct)
  case (2 i "is" rs cs k)
  then have i: "i < length cs" by (simp split: if_splits)
  show ?case
  proof (cases "is")
    case Nil
    with 2 i show ?thesis by (simp add: within_def split: prod.split)
  next
    case (Cons j js)
    with 2(3) i obtain ds l where l: "k i (rs ! i) = Await ds l"
      by (cases "k i (rs ! i)") auto
    have "exec en h (deliver n is (take i rs @ drop (Suc i) rs)) (w, ts[n := within F H U (k i (rs ! i))]) =
        (case seg (within F H U (Ret x)) w of (w', ps, t) \<Rightarrow> Some (w', ts[n := t] @ ps))"
      using 2(1) [OF i, of "ts[n := within F H U (k i (rs ! i))]"] 2(3,4) i Cons by simp
    moreover have "sched_step en h (Answer n i (rs ! i)) (w, ts) =
        Some (w, ts[n := within F H U (k i (rs ! i))])"
      using 2(4,5) i l by (simp add: within_def)
    ultimately show ?thesis by simp
  qed
qed simp_all

lemma feed_par4:
  assumes "\<And>i. k0 i r0 = Ret x0" "\<And>i. k1 i r1 = Ret x1" "\<And>i. k2 i r2 = Ret x2" "\<And>i. k3 i r3 = Ret x3"
    and "is \<in> set orders"
  shows "feed is [r0, r1, r2, r3]
      (par (par (Await [c0] k0) (Await [c1] k1)) (par (Await [c2] k2) (Await [c3] k3))) =
    Some (Ret ((x0, x1), (x2, x3)))"
  using assms(5) by (auto simp: orders_def assms(1-4))

definition loading_calls ::
  "env \<Rightarrow> string \<Rightarrow> 'z channel_sidebar_scheme \<Rightarrow>
     ('z channel_sidebar_scheme, (response \<times> response) \<times> (response \<times> response)) io" where
  "loading_calls e sid w =
     (let a = (\<lambda>path. Await [HttpFetch (api_request e path no_init (first_headers e no_init w))]
                        (\<lambda>_. api_answer e path no_init w)) in
      par (par (a (''/servers/'' @ sid @ ''/channels'')) (a (''/servers/'' @ sid)))
          (par (a ''/auth/me'') (a (''/servers/'' @ sid @ ''/members''))))"

definition loaded :: "('z channel_sidebar_scheme, (response \<times> response) \<times> (response \<times> response)) io \<Rightarrow>
    ('z channel_sidebar_scheme, unit) io" where
  "loaded = within show_server
     (\<lambda>_. upd (\<lambda>w. w\<lparr>cs_error := Some ''Failed to load channels''\<rparr>)) (\<lambda>w. w\<lparr>cs_loading := False\<rparr>)"

definition loading_thread :: "env \<Rightarrow> string \<Rightarrow> 'z channel_sidebar_scheme \<Rightarrow> ('z channel_sidebar_scheme, unit) io" where
  "loading_thread e sid w = loaded (loading_calls e sid w)"

lemma seg_fetchData:
  "seg (fetchData e sid) w =
     (w\<lparr>cs_loading := True, cs_error := None\<rparr>, [],
      loading_thread e sid (w\<lparr>cs_loading := True, cs_error := None\<rparr>))"
  by (simp add: fetchData_def loading_thread_def loaded_def loading_calls_def within_def apiFetch_waits Let_def)

text \<open>The four answers of a server that loads, and the reading of their bodies.\<close>

definition loads ::
  "channel list \<Rightarrow> server \<Rightarrow> user \<Rightarrow> member list \<Rightarrow> response list \<Rightarrow> bool" where
  "loads chs s u ms rs \<longleftrightarrow>
     (\<exists>r0 r1 r2 r3 j0 j1 j2 j3. rs = [r0, r1, r2, r3] \<and> list_all ok rs \<and>
        map body rs = map Some [j0, j1, j2, j3] \<and> as_list as_channel j0 = Some chs \<and>
        as_server j1 = Some s \<and> as_user j2 = Some u \<and> as_list as_member j3 = Some ms)"

definition read_turns :: "nat \<Rightarrow> nat \<Rightarrow> 'e turn list" where
  "read_turns n b = [Answer n b Rejected, Answer n 0 Rejected, Answer n 0 Rejected, Answer n 0 Rejected]"

definition shown ::
  "channel list \<Rightarrow> server \<Rightarrow> user \<Rightarrow> member list \<Rightarrow> 'z channel_sidebar_scheme \<Rightarrow> 'z channel_sidebar_scheme" where
  "shown chs s u ms w =
     w\<lparr>channels := chs, cs_server := Some s, cs_user := Some u, hasManageRole := manage_role u ms,
       cs_loading := False\<rparr>"

lemma loading_feeds:
  assumes "rs = [r0, r1, r2, r3]" "\<forall>r\<in>set rs. status r \<noteq> 401" "is \<in> set orders"
  shows "feed is (map HttpResp rs) (loading_calls e sid v) = Some (Ret ((r0, r1), (r2, r3)))"
proof -
  have "status r0 \<noteq> 401" "status r1 \<noteq> 401" "status r2 \<noteq> 401" "status r3 \<noteq> 401"
    using assms(1,2) by auto
  then show ?thesis
    unfolding assms(1) list.map loading_calls_def Let_def
    by (intro feed_par4 [OF _ _ _ _ assms(3)]) (simp_all add: api_answered)
qed

lemma bodies_read:
  assumes "list_all ok [r0, r1, r2, r3]" "map body [r0, r1, r2, r3] = map Some [j0, j1, j2, j3]"
    and "as_list as_channel j0 = Some chs" "as_server j1 = Some s" "as_user j2 = Some u"
    and "as_list as_member j3 = Some ms" "b < 2" "n < length ts"
  shows "\<exists>t. seg (loaded (Ret ((r0, r1), (r2, r3)))) w = (w, [], t) \<and>
    exec en h (read_turns n b) (w, ts[n := t]) = Some (shown chs s u ms w, ts[n := Ret ()])"
proof -
  have "b = 0 \<or> b = 1" using assms(7) by auto
  then show ?thesis
    using assms by (auto simp: loaded_def within_def show_user_def io_simps read_turns_def shown_def)
qed

lemma server_arrives:
  assumes "loads chs s u ms rs" "is \<in> set orders" "b < 2" "n < length ts" "ts ! n = loading_thread e sid v"
  shows "exec en h (deliver n is (map HttpResp rs) @ read_turns n b) (w, ts) =
    Some (shown chs s u ms w, ts[n := Ret ()])"
proof -
  from assms(1) obtain r0 r1 r2 r3 j0 j1 j2 j3 where r: "rs = [r0, r1, r2, r3]" "list_all ok rs"
    and j: "map body rs = map Some [j0, j1, j2, j3]" "as_list as_channel j0 = Some chs"
      "as_server j1 = Some s" "as_user j2 = Some u" "as_list as_member j3 = Some ms"
    unfolding loads_def by blast
  have ne: "is \<noteq> []" using assms(2) by (auto simp: orders_def)
  have st: "\<forall>r\<in>set rs. status r \<noteq> 401" using r(2) by (auto simp: list_all_iff ok_def)
  from bodies_read [OF r(2) [unfolded r(1)] j(1) [unfolded r(1)] j(2-5) assms(3,4)]
  obtain t where t: "seg (loaded (Ret ((r0, r1), (r2, r3)))) w = (w, [], t)"
    "exec en h (read_turns n b) (w, ts[n := t]) = Some (shown chs s u ms w, ts[n := Ret ()])" by blast
  have "exec en h (deliver n is (map HttpResp rs)) (w, ts) = Some (w, ts[n := t])"
    using exec_feed [OF ne loading_feeds [OF r(1) st assms(2)] assms(4) assms(5) [unfolded loading_thread_def loaded_def],
        of en h w] t(1) by (simp add: loaded_def)
  with t(2) show ?thesis by (simp add: exec_append)
qed

section \<open>Showing a server\<close>

lemma side_offers_add:
  "offers (side_view d w) (AddChannel t) \<longleftrightarrow>
     truthy (cs_error w) = None \<and> \<not> cs_loading w \<and> serverOf w \<noteq> None \<and> canManageChannels w"
  by (cases t) (auto simp: side_view_def section_view_def channel_dialog_def list_ex_iff split: option.splits)

lemma side_offers_go:
  "offers (side_view d w) (GoChannel c) \<longleftrightarrow>
     truthy (cs_error w) = None \<and> \<not> cs_loading w \<and> serverOf w \<noteq> None \<and> c \<in> ch_id ` set (channels w)"
proof -
  have "ch \<in> set (of_type TEXT w) \<or> ch \<in> set (of_type VOICE w) \<longleftrightarrow> ch \<in> set (channels w)" for ch
    by (cases "ch_type ch") (auto simp: of_type_def)
  then show ?thesis
    by (auto simp: side_view_def section_view_def channel_dialog_def list_ex_iff image_iff split: option.splits)
qed


definition demo_replies :: "string \<Rightarrow> response list" where
  "demo_replies i = map (\<lambda>j. \<lparr>status = 200, body = Some j\<rparr>)
     [JArr [JObj [(''channel_id'', JStr (i @ ''c'')), (''name'', JStr ''general''), (''type'', JStr ''TEXT'')]],
      JObj [(''server_id'', JStr i), (''name'', JStr i), (''owner_id'', JStr ''u2'')],
      JObj [(''user_id'', JStr ''u1''), (''username'', JStr ''ann'')],
      JArr [JObj [(''user_id'', JStr ''u1''), (''username'', JStr ''ann''), (''roles'', JArr [JStr ''r1''])]]]"

definition demo_channel :: "string \<Rightarrow> channel" where
  "demo_channel i = \<lparr>ch_id = i @ ''c'', ch_name = ''general'', ch_type = TEXT\<rparr>"

definition demo_server :: "string \<Rightarrow> server" where
  "demo_server i = \<lparr>server_id = i, server_name = i, owner_id = ''u2''\<rparr>"

definition ann :: user where
  "ann = \<lparr>u_id = ''u1'', u_name = ''ann''\<rparr>"

definition ann_member :: member where
  "ann_member = \<lparr>m_user = ''u1'', m_roles = Some [''r1'']\<rparr>"

lemma demo_loads: "loads [demo_channel i] (demo_server i) ann [ann_member] (demo_replies i)"
  unfolding loads_def demo_replies_def
  by (intro exI conjI)
     (auto simp: ok_def as_list_def as_channel_def as_server_def as_user_def as_member_def as_string_def
        as_channel_type_def str_field_def demo_channel_def demo_server_def ann_def ann_member_def)

definition demo_side :: channel_sidebar where
  "demo_side = (side_init \<lparr>storage = Map.empty, hrefs = []\<rparr> ''/'')\<lparr>cs_life := Mounted\<rparr>"

lemma demo_paths:
  "server_of_path ''/servers/a'' = Some ''a''" "server_of_path ''/servers/b/channels/x'' = Some ''b''"
  "serverOf demo_side = None" "cs_life demo_side = Mounted" "[3, 1, 0, 0] \<in> set orders" "[0, 2, 1, 0] \<in> set orders"
  by (simp_all add: server_of_path_def segment_after_def starts_with_def serverOf_def demo_side_def side_init_def
      orders_def)


section \<open>Late answers\<close>

text \<open>Nothing cancels the requests of a server that has been left: when its answers come after
  those of the server gone to, the page shows the channels and the name of the old server
  under the path of the new one, and what is created then goes to the new one.\<close>

theorem stale_server_shown:
  assumes "cs_life w = Mounted" "serverOf w \<noteq> Some a" "a \<noteq> b"
    and "server_of_path pa = Some a" "server_of_path pb = Some b"
    and "loads chs s u ms ra" "loads chs' s' u' ms' rb" "is \<in> set orders" "js \<in> set orders"
  shows "\<exists>w'. exec (side_enabled d) (side_handler e d)
      (Event (SidePath pa) # Event (SidePath pb) #
       (deliver 1 is (map HttpResp rb) @ read_turns 1 0) @ (deliver 0 js (map HttpResp ra) @ read_turns 0 0))
      (w, []) = Some (w', [Ret (), Ret ()]) \<and>
    serverOf w' = Some b \<and> channels w' = chs \<and> cs_server w' = Some s"
proof -
  let ?wa = "w\<lparr>cs_path := pa, cs_loading := True, cs_error := None\<rparr>"
  let ?wb = "w\<lparr>cs_path := pb, cs_loading := True, cs_error := None\<rparr>"
  let ?b = "shown chs' s' u' ms' ?wb"
  have 1: "exec (side_enabled d) (side_handler e d) [Event (SidePath pa), Event (SidePath pb)] (w, []) =
      Some (?wb, [loading_thread e a ?wa, loading_thread e b ?wb])"
    using assms(1-5) by (simp add: serverOf_def server_effect_def seg_fetchData)
  have 2: "exec (side_enabled d) (side_handler e d) (deliver 1 is (map HttpResp rb) @ read_turns 1 0)
      (?wb, [loading_thread e a ?wa, loading_thread e b ?wb]) = Some (?b, [loading_thread e a ?wa, Ret ()])"
    using server_arrives [OF assms(7,8), of 0 1 "[loading_thread e a ?wa, loading_thread e b ?wb]" e b ?wb] by simp
  have 3: "exec (side_enabled d) (side_handler e d) (deliver 0 js (map HttpResp ra) @ read_turns 0 0)
      (?b, [loading_thread e a ?wa, Ret ()]) = Some (shown chs s u ms ?b, [Ret (), Ret ()])"
    using server_arrives [OF assms(6,9), of 0 0 "[loading_thread e a ?wa, Ret ()]" e a ?wa] by simp
  have "serverOf (shown chs s u ms ?b) = Some b" using assms(5) by (simp add: shown_def serverOf_def)
  moreover have "channels (shown chs s u ms ?b) = chs" "cs_server (shown chs s u ms ?b) = Some s"
    by (simp_all add: shown_def)
  ultimately show ?thesis
    using exec_then [OF 1 exec_then [OF 2 3], unfolded append.simps] by blast
qed

theorem stale_server_shown_witness:
  "\<exists>w'. exec (side_enabled True) (side_handler \<lparr>api_url = None, window = None\<rparr> True)
      (Event (SidePath ''/servers/a'') # Event (SidePath ''/servers/b/channels/x'') #
       (deliver 1 [0, 2, 1, 0] (map HttpResp (demo_replies ''b'')) @ read_turns 1 0) @
       (deliver 0 [3, 1, 0, 0] (map HttpResp (demo_replies ''a'')) @ read_turns 0 0))
      (demo_side, []) = Some (w', [Ret (), Ret ()]) \<and>
    serverOf w' = Some ''b'' \<and> channels w' = [demo_channel ''a''] \<and> cs_server w' = Some (demo_server ''a'')"
proof -
  have ne: "serverOf demo_side \<noteq> Some ''a''" "''a'' \<noteq> ''b''" by (simp_all add: demo_paths)
  show ?thesis
    by (rule stale_server_shown [OF demo_paths(4) ne demo_paths(1,2) demo_loads demo_loads demo_paths(6,5)])
qed

lemma server_arrives_without_members:
  assumes "rs = [r0, r1, r2, r3]" "ok r0" "ok r1" "ok r2" "\<not> ok r3" "status r3 \<noteq> 401"
    and "map body [r0, r1, r2] = map Some [j0, j1, j2]"
    and "as_list as_channel j0 = Some chs" "as_server j1 = Some s" "as_user j2 = Some u"
    and "is \<in> set orders" "n < length ts" "ts ! n = loading_thread e sid v"
  shows "exec en h (deliver n is (map HttpResp rs) @ [Answer n 0 Rejected, Answer n 0 Rejected, Answer n 0 Rejected]) (w, ts) =
    Some (w\<lparr>channels := chs, cs_server := Some s, cs_user := Some u, cs_loading := False\<rparr>, ts[n := Ret ()])"
proof -
  have ne: "is \<noteq> []" using assms(11) by (auto simp: orders_def)
  have st: "\<forall>r\<in>set rs. status r \<noteq> 401" using assms(1-6) by (auto simp: ok_def)
  obtain t where t: "seg (loaded (Ret ((r0, r1), (r2, r3)))) w = (w, [], t)"
    "exec en h [Answer n 0 Rejected, Answer n 0 Rejected, Answer n 0 Rejected] (w, ts[n := t]) =
       Some (w\<lparr>channels := chs, cs_server := Some s, cs_user := Some u, cs_loading := False\<rparr>, ts[n := Ret ()])"
    using assms by (simp add: loaded_def within_def show_user_def io_simps)
  have "exec en h (deliver n is (map HttpResp rs)) (w, ts) = Some (w, ts[n := t])"
    using exec_feed [OF ne loading_feeds [OF assms(1) st assms(11)] assms(12) assms(13) [unfolded loading_thread_def loaded_def],
        of en h w] t(1) by (simp add: loaded_def)
  from exec_then [OF this t(2)] show ?thesis .
qed

text \<open>The permission to add channels is not given up on leaving a server: when the members of
  the next one cannot be read, a role in the old server still offers the button in the new
  one, owner or not.\<close>

theorem role_survives_switch:
  assumes "cs_life w = Mounted" "hasManageRole w" "serverOf w \<noteq> Some sid" "server_of_path path = Some sid"
    and "rs = [r0, r1, r2, r3]" "ok r0" "ok r1" "ok r2" "\<not> ok r3" "status r3 \<noteq> 401"
    and "map body [r0, r1, r2] = map Some [j0, j1, j2]"
    and "as_list as_channel j0 = Some chs" "as_server j1 = Some s" "as_user j2 = Some u"
    and "is \<in> set orders"
  shows "\<exists>w'. exec (side_enabled d) (side_handler e d)
      (Event (SidePath path) # deliver 0 is (map HttpResp rs) @
        [Answer 0 0 Rejected, Answer 0 0 Rejected, Answer 0 0 Rejected]) (w, []) = Some (w', [Ret ()]) \<and>
    cs_server w' = Some s \<and> offers (side_view d w') (AddChannel t)"
proof -
  let ?w = "w\<lparr>cs_path := path, cs_loading := True, cs_error := None\<rparr>"
  let ?w' = "?w\<lparr>channels := chs, cs_server := Some s, cs_user := Some u, cs_loading := False\<rparr>"
  have 1: "exec (side_enabled d) (side_handler e d) [Event (SidePath path)] (w, []) = Some (?w, [loading_thread e sid ?w])"
    using assms(1,3,4) by (simp add: serverOf_def server_effect_def seg_fetchData)
  have 2: "exec (side_enabled d) (side_handler e d) (deliver 0 is (map HttpResp rs) @
        [Answer 0 0 Rejected, Answer 0 0 Rejected, Answer 0 0 Rejected]) (?w, [loading_thread e sid ?w]) =
      Some (?w', [Ret ()])"
    using server_arrives_without_members [OF assms(5-15), of 0 "[loading_thread e sid ?w]" e sid ?w
        "side_enabled d" "side_handler e d" ?w] by simp
  have "serverOf ?w' = Some sid" using assms(4) by (simp add: serverOf_def)
  then have "offers (side_view d ?w') (AddChannel t)"
    using assms(2) unfolding side_offers_add canManageChannels_def by simp
  moreover have "cs_server ?w' = Some s" by simp
  ultimately show ?thesis using exec_then [OF 1 2, unfolded append.simps] by blast
qed

theorem role_survives_switch_witness:
  "\<exists>w'. exec (side_enabled True) (side_handler \<lparr>api_url = None, window = None\<rparr> True)
      (Event (SidePath ''/servers/a'') # deliver 0 [0, 2, 1, 0]
        (map HttpResp (take 3 (demo_replies ''a'') @ [\<lparr>status = 500, body = None\<rparr>])) @
        [Answer 0 0 Rejected, Answer 0 0 Rejected, Answer 0 0 Rejected])
      (demo_side\<lparr>hasManageRole := True\<rparr>, []) = Some (w', [Ret ()]) \<and>
    cs_server w' = Some (demo_server ''a'') \<and> offers (side_view True w') (AddChannel TEXT)"
proof (rule role_survives_switch [where sid = "''a''" and chs = "[demo_channel ''a'']" and u = ann])
  show "cs_life (demo_side\<lparr>hasManageRole := True\<rparr>) = Mounted"
    "serverOf (demo_side\<lparr>hasManageRole := True\<rparr>) \<noteq> Some ''a''"
    using demo_paths by (simp_all add: serverOf_def)
  show "take 3 (demo_replies ''a'') @ [\<lparr>status = 500, body = None\<rparr>] =
      [demo_replies ''a'' ! 0, demo_replies ''a'' ! 1, demo_replies ''a'' ! 2, \<lparr>status = 500, body = None\<rparr>]"
    by (simp add: demo_replies_def)
  show "map body [demo_replies ''a'' ! 0, demo_replies ''a'' ! 1, demo_replies ''a'' ! 2] =
      map Some [the (body (demo_replies ''a'' ! 0)), the (body (demo_replies ''a'' ! 1)), the (body (demo_replies ''a'' ! 2))]"
    by (simp add: demo_replies_def)
  show "[0, 2, 1, 0] \<in> set orders" by (rule demo_paths)
qed (simp_all add: demo_paths, simp_all add: demo_replies_def ok_def as_list_def as_channel_def as_server_def
    as_user_def as_channel_type_def str_field_def demo_channel_def demo_server_def ann_def)

text \<open>The answer to a creation is not asked which server it belongs to: a channel made in a server that
  has been left is listed under the one gone to.\<close>

theorem created_channel_in_other_server:
  assumes "cs_life w = Mounted" "serverOf w = Some a" "a \<noteq> b" "offers (side_view d w) SubmitChannel"
    and "server_of_path pb = Some b" "loads chs s u ms rb" "is \<in> set orders"
    and "ok r" "body r = Some j" "as_channel j = Some c"
  shows "\<exists>w'. exec (side_enabled d) (side_handler e d)
      (Event SubmitChannel # Event (SidePath pb) #
       (deliver 1 is (map HttpResp rb) @ read_turns 1 0) @ [Answer 0 0 (HttpResp r), Answer 0 0 Rejected])
      (w, []) = Some (w', [Ret (), Ret ()]) \<and>
    serverOf w' = Some b \<and> cs_server w' = Some s \<and> channels w' = chs @ [c]"
proof -
  let ?path = "''/servers/'' @ a @ ''/channels''" and ?i = "channel_req (trim (cs_newName w)) (newType w)"
  let ?wa = "w\<lparr>cs_creating := True, cs_createError := None\<rparr>"
  let ?wb = "?wa\<lparr>cs_path := pb, cs_loading := True, cs_error := None\<rparr>"
  let ?b = "shown chs s u ms ?wb"
  define creation where "creation = finally_do (try_catch
      (bind (Await [HttpFetch (api_request e ?path ?i (first_headers e ?i ?wa))] (\<lambda>_. api_answer e ?path ?i ?wa)) (\<lambda>res.
         if status res = 403 then
           upd (\<lambda>w. w\<lparr>cs_createError := Some ''You don't have permission to create channels''\<rparr>)
         else if \<not> ok res then Throw (status_error res)
         else bind (read_as as_channel res) (\<lambda>created.
           upd (\<lambda>w. cs_closeModal (w\<lparr>channels := channels w @ [created]\<rparr>)))))
      (\<lambda>_. upd (\<lambda>w. w\<lparr>cs_createError := Some ''Failed to create channel''\<rparr>)))
    (\<lambda>w. w\<lparr>cs_creating := False\<rparr>)"
  have name: "trim (cs_newName w) \<noteq> []"
    using assms(4) by (auto simp: side_view_def section_view_def channel_dialog_def list_ex_iff split: option.splits)
  have st: "status r \<noteq> 401" "status r \<noteq> 403" using assms(8) by (auto simp: ok_def)
  have 1: "exec (side_enabled d) (side_handler e d) [Event SubmitChannel, Event (SidePath pb)] (w, []) =
      Some (?wb, [creation, loading_thread e b ?wb])"
    using assms(1-5) name
    by (simp add: serverOf_def server_effect_def seg_fetchData createChannel_def apiFetch_waits creation_def)
  have 2: "exec (side_enabled d) (side_handler e d) (deliver 1 is (map HttpResp rb) @ read_turns 1 0)
      (?wb, [creation, loading_thread e b ?wb]) = Some (?b, [creation, Ret ()])"
    using server_arrives [OF assms(6,7), of 0 1 "[creation, loading_thread e b ?wb]" e b ?wb] by simp
  let ?w' = "(cs_closeModal (?b\<lparr>channels := chs @ [c]\<rparr>))\<lparr>cs_creating := False\<rparr>"
  have 3: "exec (side_enabled d) (side_handler e d) [Answer 0 0 (HttpResp r), Answer 0 0 Rejected]
      (?b, [creation, Ret ()]) = Some (?w', [Ret (), Ret ()])"
    using assms(8-10) st by (simp add: creation_def api_answered io_simps shown_def)
  have "serverOf ?w' = Some b" using assms(5) by (simp add: shown_def serverOf_def cs_closeModal_def)
  moreover have "cs_server ?w' = Some s" "channels ?w' = chs @ [c]" by (simp_all add: shown_def cs_closeModal_def)
  ultimately show ?thesis
    using exec_then [OF 1 exec_then [OF 2 3], unfolded append.simps] by blast
qed

definition demo_dialog :: channel_sidebar where
  "demo_dialog = demo_side\<lparr>cs_path := ''/servers/a'', cs_open := True, cs_newName := ''general''\<rparr>"

theorem created_channel_in_other_server_witness:
  "\<exists>w'. exec (side_enabled True) (side_handler \<lparr>api_url = None, window = None\<rparr> True)
      (Event SubmitChannel # Event (SidePath ''/servers/b/channels/x'') #
       (deliver 1 [0, 2, 1, 0] (map HttpResp (demo_replies ''b'')) @ read_turns 1 0) @
       [Answer 0 0 (HttpResp \<lparr>status = 201, body = Some (JObj [(''channel_id'', JStr ''ac''),
          (''name'', JStr ''general''), (''type'', JStr ''TEXT'')])\<rparr>), Answer 0 0 Rejected])
      (demo_dialog, []) = Some (w', [Ret (), Ret ()]) \<and>
    serverOf w' = Some ''b'' \<and> cs_server w' = Some (demo_server ''b'') \<and>
    channels w' = [demo_channel ''b''] @ [demo_channel ''a'']"
proof (rule created_channel_in_other_server [OF _ _ _ _ demo_paths(2) demo_loads demo_paths(6),
      where j = "JObj [(''channel_id'', JStr ''ac''), (''name'', JStr ''general''), (''type'', JStr ''TEXT'')]"])
  show "cs_life demo_dialog = Mounted" "serverOf demo_dialog = Some ''a''"
    using demo_paths by (simp_all add: demo_dialog_def serverOf_def)
  show "''a'' \<noteq> ''b''" by simp
  show "offers (side_view True demo_dialog) SubmitChannel"
    by (simp add: side_view_def channel_dialog_def demo_dialog_def demo_side_def side_init_def trim_def is_ws_def)
qed (simp_all add: ok_def as_channel_def as_channel_type_def str_field_def demo_channel_def)

end
