(* ===== verification/Routes.thy ===== *)
theory Routes
  imports ChannelSidebar
begin

text \<open>
  The pages that only pass on what is in their path (\<open>app/page.tsx\<close>, \<open>servers/[id]/page.tsx\<close>,
  \<open>servers/[id]/channels/[cid]/page.tsx\<close>), the directories that name them, and
  \<open>next.config.ts\<close>, which decides whether they are rendered on demand or exported as files.
  How the framework finds the page of a path is a parameter, whose contract is the locale
  \<open>file_router\<close>.
\<close>

section \<open>Pages and their directories\<close>

datatype route = RootRoute | LoginRoute | RegisterRoute | TipsRoute | ServerRoute | ChannelRoute

datatype segment = Fixed string | Dynamic string

definition segments_of :: "route \<Rightarrow> segment list" where
  "segments_of r =
     (case r of
        RootRoute \<Rightarrow> []
      | LoginRoute \<Rightarrow> [Fixed ''login'']
      | RegisterRoute \<Rightarrow> [Fixed ''register'']
      | TipsRoute \<Rightarrow> [Fixed ''app'', Fixed ''tips'']
      | ServerRoute \<Rightarrow> [Fixed ''servers'', Dynamic ''id'']
      | ChannelRoute \<Rightarrow> [Fixed ''servers'', Dynamic ''id'', Fixed ''channels'', Dynamic ''cid''])"

type_synonym params = "(string \<times> string) list"

fun segment_text :: "params \<Rightarrow> segment \<Rightarrow> string" where
  "segment_text ps (Fixed s) = s"
| "segment_text ps (Dynamic k) = nullish (map_of ps k) []"

definition route_path :: "route \<Rightarrow> params \<Rightarrow> string" where
  "route_path r ps =
     (if segments_of r = [] then ''/'' else concat (map (\<lambda>g. ''/'' @ segment_text ps g) (segments_of r)))"

fun param_names :: "segment list \<Rightarrow> string list" where
  "param_names [] = []"
| "param_names (Fixed s # gs) = param_names gs"
| "param_names (Dynamic k # gs) = k # param_names gs"

text \<open>The values a path can carry: not empty, without a slash.\<close>

definition path_text :: "string \<Rightarrow> bool" where
  "path_text s \<longleftrightarrow> s \<noteq> [] \<and> CHR 0x2F \<notin> set s"

section \<open>What the pages render\<close>

text \<open>The texts of the pages, less their pictograms.\<close>

definition AppPage :: "'e ui" where
  "AppPage = Box [Txt ''Select a server or channel to get started'']"

definition ServerPage :: "params \<Rightarrow> 'e ui" where
  "ServerPage ps = Box [Box [Txt ''Server '', Txt (nullish (map_of ps ''id'') [])],
     Txt ''Select a channel from the sidebar'']"

text \<open>The channel view the page of a channel mounts: its server and its channel.\<close>

definition ChannelPage :: "params \<Rightarrow> string \<times> string" where
  "ChannelPage ps = (nullish (map_of ps ''id'') [], nullish (map_of ps ''cid'') [])"

section \<open>The build\<close>

record build_env =
  NEXT_OUTPUT :: "string option"
  NODE_ENV :: "string option"

definition build_output :: "build_env \<Rightarrow> string option" where
  "build_output b =
     (if NEXT_OUTPUT b = Some ''server'' then None
      else if NODE_ENV b = Some ''production'' then Some ''export'' else None)"

definition nextConfig :: "build_env \<Rightarrow> json" where
  "nextConfig b = JObj
     ((case truthy (build_output b) of Some x \<Rightarrow> [(''output'', JStr x)] | None \<Rightarrow> []) @
      [(''trailingSlash'', JBool True),
       (''images'', JObj [(''unoptimized'', JBool True)]),
       (''allowedDevOrigins'', JArr
          [JStr ''*.trycloudflare.com'', JStr ''folks-focusing-garage-parker.trycloudflare.com'',
           JStr ''localhost''])])"

text \<open>\<open>generateStaticParams\<close>: the parameters an export renders a page for.\<close>

definition server_params :: "params list" where
  "server_params = [[(''id'', ''default'')]]"

definition channel_params :: "params list" where
  "channel_params = [[(''id'', ''default''), (''cid'', ''default'')]]"

definition generateStaticParams :: "route \<Rightarrow> params list" where
  "generateStaticParams r =
     (case r of ServerRoute \<Rightarrow> server_params | ChannelRoute \<Rightarrow> channel_params | _ \<Rightarrow> [[]])"

definition all_routes :: "route list" where
  "all_routes = [RootRoute, LoginRoute, RegisterRoute, TipsRoute, ServerRoute, ChannelRoute]"

definition exported_paths :: "string list" where
  "exported_paths = concat (map (\<lambda>r. map (route_path r) (generateStaticParams r)) all_routes)"

lemma exported_paths_are:
  "exported_paths = [''/'', ''/login'', ''/register'', ''/app/tips'', ''/servers/default'',
     ''/servers/default/channels/default'']"
  by (simp add: exported_paths_def all_routes_def route_path_def segments_of_def generateStaticParams_def server_params_def
      channel_params_def nullish_def)

section \<open>The contract of the router\<close>

text \<open>
  The documented behaviour of file routing: the path of a page, with values for its dynamic
  segments, leads to that page with those values, also with the slash at the end that
  \<open>trailingSlash\<close> adds.
\<close>

locale file_router =
  fixes resolve :: "string \<Rightarrow> (route \<times> params) option"
  assumes resolves: "map fst ps = param_names (segments_of r) \<Longrightarrow> \<forall>v\<in>set (map snd ps). path_text v \<Longrightarrow>
      t \<in> {[], ''/''} \<Longrightarrow> resolve (route_path r ps @ t) = Some (r, ps)"
begin

lemma to_server:
  "path_text i \<Longrightarrow> t \<in> {[], ''/''} \<Longrightarrow> resolve (''/servers/'' @ i @ t) = Some (ServerRoute, [(''id'', i)])"
  using resolves [of "[(''id'', i)]" ServerRoute t] by (simp add: route_path_def segments_of_def nullish_def)

lemma to_channel:
  "path_text i \<Longrightarrow> path_text c \<Longrightarrow> t \<in> {[], ''/''} \<Longrightarrow>
     resolve (''/servers/'' @ i @ ''/channels/'' @ c @ t) = Some (ChannelRoute, [(''id'', i), (''cid'', c)])"
  using resolves [of "[(''id'', i), (''cid'', c)]" ChannelRoute t]
  by (simp add: route_path_def segments_of_def nullish_def)

lemma to_fixed:
  "t \<in> {[], ''/''} \<Longrightarrow> resolve (''/app/tips'' @ t) = Some (TipsRoute, [])"
  "t \<in> {[], ''/''} \<Longrightarrow> resolve (''/login'' @ t) = Some (LoginRoute, [])"
  using resolves [of "[]" TipsRoute t] resolves [of "[]" LoginRoute t]
  by (simp_all add: route_path_def segments_of_def)

end

text \<open>A router that behaves so: it splits the path at its slashes and looks for the page.\<close>

fun split_at :: "char \<Rightarrow> string \<Rightarrow> string list" where
  "split_at c [] = [[]]"
| "split_at c (x # xs) =
     (if x = c then [] # split_at c xs
      else (case split_at c xs of [] \<Rightarrow> [[x]] | p # ps \<Rightarrow> (x # p) # ps))"

fun match_segments :: "segment list \<Rightarrow> string list \<Rightarrow> params option" where
  "match_segments [] [] = Some []"
| "match_segments (Fixed s # gs) (x # xs) = (if s = x then match_segments gs xs else None)"
| "match_segments (Dynamic k # gs) (x # xs) = map_option (\<lambda>ps. (k, x) # ps) (match_segments gs xs)"
| "match_segments _ _ = None"

definition match_route :: "string \<Rightarrow> (route \<times> params) option" where
  "match_route path =
     (let parts = filter (\<lambda>s. s \<noteq> []) (split_at (CHR 0x2F) path) in
      case filter (\<lambda>r. match_segments (segments_of r) parts \<noteq> None) all_routes of
        [] \<Rightarrow> None
      | r # _ \<Rightarrow> map_option (Pair r) (match_segments (segments_of r) parts))"

lemma split_at_ne: "split_at c xs \<noteq> []"
  by (induction xs) (auto split: list.split)

lemma split_at_text: "c \<notin> set s \<Longrightarrow> split_at c (s @ c # xs) = s # split_at c xs"
  by (induction s) auto

lemma split_at_end: "c \<notin> set s \<Longrightarrow> split_at c s = [s]"
  by (induction s) auto

interpretation next_router: file_router match_route
proof
  fix ps r t
  assume n: "map fst ps = param_names (segments_of r)" and v: "\<forall>v\<in>set (map snd ps). path_text v" and t: "t \<in> {[], ''/''}"
  let ?c = "CHR 0x2F"
  have one: "split_at ?c (s @ ''/'' @ xs) = s # split_at ?c xs" "split_at ?c s = [s]" if "path_text s" for s xs
    using that split_at_text [of ?c s xs] split_at_end [of ?c s] by (simp_all add: path_text_def)
  show "match_route (route_path r ps @ t) = Some (r, ps)"
  proof (cases r)
    case ServerRoute
    with n v obtain i where "ps = [(''id'', i)]" "path_text i" by (auto simp: segments_of_def)
    with ServerRoute t one(1) [of i "[]"] one(2) [of i] show ?thesis
      by (auto simp: match_route_def all_routes_def route_path_def segments_of_def nullish_def path_text_def Let_def)
  next
    case ChannelRoute
    with n v obtain i c where "ps = [(''id'', i), (''cid'', c)]" "path_text i" "path_text c"
      by (auto simp: segments_of_def)
    with ChannelRoute t one(1) [of i "''channels/'' @ c"] one(1) [of i "''channels/'' @ c @ ''/''"]
      one(1) [of c "[]"] one(2) [of c]
    show ?thesis
      by (auto simp: match_route_def all_routes_def route_path_def segments_of_def nullish_def path_text_def Let_def)
  qed (use n t in \<open>auto simp: match_route_def all_routes_def route_path_def segments_of_def\<close>)
qed

section \<open>Where the side bars lead\<close>

definition channel_path :: "string \<Rightarrow> string \<Rightarrow> string" where
  "channel_path srv ch = ''/servers/'' @ srv @ ''/channels/'' @ ch"

lemma take_segment:
  "CHR 0x2F \<notin> set s \<Longrightarrow> takeWhile (\<lambda>c. c \<noteq> CHR 0x2F) (s @ CHR 0x2F # r) = s"
  "CHR 0x2F \<notin> set s \<Longrightarrow> takeWhile (\<lambda>c. c \<noteq> CHR 0x2F) s = s"
  by (induction s) auto

text \<open>The side bars read from a path what was put into it, with or without a slash at the end.\<close>

lemma server_read_back:
  assumes "path_text i" "t \<in> {[], ''/''}"
  shows "server_of_path (''/servers/'' @ i @ t) = Some i"
  using assms
  by (auto simp: path_text_def server_of_path_def segment_after_def starts_with_def take_segment split: list.split)

lemma channel_read_back:
  assumes "path_text srv" "path_text ch" "t \<in> {[], ''/''}"
  shows "server_of_path (channel_path srv ch @ t) = Some srv" "channel_of_path (channel_path srv ch @ t) = Some ch"
proof -
  show s: "server_of_path (channel_path srv ch @ t) = Some srv"
    using assms by (simp add: path_text_def channel_path_def server_of_path_def segment_after_def starts_with_def
        take_segment split: list.split)
  show "channel_of_path (channel_path srv ch @ t) = Some ch"
    using assms unfolding channel_of_path_def s option.case
    by (auto simp: path_text_def channel_path_def segment_after_def starts_with_def take_segment split: list.split)
qed

lemma path_read_back:
  assumes "srv \<noteq> []" "ch \<noteq> []" "CHR 0x2F \<notin> set srv" "CHR 0x2F \<notin> set ch"
  shows "server_of_path (channel_path srv ch) = Some srv" "channel_of_path (channel_path srv ch) = Some ch"
  using channel_read_back [of srv ch "[]"] assms by (simp_all add: path_text_def)

lemma server_path_text: "server_of_path p = Some i \<Longrightarrow> path_text i"
  by (auto simp: server_of_path_def segment_after_def path_text_def dest: set_takeWhileD
      split: if_splits list.splits)



text \<open>
  An export holds a page for one server and one channel only: the paths the side bars push lead to
  no file of it. The program that is hosted is built with \<open>NEXT_OUTPUT=server\<close>; the desktop client
  loads the export.
\<close>

theorem export_misses_channels:
  assumes "path_text sid" "path_text c" "sid \<noteq> ''default'' \<or> c \<noteq> ''default''"
  shows "channel_path sid c \<notin> set exported_paths \<and>
    build_output \<lparr>NEXT_OUTPUT = None, NODE_ENV = Some ''production''\<rparr> = Some ''export'' \<and>
    build_output \<lparr>NEXT_OUTPUT = Some ''server'', NODE_ENV = Some ''production''\<rparr> = None"
proof -
  have r: "channel_of_path (channel_path sid c) = Some c" "server_of_path (channel_path sid c) = Some sid"
    using channel_read_back [OF assms(1,2), of "[]"] by simp_all
  have "channel_of_path p = None \<or> server_of_path p = Some ''default'' \<and> channel_of_path p = Some ''default''"
    if "p \<in> set exported_paths" for p
    using that unfolding exported_paths_are
    by (auto simp: channel_of_path_def server_of_path_def segment_after_def starts_with_def)
  with r assms(3) have "channel_path sid c \<notin> set exported_paths" by fastforce
  then show ?thesis by (simp add: build_output_def)
qed

theorem export_misses_channels_witness: "channel_path ''s1'' ''c1'' \<notin> set exported_paths"
  using export_misses_channels [of "''s1''" "''c1''"] by (simp add: path_text_def)

end
