(* ===== verification/Desktop.thy ===== *)
theory Desktop
  imports Layout Routes
begin

text \<open>
  \<open>apps/desktop-app/main.js\<close>, the main process of the desktop client: its window, tray icon,
  menu, stored preference and notifications; and \<open>preload.js\<close>, which connects it to the pages.
  It holds the single-instance lock. Handlers are programs of \<open>Runtime\<close> that never wait; a
  method called on a destroyed window throws.
\<close>

section \<open>Windows and menus\<close>

record app_window =
  visible :: bool
  minimized :: bool
  focused :: bool
  destroyed :: bool
  to_page :: "(string \<times> json) list"

definition new_window :: app_window where
  "new_window = \<lparr>visible = True, minimized = False, focused = True, destroyed = False, to_page = []\<rparr>"

definition win_show :: "app_window \<Rightarrow> app_window" where
  "win_show b = b\<lparr>visible := True\<rparr>"

definition win_focus :: "app_window \<Rightarrow> app_window" where
  "win_focus b = b\<lparr>focused := True\<rparr>"

definition win_hide :: "app_window \<Rightarrow> app_window" where
  "win_hide b = b\<lparr>visible := False, focused := False\<rparr>"

definition win_restore :: "app_window \<Rightarrow> app_window" where
  "win_restore b = b\<lparr>minimized := False\<rparr>"

text \<open>Bring the window up: restored if it was minimized, shown if it was hidden, focused.\<close>

definition bring_up :: "app_window \<Rightarrow> app_window" where
  "bring_up b =
     (let b = (if minimized b then win_restore b else b);
          b = (if \<not> visible b then win_show b else b) in win_focus b)"

text \<open>A menu entry: a role, with the accelerator the template gives it, or the Quit action.\<close>

datatype entry = Role string | RoleKey string string | Separator | QuitItem string

definition app_menu :: "(string \<times> entry list) list" where
  "app_menu = [(''Concordia'', [Role ''about'', Separator, Role ''services'', Separator, Role ''hide'',
     Role ''hideOthers'', Role ''unhide'', Separator, QuitItem ''Command+Q''])]"

definition menu_template :: "bool \<Rightarrow> (string \<times> entry list) list" where
  "menu_template isMac =
     (if isMac then app_menu else []) @
     [(''File'', [if isMac then Role ''close'' else QuitItem ''Ctrl+Q'']),
      (''Edit'', [Role ''undo'', Role ''redo'', Separator, Role ''cut'', Role ''copy'', Role ''paste''] @
         (if isMac then [Role ''pasteAndMatchStyle'', Role ''delete'', Role ''selectAll'']
          else [Role ''delete'', Separator, Role ''selectAll''])),
      (''View'', [Role ''reload'', Role ''forceReload'', RoleKey ''toggleDevTools'' ''CommandOrControl+Shift+I'',
         Separator, Role ''resetZoom'', Role ''zoomIn'', Role ''zoomOut'', Separator, Role ''togglefullscreen'']),
      (''Window'', [Role ''minimize'', Role ''zoom''] @
         (if isMac then [Separator, Role ''front''] else [Role ''close'']))]"

section \<open>State\<close>

record app_note =
  n_title :: "json option"
  n_body :: string
  n_url :: "json option"

record desktop =
  mainWindow :: "app_window option"
  tray :: bool
  isQuitting :: bool
  store :: "(string \<rightharpoonup> json) option"
  menu :: "(string \<times> entry list) list"
  noted :: "app_note list"
  quits :: nat

text \<open>
  \<open>Ready saved\<close>: the application is ready, and the preferences file holds \<open>saved\<close>. The last
  group is what the user and the window system do to the window.
\<close>

datatype desktop_event =
    Ready "string \<rightharpoonup> json"
  | TrayTimer
  | SecondInstance
  | Activate
  | TrayOpen
  | TrayQuit
  | TrayClick
  | TrayDouble
  | MenuQuit
  | BeforeQuit
  | WindowAllClosed
  | SetPreference json
  | ShowNotification json
  | NoteClick nat
  | CloseWindow
  | WindowChange bool bool

section \<open>Handlers\<close>

definition on_window :: "(app_window \<Rightarrow> app_window) \<Rightarrow> (desktop, unit) io \<Rightarrow> (desktop, unit) io" where
  "on_window f none =
     Get (\<lambda>w. case mainWindow w of
       None \<Rightarrow> none
     | Some b \<Rightarrow>
         if destroyed b then Throw (ErrorMsg ''Object has been destroyed'')
         else upd (\<lambda>w. w\<lparr>mainWindow := Some (f b)\<rparr>))"

definition createWindow :: "bool \<Rightarrow> desktop \<Rightarrow> desktop" where
  "createWindow isMac w = w\<lparr>mainWindow := Some new_window, menu := menu_template isMac\<rparr>"

definition show_and_focus :: "app_window \<Rightarrow> app_window" where
  "show_and_focus b = win_focus (win_show b)"

definition quit_app :: "desktop \<Rightarrow> desktop" where
  "quit_app w = w\<lparr>isQuitting := True, quits := quits w + 1\<rparr>"

text \<open>\<open>store.get('notificationsEnabled', true)\<close>, with the default of the store itself.\<close>

definition preference :: "desktop \<Rightarrow> json option" where
  "preference w = map_option (\<lambda>f. nullish (f ''notificationsEnabled'') (JBool True)) (store w)"

definition on_note_click :: "app_note \<Rightarrow> (desktop, unit) io" where
  "on_note_click n =
     on_window (\<lambda>b. if falsy (n_url n) then bring_up b
       else (bring_up b)\<lparr>to_page := to_page b @ [(''navigate-to-channel'', the (n_url n))]\<rparr>) skip"

definition notify :: "bool \<Rightarrow> json \<Rightarrow> (desktop, unit) io" where
  "notify supported opts =
     (if supported then
        (case str_field ''body'' opts of
           None \<Rightarrow> Throw TypeError
         | Some s \<Rightarrow> upd (\<lambda>w. w\<lparr>noted := noted w @
             [\<lparr>n_title = opt_prop ''title'' (Some opts), n_body = take 100 s,
               n_url = opt_prop ''channelUrl'' (Some opts)\<rparr>]\<rparr>))
      else skip)"

definition show_notification :: "bool \<Rightarrow> json \<Rightarrow> (desktop, unit) io" where
  "show_notification supported opts =
     Get (\<lambda>w. case preference w of
       None \<Rightarrow> Throw TypeError
     | Some p \<Rightarrow>
         if falsy (Some p) then skip
         else (case mainWindow w of
             Some b \<Rightarrow> if destroyed b then Throw (ErrorMsg ''Object has been destroyed'')
                       else if focused b then skip else notify supported opts
           | None \<Rightarrow> notify supported opts))"

definition set_preference :: "json \<Rightarrow> (desktop, unit) io" where
  "set_preference v =
     Get (\<lambda>w. case store w of
       None \<Rightarrow> Throw TypeError
     | Some f \<Rightarrow> upd (\<lambda>w. w\<lparr>store := Some (f(''notificationsEnabled'' \<mapsto> v))\<rparr>))"

text \<open>The window asks to be closed: hidden instead, unless the application is quitting.\<close>

definition close_window :: "(desktop, unit) io" where
  "close_window =
     Get (\<lambda>w. if isQuitting w then on_window (\<lambda>b. b\<lparr>destroyed := True, visible := False, focused := False\<rparr>) skip
              else on_window win_hide skip)"

definition on_activate :: "bool \<Rightarrow> (desktop, unit) io" where
  "on_activate isMac =
     Get (\<lambda>w. case mainWindow w of
       None \<Rightarrow> upd (createWindow isMac)
     | Some b \<Rightarrow> if destroyed b then upd (createWindow isMac) else on_window show_and_focus skip)"

text \<open>\<open>isMac\<close> is the platform; \<open>supported\<close> is \<open>Notification.isSupported()\<close>.\<close>

fun desktop_handler :: "bool \<Rightarrow> bool \<Rightarrow> desktop_event \<Rightarrow> (desktop, unit) io" where
  "desktop_handler isMac supported (Ready saved) =
     upd (\<lambda>w. createWindow isMac (w\<lparr>store := Some saved\<rparr>))"
| "desktop_handler isMac supported TrayTimer = upd (\<lambda>w. w\<lparr>tray := True\<rparr>)"
| "desktop_handler isMac supported SecondInstance = on_window bring_up skip"
| "desktop_handler isMac supported Activate = on_activate isMac"
| "desktop_handler isMac supported TrayOpen = on_window show_and_focus (upd (createWindow isMac))"
| "desktop_handler isMac supported TrayQuit = upd quit_app"
| "desktop_handler isMac supported TrayClick =
     on_window (\<lambda>b. if visible b then win_hide b else show_and_focus b) skip"
| "desktop_handler isMac supported TrayDouble = on_window show_and_focus (upd (createWindow isMac))"
| "desktop_handler isMac supported MenuQuit = upd quit_app"
| "desktop_handler isMac supported BeforeQuit = upd (\<lambda>w. w\<lparr>isQuitting := True\<rparr>)"
| "desktop_handler isMac supported WindowAllClosed = skip"
| "desktop_handler isMac supported (SetPreference v) = set_preference v"
| "desktop_handler isMac supported (ShowNotification opts) = show_notification supported opts"
| "desktop_handler isMac supported (NoteClick i) = Get (\<lambda>w. on_note_click (noted w ! i))"
| "desktop_handler isMac supported CloseWindow = close_window"
| "desktop_handler isMac supported (WindowChange foc mini) =
     on_window (\<lambda>b. b\<lparr>focused := foc, minimized := mini\<rparr>) skip"

definition window_open :: "desktop \<Rightarrow> bool" where
  "window_open w \<longleftrightarrow> (\<exists>b. mainWindow w = Some b \<and> \<not> destroyed b)"

text \<open>
  What can happen when: the application becomes ready once; pages send only while the window
  is open; a hidden window is not focused.
\<close>

fun desktop_enabled :: "desktop_event \<Rightarrow> desktop \<Rightarrow> bool" where
  "desktop_enabled (Ready saved) w = (store w = None)"
| "desktop_enabled TrayTimer w = (store w \<noteq> None \<and> \<not> tray w)"
| "desktop_enabled Activate w = (store w \<noteq> None)"
| "desktop_enabled TrayOpen w = tray w"
| "desktop_enabled TrayQuit w = tray w"
| "desktop_enabled TrayClick w = tray w"
| "desktop_enabled TrayDouble w = tray w"
| "desktop_enabled MenuQuit w = (menu w \<noteq> [])"
| "desktop_enabled WindowAllClosed w = (\<not> window_open w)"
| "desktop_enabled (SetPreference v) w = window_open w"
| "desktop_enabled (ShowNotification opts) w = window_open w"
| "desktop_enabled (NoteClick i) w = (i < length (noted w))"
| "desktop_enabled CloseWindow w = window_open w"
| "desktop_enabled (WindowChange foc mini) w = (window_open w \<and> (foc \<longrightarrow> (\<exists>b. mainWindow w = Some b \<and> visible b)))"
| "desktop_enabled ev w = True"

definition desktop_start :: desktop where
  "desktop_start = \<lparr>mainWindow = None, tray = False, isQuitting = False, store = None, menu = [], noted = [], quits = 0\<rparr>"

section \<open>The window stays\<close>

definition quit_items :: "(string \<times> entry list) list \<Rightarrow> entry list" where
  "quit_items t = filter (\<lambda>x. case x of QuitItem _ \<Rightarrow> True | _ \<Rightarrow> False) (concat (map snd t))"

lemma one_quit_item: "length (quit_items (menu_template isMac)) = 1"
  by (simp add: quit_items_def menu_template_def app_menu_def)

definition tidy :: "desktop \<Rightarrow> bool" where
  "tidy w \<longleftrightarrow> (store w \<noteq> None \<longrightarrow> mainWindow w \<noteq> None) \<and>
     (\<forall>b. mainWindow w = Some b \<longrightarrow> (destroyed b \<longrightarrow> isQuitting w) \<and> (focused b \<longrightarrow> visible b)) \<and>
     (\<forall>n\<in>set (noted w). length (n_body n) \<le> 100)"

lemmas window_ops = win_show_def win_focus_def win_hide_def win_restore_def bring_up_def show_and_focus_def
  new_window_def Let_def

lemma tidy_window:
  "tidy w \<Longrightarrow> (\<And>b. mainWindow w = Some b \<Longrightarrow> \<not> destroyed b \<Longrightarrow>
       (destroyed (f b) \<longrightarrow> isQuitting w) \<and> (focused b \<longrightarrow> visible b \<longrightarrow> focused (f b) \<longrightarrow> visible (f b)) \<and>
       (\<not> focused b \<longrightarrow> focused (f b) \<longrightarrow> visible (f b))) \<Longrightarrow>
     wp tidy none w \<Longrightarrow> wp tidy (on_window f none) w"
  by (auto simp: on_window_def tidy_def upd_def split: option.split)

lemma tidy_create: "tidy w \<Longrightarrow> tidy (createWindow isMac w)"
  by (auto simp: tidy_def createWindow_def new_window_def)

interpretation desktop_app: component desktop_enabled "desktop_handler isMac supported" desktop_start tidy
  for isMac supported
proof
  show "tidy desktop_start" by (simp add: tidy_def desktop_start_def)
next
  fix w ev assume i: "tidy w" and en: "desktop_enabled ev w"
  have skip: "wp tidy skip w" and new: "wp tidy (upd (createWindow isMac)) w"
    using i tidy_create by (simp_all add: skip_def upd_def)
  show "wp tidy (desktop_handler isMac supported ev) w"
  proof (cases ev)
    case (Ready saved)
    with i show ?thesis by (auto simp: tidy_def createWindow_def new_window_def upd_def)
  next
    case Activate
    with new tidy_window [OF i _ skip, of show_and_focus] i show ?thesis
      by (auto simp: on_activate_def window_ops split: option.split)
  next
    case (ShowNotification opts)
    with i show ?thesis
      by (auto simp: show_notification_def notify_def tidy_def upd_def skip_def split: option.split)
  next
    case (NoteClick n)
    with tidy_window [OF i _ skip] show ?thesis by (auto simp: on_note_click_def window_ops)
  next
    case (SetPreference v)
    with i show ?thesis by (auto simp: set_preference_def tidy_def upd_def split: option.split)
  next
    case CloseWindow
    with tidy_window [OF i _ skip] show ?thesis by (auto simp: close_window_def window_ops)
  next
    case (WindowChange foc mini)
    with en tidy_window [OF i _ skip] show ?thesis by auto
  next
    case SecondInstance
    with tidy_window [OF i _ skip, of bring_up] show ?thesis by (simp add: window_ops)
  next
    case TrayOpen
    with tidy_window [OF i _ new, of show_and_focus] show ?thesis by (simp add: window_ops)
  next
    case TrayDouble
    with tidy_window [OF i _ new, of show_and_focus] show ?thesis by (simp add: window_ops)
  next
    case TrayClick
    with tidy_window [OF i _ skip, of "\<lambda>b. if visible b then win_hide b else show_and_focus b"]
    show ?thesis by (simp add: window_ops)
  qed (use i in \<open>auto simp: tidy_def quit_app_def upd_def skip_def\<close>)
qed

section \<open>The preload script\<close>

text \<open>
  What the pages send through \<open>electronAPI\<close> reaches the handlers of the main process; the
  messages are those the pages keep in \<open>shell\<close> and \<open>ipc_sent\<close>.
\<close>

definition ipc_event :: "string \<times> json \<Rightarrow> desktop_event option" where
  "ipc_event m =
     (if fst m = ''show-notification'' then Some (ShowNotification (snd m))
      else if fst m = ''set-notification-preference'' then Some (SetPreference (snd m))
      else None)"

text \<open>The window on screen: up, in front, not destroyed.\<close>

definition in_front :: "desktop \<Rightarrow> bool" where
  "in_front w \<longleftrightarrow> (\<exists>b. mainWindow w = Some b \<and> visible b \<and> focused b \<and> \<not> destroyed b)"

definition raising :: "desktop \<Rightarrow> desktop_event list" where
  "raising w = [Activate, SecondInstance] @ (if tray w then [TrayOpen, TrayDouble] else [])"

lemma raise_window:
  assumes "store w \<noteq> None" "mainWindow w = Some b" "\<not> destroyed b" "ev \<in> set (raising w)"
  shows "\<exists>w'. exec desktop_enabled (desktop_handler isMac supported) [Event ev] (w, ts) = Some (w', ts @ [Ret ()]) \<and> in_front w'"
  using assms
  by (auto simp: raising_def on_activate_def on_window_def upd_def in_front_def window_ops split: if_splits)


definition demo_desktop :: desktop where
  "demo_desktop = (createWindow False (desktop_start\<lparr>store := Some Map.empty\<rparr>))\<lparr>tray := True\<rparr>"

lemma demo_desktop_runs:
  "exec desktop_enabled (desktop_handler False True) [Event (Ready Map.empty), Event TrayTimer] (desktop_start, []) =
     Some (demo_desktop, [Ret (), Ret ()])"
  by (simp add: demo_desktop_def desktop_start_def upd_def createWindow_def)


section \<open>From a mention to the channel\<close>

definition page_event :: "string \<times> json \<Rightarrow> layout_event option" where
  "page_event m =
     (case m of (k, JStr u) \<Rightarrow> if k = ''navigate-to-channel'' then Some (ShellNavigate u) else None
      | _ \<Rightarrow> None)"

definition mention_note :: "string \<Rightarrow> string \<Rightarrow> string \<Rightarrow> string \<Rightarrow> app_note" where
  "mention_note srv ch name msg =
     \<lparr>n_title = Some (JStr (''Mentioned in #'' @ name)), n_body = take 100 msg, n_url = Some (JStr (channel_path srv ch))\<rparr>"

lemma mention_shown:
  assumes "store w \<noteq> None" "mainWindow w = Some b" "\<not> destroyed b"
    and "srv \<noteq> []" "ch \<noteq> []" "name \<noteq> []" "msg \<noteq> []"
  shows "\<exists>n. notification_of (Some (mention_frame srv ch name msg)) = Some n \<and>
    exec desktop_enabled (desktop_handler isMac True) [Event (ShowNotification n)] (w, ts) =
      Some (if falsy (preference w) \<or> focused b then w else w\<lparr>noted := noted w @ [mention_note srv ch name msg]\<rparr>,
        ts @ [Ret ()])"
proof -
  obtain p where "preference w = Some p" using assms(1) by (auto simp: preference_def)
  with assms show ?thesis
    by (simp add: notification_of_mention window_open_def show_notification_def notify_def skip_def upd_def
        str_field_def opt_prop_def mention_note_def channel_path_def)
qed

lemma note_clicked:
  assumes "mainWindow w = Some b" "\<not> destroyed b" "noted w ! i = mention_note srv ch name msg" "i < length (noted w)"
  shows "exec desktop_enabled (desktop_handler isMac True) [Event (NoteClick i)] (w, ts) =
    Some (w\<lparr>mainWindow := Some ((bring_up b)\<lparr>to_page := to_page b @ [(''navigate-to-channel'', JStr (channel_path srv ch))]\<rparr>)\<rparr>,
      ts @ [Ret ()])"
  using assms by (simp add: on_note_click_def on_window_def upd_def mention_note_def channel_path_def)


definition hidden_desktop :: desktop where
  "hidden_desktop = demo_desktop\<lparr>mainWindow := Some (win_hide new_window)\<rparr>"


section \<open>The preference is kept\<close>

lemma toggle_runs:
  "cs_life s = Mounted \<Longrightarrow> exec (side_enabled True) (side_handler e True) [Event Toggle] (s, ts) =
     Some (toggleNotifications True s, ts @ [Ret ()])"
  by (simp add: upd_def side_view_def)

lemma preference_stored:
  "store d = Some f \<Longrightarrow> window_open d \<Longrightarrow>
     exec desktop_enabled (desktop_handler isMac supported) [Event (SetPreference v)] (d, ts) =
       Some (d\<lparr>store := Some (f(''notificationsEnabled'' \<mapsto> v))\<rparr>, ts @ [Ret ()])"
  by (simp add: set_preference_def upd_def)

lemma preference_loaded:
  "cs_life s = Fresh \<Longrightarrow> serverOf s = None \<Longrightarrow>
     \<exists>s' us. exec (side_enabled True) (side_handler e True) [Event SideMount, Answer (Suc (length ts)) 0 (Value (JBool v))] (s, ts) =
       Some (s', us) \<and> notificationsEnabled s' = v"
  by (simp add: server_effect_def load_preference_def invoke_def serverOf_def upd_def nth_append)



end
