(* ===== verification/Interference.thy ===== *)
theory Interference
  imports Runtime
begin

text \<open>
  Invariants of a component with a guarded operation that goes through phases: at each of its
  suspension points it relies on an assertion that the other handlers do not disturb. The
  assertions are a parameter, as is the invariant they imply.
\<close>

section \<open>Programs with assertions\<close>

text \<open>
  \<open>asserts Js E X m w\<close>: run from \<open>w\<close>, \<open>m\<close> satisfies one of the assertions \<open>Js\<close> at every
  suspension point, if that assertion still holds when it goes on; it returns in a state
  that satisfies \<open>E\<close> and throws in one that satisfies \<open>X\<close>. It sets nothing going.
\<close>

primrec asserts ::
  "('w \<Rightarrow> bool) set \<Rightarrow> ('a \<Rightarrow> 'w \<Rightarrow> bool) \<Rightarrow> ('w \<Rightarrow> bool) \<Rightarrow> ('w, 'a) io \<Rightarrow> 'w \<Rightarrow> bool" where
  "asserts Js E X (Ret x) w = E x w"
| "asserts Js E X (Throw e) w = X w"
| "asserts Js E X (Get g) w = asserts Js E X (g w) w"
| "asserts Js E X (Put u m) w = asserts Js E X m (u w)"
| "asserts Js E X (Await cs k) w =
     (\<exists>J\<in>Js. J w \<and> (\<forall>i r w'. J w' \<longrightarrow> asserts Js E X (k i r) w'))"
| "asserts Js E X (Spawn p m) w = False"

lemma asserts_bind:
  "asserts Js E X m w \<Longrightarrow> (\<And>x w. E x w \<Longrightarrow> asserts Js E' X (f x) w) \<Longrightarrow> asserts Js E' X (bind m f) w"
proof (induction m arbitrary: w)
  case (Await cs k)
  from Await.prems(1) obtain J where J: "J \<in> Js" "J w" "\<And>i r w'. J w' \<Longrightarrow> asserts Js E X (k i r) w'"
    by auto
  have "asserts Js E' X (bind (k i r) f) w'" if "J w'" for i r w'
    by (rule Await.IH [OF J(3) [OF that] Await.prems(2)])
  with J(1,2) show ?case by auto
qed auto

lemma asserts_try:
  "asserts Js E X m w \<Longrightarrow> (\<And>e w. X w \<Longrightarrow> asserts Js E X' (h e) w) \<Longrightarrow> asserts Js E X' (try_catch m h) w"
proof (induction m arbitrary: w)
  case (Await cs k)
  from Await.prems(1) obtain J where J: "J \<in> Js" "J w" "\<And>i r w'. J w' \<Longrightarrow> asserts Js E X (k i r) w'"
    by auto
  have "asserts Js E X' (try_catch (k i r) h) w'" if "J w'" for i r w'
    by (rule Await.IH [OF J(3) [OF that] Await.prems(2)])
  with J(1,2) show ?case by auto
qed auto

lemma asserts_finally:
  "asserts Js E X m w \<Longrightarrow> (\<And>x w. E x w \<Longrightarrow> E' x (u w)) \<Longrightarrow> (\<And>w. X w \<Longrightarrow> X' (u w)) \<Longrightarrow>
     asserts Js E' X' (finally_do m u) w"
proof (induction m arbitrary: w)
  case (Await cs k)
  from Await.prems(1) obtain J where J: "J \<in> Js" "J w" "\<And>i r w'. J w' \<Longrightarrow> asserts Js E X (k i r) w'"
    by auto
  have "asserts Js E' X' (finally_do (k i r) u) w'" if "J w'" for i r w'
    by (rule Await.IH [OF J(3) [OF that] Await.prems(2,3)])
  with J(1,2) show ?case by auto
qed auto

lemma asserts_mono:
  "asserts Js E X m w \<Longrightarrow> (\<And>x w. E x w \<Longrightarrow> E' x w) \<Longrightarrow> (\<And>w. X w \<Longrightarrow> X' w) \<Longrightarrow> asserts Js E' X' m w"
proof (induction m arbitrary: w)
  case (Await cs k)
  from Await.prems(1) obtain J where J: "J \<in> Js" "J w" "\<And>i r w'. J w' \<Longrightarrow> asserts Js E X (k i r) w'"
    by auto
  have "asserts Js E' X' (k i r) w'" if "J w'" for i r w'
    by (rule Await.IH [OF J(3) [OF that] Await.prems(2,3)])
  with J(1,2) show ?case by auto
qed auto

text \<open>A program that keeps an assertion asserts it all along.\<close>

lemma asserts_wps:
  "wps J Q m w \<Longrightarrow> single m \<Longrightarrow> J \<in> Js \<Longrightarrow> \<forall>w. Q w \<longrightarrow> J w \<Longrightarrow> asserts Js (\<lambda>_. J) J m w"
proof (induction m arbitrary: w Q)
  case (Get g)
  have "wps J Q (g w) w" "single (g w)" using Get.prems by simp_all
  from Get.IH [OF this Get.prems(3,4)] show ?case by simp
next
  case (Put u m)
  have "wps J Q m (u w)" "single m" using Put.prems by simp_all
  from Put.IH [OF this Put.prems(3,4)] show ?case by simp
next
  case (Await cs k)
  have "asserts Js (\<lambda>_. J) J (k i r) w'" if "J w'" for i r w'
  proof (rule Await.IH [where Q = J])
    show "wp J (k i r) w'" using Await.prems(1) that by simp
    show "single (k i r)" using Await.prems(2) by simp
  qed (use Await.prems in simp_all)
  moreover have "J w" using Await.prems(1,4) by simp
  ultimately show ?case using Await.prems(3) by (simp only: asserts.simps) blast
qed simp_all

lemma asserts_wp: "wp J m w \<Longrightarrow> single m \<Longrightarrow> J \<in> Js \<Longrightarrow> asserts Js (\<lambda>_. J) J m w"
  by (rule asserts_wps [where Q = J]) simp_all

text \<open>What a suspended program of this kind guarantees, and when.\<close>

fun asserted :: "('w \<Rightarrow> bool) set \<Rightarrow> ('w \<Rightarrow> bool) \<Rightarrow> ('w, unit) io \<Rightarrow> 'w \<Rightarrow> bool" where
  "asserted Js I (Await cs k) w =
     (\<exists>J\<in>Js. J w \<and> (\<forall>i r w'. J w' \<longrightarrow> asserts Js (\<lambda>_. I) I (k i r) w'))"
| "asserted Js I _ w = True"

lemma asserts_seg:
  "asserts Js (\<lambda>_. I) I m w \<Longrightarrow> \<forall>J\<in>Js. \<forall>w. J w \<longrightarrow> I w \<Longrightarrow> seg m w = (w', ps, t) \<Longrightarrow>
     I w' \<and> ps = [] \<and> asserted Js I t w'"
proof (induction m arbitrary: w)
  case (Await cs k)
  then have "w' = w" "ps = []" "t = Await cs k" by simp_all
  with Await.prems(1,2) show ?case by auto
qed auto

lemma asserted_keeps:
  assumes "asserted Js I t w" "\<And>J. J \<in> Js \<Longrightarrow> J w \<Longrightarrow> J w'"
  shows "asserted Js I t w'"
proof (cases t)
  case (Await cs k)
  with assms show ?thesis by simp blast
qed simp_all

lemma only_owner:
  assumes "owners B ts = 1" "owns B (ts ! i)" "i < length ts" "j < length ts" "j \<noteq> i"
  shows "\<not> owns B (ts ! j)"
proof -
  have "owners B (ts[i := Ret ()]) = 0"
    using owners_update [OF assms(3), of B "Ret ()"] assms(1,2) by (simp add: owns_def)
  moreover have "ts ! j \<in> set (ts[i := Ret ()])"
    using assms(4,5) by (metis length_list_update nth_list_update_neq nth_mem)
  ultimately show ?thesis using owners_pos by fastforce
qed

text \<open>A stretch ends with the end of the program or at a suspension point.\<close>

lemma seg_ends: "seg m w = (w', ps, t) \<Longrightarrow> suspended t \<or> frames f t"
  by (induction m arbitrary: w w' ps t) (auto split: prod.splits)

section \<open>The first stretch of a handler\<close>

definition after :: "('w \<Rightarrow> bool) \<Rightarrow> ('w, 'a) io \<Rightarrow> 'w \<Rightarrow> bool" where
  "after Q m w \<longleftrightarrow> (case seg m w of (w', ps, t) \<Rightarrow> Q w')"

lemma after_simps [simp]:
  "after Q (Ret x) w = Q w" "after Q (Throw e) w = Q w" "after Q (Get g) w = after Q (g w) w"
  "after Q (Put u m) w = after Q m (u w)" "after Q (Await cs k) w = Q w"
  "after Q (Spawn p m) w = after (\<lambda>w'. after Q m w') p w"
  by (auto simp: after_def split: prod.splits)

lemma after_frames:
  assumes "frames f m" "\<And>w'. f w' = f w \<Longrightarrow> Q w'"
  shows "after Q m w"
  using frames_seg [OF assms(1)] assms(2) by (fastforce simp: after_def split: prod.splits)

lemma after_seg: "after Q m w \<Longrightarrow> seg m w = (w', ps, t) \<Longrightarrow> Q w'"
  by (simp add: after_def)

lemma tail_frames_bind: "tail_frames f m \<Longrightarrow> (\<And>x. frames f (g x)) \<Longrightarrow> tail_frames f (bind m g)"
  by (induction m arbitrary: g) (auto simp: frames_tail frames_bind)

lemma tail_frames_try: "tail_frames f m \<Longrightarrow> (\<And>e. frames f (h e)) \<Longrightarrow> tail_frames f (try_catch m h)"
  by (induction m) (auto simp: frames_tail frames_try)

section \<open>The contract of a component\<close>

text \<open>
  The guarded operation starts only while the flag is down. The first stretch of every other
  handler keeps the invariant and each assertion; what it leaves behind does not touch the
  part \<open>g\<close> of the state they speak of.
\<close>

locale phased = guarded_flight en h w0 busy
  for en :: "'e \<Rightarrow> 'w \<Rightarrow> bool"
    and h :: "'e \<Rightarrow> ('w, unit) io"
    and w0 :: "'w"
    and busy :: "'w \<Rightarrow> bool" +
  fixes I :: "'w \<Rightarrow> bool"
    and Js :: "('w \<Rightarrow> bool) set"
    and g :: "'w \<Rightarrow> 'v"
  assumes starts: "I w0"
    and implied: "\<forall>J\<in>Js. \<forall>w. J w \<longrightarrow> I w"
    and seen: "J \<in> insert I Js \<Longrightarrow> g w' = g w \<Longrightarrow> J w \<Longrightarrow> J w'"
    and operation: "en e w \<Longrightarrow> I w \<Longrightarrow> \<not> frames busy (h e) \<Longrightarrow>
      \<not> busy w \<and> asserts Js (\<lambda>_. I) I (h e) w"
    and others: "frames busy (h e) \<Longrightarrow> tail_frames g (h e)"
    and stretch: "en e w \<Longrightarrow> frames busy (h e) \<Longrightarrow> J \<in> insert I Js \<Longrightarrow> J w \<Longrightarrow>
      after J (h e) w"
begin

definition in_phase :: "'w \<times> 'w threads \<Rightarrow> bool" where
  "in_phase c \<longleftrightarrow> I (fst c) \<and>
     (\<forall>t\<in>set (snd c). (frames busy t \<longrightarrow> frames g t) \<and> (owns busy t \<longrightarrow> asserted Js I t (fst c)))"

lemma owner_done:
  assumes "asserts Js (\<lambda>_. I) I m w" "flight busy m w" "seg m w = (w', ps, u)"
  shows "I w' \<and> ps = [] \<and> (frames busy u \<longrightarrow> frames g u) \<and> (owns busy u \<longrightarrow> asserted Js I u w')"
proof -
  note s = asserts_seg [OF assms(1) implied assms(3)]
  from flight_seg [OF assms(2,3)] have f: "suspended u = busy w'" "lands busy u" by simp_all
  have "frames busy u \<longrightarrow> frames g u"
  proof (cases "suspended u")
    case True
    with f lands_owns [of busy u w'] show ?thesis by (simp add: owns_def)
  next
    case False
    with seg_ends [OF assms(3), of g] show ?thesis by simp
  qed
  with s show ?thesis by simp
qed

lemma phase_event:
  assumes "en e w" "seg (h e) w = (w', ps, u)" "guarded (w, ts)" "in_phase (w, ts)"
  shows "in_phase (w', ts @ ps @ [u])"
proof (cases "frames busy (h e)")
  case True
  from tail_frames_seg [OF others [OF True] assms(2)] frames_seg [OF True assms(2)]
  have new: "(frames busy t \<longrightarrow> frames g t) \<and> \<not> owns busy t" if "t \<in> set (ps @ [u])" for t
    using that by (auto simp: owns_def)
  have J: "J w'" if "J \<in> insert I Js" "J w" for J
    by (rule after_seg [OF stretch [OF assms(1) True that] assms(2)])
  have "I w'" using J [of I] assms(4) by (simp add: in_phase_def)
  moreover have "asserted Js I t w'" if "asserted Js I t w" for t
    using that J by (rule asserted_keeps) simp_all
  ultimately show ?thesis using assms(4) new by (auto simp: in_phase_def)
next
  case False
  have I: "I w" using assms(4) by (simp add: in_phase_def)
  note op = operation [OF assms(1) I False]
  then have "flight busy (h e) w" using each [OF assms(1)] False by simp
  note d = owner_done [OF conjunct2 [OF op] this assms(2)]
  have "owners busy ts = 0" using assms(3) op by (simp add: guarded_def)
  then have "\<not> owns busy t" if "t \<in> set ts" for t using owners_pos [OF that] by (metis less_irrefl)
  with assms(4) d show ?thesis by (auto simp: in_phase_def)
qed

lemma phase_answer:
  assumes "i < length ts" "ts ! i = Await cs k" "seg (k j r) w = (w', ps, u)"
    and "guarded (w, ts)" "in_phase (w, ts)"
  shows "in_phase (w', ts[i := u] @ ps)"
proof (cases "frames busy (Await cs k)")
  case True
  with assms(1,2,5) have "frames g (Await cs k)" by (metis in_phase_def nth_mem snd_conv)
  then have "frames g (k j r)" "frames busy (k j r)" using True by simp_all
  note f = frames_seg [OF this(1) assms(3)] and b = frames_seg [OF this(2) assms(3)]
  have J: "J w'" if "J \<in> insert I Js" "J w" for J using seen [OF that(1) conjunct1 [OF f] that(2)] .
  have "I w'" using J [of I] assms(5) by (simp add: in_phase_def)
  moreover have "asserted Js I t w'" if "asserted Js I t w" for t
    using that J by (rule asserted_keeps) simp_all
  ultimately show ?thesis using assms(5) f b
    by (auto simp: in_phase_def owns_def dest: set_update_subset_insert [THEN subsetD])
next
  case False
  then have o: "owns busy (ts ! i)" using assms(2) by (simp add: owns_def)
  with assms(1) have "0 < owners busy ts" by (intro owners_pos [of "ts ! i"]) simp_all
  with assms(4) have b: "busy w" "owners busy ts = 1" by (simp_all add: guarded_def split: if_splits)
  have "asserted Js I (Await cs k) w"
    using assms(1,2,5) o by (metis in_phase_def fst_conv nth_mem snd_conv)
  then have a: "asserts Js (\<lambda>_. I) I (k j r) w" by auto
  have "lands busy (Await cs k)" using assms False by (metis guarded_def nth_mem snd_conv)
  with b have "flight busy (k j r) w" by simp
  note d = owner_done [OF a this assms(3)]
  have "(frames busy t \<longrightarrow> frames g t) \<and> (owns busy t \<longrightarrow> asserted Js I t w')" if "t \<in> set (ts[i := u])" for t
  proof -
    from that obtain n where n: "n < length ts" "t = ts[i := u] ! n" by (metis in_set_conv_nth length_list_update)
    show ?thesis
    proof (cases "n = i")
      case True
      with n d assms(1) show ?thesis by simp
    next
      case False
      with n have t: "t = ts ! n" by simp
      with only_owner [OF b(2) o assms(1) n(1) False] n(1) assms(5) show ?thesis
        by (simp add: in_phase_def)
    qed
  qed
  with d show ?thesis by (simp add: in_phase_def)
qed

lemma reachable_in_phase: "reachable en h w0 c \<Longrightarrow> in_phase c"
proof (induction rule: reachable.induct)
  case start
  show ?case using starts by (simp add: in_phase_def)
next
  case (turn c t c')
  obtain w ts where c: "c = (w, ts)" by (cases c)
  from reachable_guarded [OF turn(1)] c have g: "guarded (w, ts)" by simp
  show ?case
  proof (cases t)
    case (Event e)
    with turn(2) c obtain w' ps u where "en e w" "seg (h e) w = (w', ps, u)" "c' = (w', ts @ ps @ [u])"
      by (auto split: if_splits prod.splits)
    with phase_event g turn(3) c show ?thesis by simp
  next
    case (Answer i j r)
    with turn(2) c obtain cs k w' ps u where "i < length ts" "ts ! i = Await cs k"
      "seg (k j r) w = (w', ps, u)" "c' = (w', ts[i := u] @ ps)"
      by (auto split: if_splits io.splits prod.splits)
    with phase_answer g turn(3) c show ?thesis by simp
  qed
qed

lemma invariant: "reachable en h w0 (w, ts) \<Longrightarrow> I w"
  using reachable_in_phase by (fastforce simp: in_phase_def)

end

end
