(* ===== verification/Voice.thy ===== *)
theory Voice
  imports Interference Sockets Chat "HOL-Library.AList"
begin

text \<open>
  \<open>app/components/VoiceChannelView.tsx\<close>: joining a voice channel, the peer connections to its
  participants and the signaling between them, leaving it. Peer connections and microphone
  streams are objects of the browser, named by their position among those created. The
  operations of a peer connection are promises of the platform that may be rejected.

  The page mounts the view anew for every channel, so its \<open>channelId\<close> is a constant \<open>ch\<close>.
\<close>

section \<open>State\<close>

record participant =
  p_user :: string
  joined_at :: string

definition as_participant :: "json \<Rightarrow> participant option" where
  "as_participant j =
     (case (str_field ''user_id'' j, str_field ''joined_at'' j) of
        (Some u, Some t) \<Rightarrow> Some \<lparr>p_user = u, joined_at = t\<rparr>
      | _ \<Rightarrow> None)"

definition as_participants :: "json \<Rightarrow> participant list option" where
  "as_participants j = (case get_prop ''participants'' j of Some (Some v) \<Rightarrow> as_list as_participant v | _ \<Rightarrow> None)"

record ice_server =
  urls :: string
  credentials :: "(string \<times> string) option"

definition ICE_SERVERS :: "ice_server list" where
  "ICE_SERVERS =
     (let turn = Some (''a43be5ae60dfc22da44ac94d'', ''AtYVhC5fn7xdhvNL'') in
      [\<lparr>urls = ''stun:stun.l.google.com:19302'', credentials = None\<rparr>,
       \<lparr>urls = ''stun:stun.relay.metered.ca:80'', credentials = None\<rparr>,
       \<lparr>urls = ''turn:global.relay.metered.ca:80'', credentials = turn\<rparr>,
       \<lparr>urls = ''turn:global.relay.metered.ca:80?transport=tcp'', credentials = turn\<rparr>,
       \<lparr>urls = ''turn:global.relay.metered.ca:443'', credentials = turn\<rparr>,
       \<lparr>urls = ''turns:global.relay.metered.ca:443?transport=tcp'', credentials = turn\<rparr>])"

text \<open>
  A peer connection: the user it was made for, the stream whose tracks were added, the remote
  description it has, and the candidates it has taken.
\<close>

record peer_connection =
  pc_user :: string
  pc_ice :: "ice_server list"
  pc_tracks :: "nat option"
  pc_remote :: "json option"
  pc_candidates :: "json list"
  pc_closed :: bool

text \<open>The closure of a socket is the list of those who were in the channel before.\<close>

record voice = browser +
  v_joined :: bool
  v_joining :: bool
  v_leaving :: bool
  participants :: "participant list"
  v_error :: "string option"
  joinedRef :: bool
  v_wsRef :: "nat option"
  v_sockets :: "string list socket list"
  localStream :: "nat option"
  mics :: "bool list"
  peers :: "(string \<times> nat) list"
  pcs :: "peer_connection list"
  pending :: "string \<Rightarrow> json list option"
  audio :: "(string \<times> nat) list"
  v_life :: life

datatype voice_event =
    VoiceMount
  | Join
  | Leave
  | VoiceUnmount
  | SignalOpened nat
  | SignalFrame nat "json option" nat
  | SignalError nat
  | SignalClosed nat
  | RemoteTrack nat
  | LocalCandidate nat "json option"

section \<open>Peers\<close>

text \<open>The audio element of a user plays the remote stream of a peer connection.\<close>

definition addAudio :: "string \<Rightarrow> nat \<Rightarrow> 'z voice_scheme \<Rightarrow> 'z voice_scheme" where
  "addAudio uid i w = (if v_life w = Mounted then w\<lparr>audio := AList.update uid i (audio w)\<rparr> else w)"

definition close_pc :: "peer_connection \<Rightarrow> peer_connection" where
  "close_pc p = p\<lparr>pc_closed := True\<rparr>"

definition removePeer :: "string \<Rightarrow> 'z voice_scheme \<Rightarrow> 'z voice_scheme" where
  "removePeer uid w =
     w\<lparr>pcs := (case map_of (peers w) uid of None \<Rightarrow> pcs w | Some i \<Rightarrow> update_at i close_pc (pcs w)),
       peers := AList.delete uid (peers w), pending := (pending w)(uid := None),
       audio := AList.delete uid (audio w)\<rparr>"

definition makePeer :: "string \<Rightarrow> 'z voice_scheme \<Rightarrow> 'z voice_scheme" where
  "makePeer uid w =
     w\<lparr>pcs := pcs w @ [\<lparr>pc_user = uid, pc_ice = ICE_SERVERS, pc_tracks = localStream w, pc_remote = None,
                         pc_candidates = [], pc_closed = False\<rparr>],
       peers := AList.update uid (length (pcs w)) (peers w)\<rparr>"

text \<open>An operation of peer connection \<open>i\<close>.\<close>

definition on_pc :: "string \<Rightarrow> nat \<Rightarrow> json \<Rightarrow> ('w, json) io" where
  "on_pc op i arg = invoke op (JArr [JNum (int i), arg])"

definition addIceCandidate :: "nat \<Rightarrow> json \<Rightarrow> ('z voice_scheme, unit) io" where
  "addIceCandidate i c =
     bind (on_pc ''addIceCandidate'' i c) (\<lambda>_.
       upd (\<lambda>w. w\<lparr>pcs := update_at i (\<lambda>p. p\<lparr>pc_candidates := pc_candidates p @ [c]\<rparr>) (pcs w)\<rparr>))"

definition setRemoteDescription :: "nat \<Rightarrow> json \<Rightarrow> ('z voice_scheme, unit) io" where
  "setRemoteDescription i d =
     bind (on_pc ''setRemoteDescription'' i d) (\<lambda>_.
       upd (\<lambda>w. w\<lparr>pcs := update_at i (\<lambda>p. p\<lparr>pc_remote := Some d\<rparr>) (pcs w)\<rparr>))"

fun add_all :: "nat \<Rightarrow> json list \<Rightarrow> ('z voice_scheme, unit) io" where
  "add_all i [] = skip"
| "add_all i (c # cs) = bind (try_catch (addIceCandidate i c) (\<lambda>_. skip)) (\<lambda>_. add_all i cs)"

definition flushCandidates :: "string \<Rightarrow> nat \<Rightarrow> ('z voice_scheme, unit) io" where
  "flushCandidates uid i =
     Get (\<lambda>w. case pending w uid of
       None \<Rightarrow> skip
     | Some buf \<Rightarrow> Put (\<lambda>w. w\<lparr>pending := (pending w)(uid := None)\<rparr>) (add_all i buf))"

definition buffer :: "string \<Rightarrow> json \<Rightarrow> 'z voice_scheme \<Rightarrow> 'z voice_scheme" where
  "buffer uid c w = w\<lparr>pending := (pending w)(uid \<mapsto> nullish (pending w uid) [] @ [c])\<rparr>"

definition addRemoteCandidate :: "string \<Rightarrow> json \<Rightarrow> ('z voice_scheme, unit) io" where
  "addRemoteCandidate uid c =
     Get (\<lambda>w. case map_of (peers w) uid of
       Some i \<Rightarrow> if pc_remote (pcs w ! i) \<noteq> None then try_catch (addIceCandidate i c) (\<lambda>_. skip)
                 else upd (buffer uid c)
     | None \<Rightarrow> upd (buffer uid c))"

section \<open>Signaling\<close>

definition sdp_field :: "json option \<Rightarrow> (string \<times> json) list" where
  "sdp_field s = (case s of None \<Rightarrow> [] | Some v \<Rightarrow> [(''sdp'', v)])"

definition description :: "string \<Rightarrow> json option \<Rightarrow> json" where
  "description t sdp = JObj ((''type'', JStr t) # sdp_field sdp)"

text \<open>
  \<open>wsRef.current?.send(..)\<close>. Its callers do nothing more: on a socket that is still connecting
  it throws, which they ignore.
\<close>

definition send_signal :: "json \<Rightarrow> 'z voice_scheme \<Rightarrow> 'z voice_scheme" where
  "send_signal j w =
     (case v_wsRef w of None \<Rightarrow> w | Some k \<Rightarrow> w\<lparr>v_sockets := update_at k (send_ws j) (v_sockets w)\<rparr>)"

definition signal :: "string \<Rightarrow> string \<Rightarrow> json option \<Rightarrow> json" where
  "signal t uid sdp = JObj ([(''type'', JStr t), (''target_user_id'', JStr uid)] @ sdp_field sdp)"

definition candidate_signal :: "string \<Rightarrow> json \<Rightarrow> json" where
  "candidate_signal uid c =
     JObj [(''type'', JStr ''ice-candidate''), (''target_user_id'', JStr uid), (''candidate'', c)]"

definition handle_offer :: "string \<Rightarrow> json option \<Rightarrow> ('z voice_scheme, unit) io" where
  "handle_offer from sdp =
     Get (\<lambda>w. let known = map_of (peers w) from; i = nullish known (length (pcs w)) in
       Put (\<lambda>w. if known = None then makePeer from w else w)
         (bind (setRemoteDescription i (description ''offer'' sdp)) (\<lambda>_.
          bind (flushCandidates from i) (\<lambda>_.
          bind (on_pc ''createAnswer'' i JNull) (\<lambda>answer.
          bind (on_pc ''setLocalDescription'' i answer) (\<lambda>_.
            upd (send_signal (signal ''answer'' from (opt_prop ''sdp'' (Some answer))))))))))"

definition handle_answer :: "string \<Rightarrow> json option \<Rightarrow> ('z voice_scheme, unit) io" where
  "handle_answer from sdp =
     Get (\<lambda>w. case map_of (peers w) from of
       None \<Rightarrow> skip
     | Some i \<Rightarrow> bind (setRemoteDescription i (description ''answer'' sdp)) (\<lambda>_. flushCandidates from i))"

text \<open>A property declared a string, when it is one and not empty.\<close>

definition text_prop :: "string \<Rightarrow> json \<Rightarrow> string option" where
  "text_prop k j = truthy (str_field k j)"

definition participant_joined :: "string \<Rightarrow> nat \<Rightarrow> 'z voice_scheme \<Rightarrow> 'z voice_scheme" where
  "participant_joined uid now w =
     w\<lparr>participants := add_new p_user \<lparr>p_user = uid, joined_at = toISOString now\<rparr> (participants w)\<rparr>"

definition participant_left :: "string \<Rightarrow> 'z voice_scheme \<Rightarrow> 'z voice_scheme" where
  "participant_left uid w = removePeer uid (w\<lparr>participants := drop_key p_user uid (participants w)\<rparr>)"

text \<open>\<open>raw\<close> is the parsed frame; parsing it and reading a property of \<open>null\<close> throw.\<close>

definition handleMessage :: "json option \<Rightarrow> nat \<Rightarrow> ('z voice_scheme, unit) io" where
  "handleMessage raw now =
     (case Option.bind raw (\<lambda>j. map_option (Pair j) (get_prop ''type'' j)) of
        None \<Rightarrow> Throw SyntaxError
      | Some (j, ty) \<Rightarrow>
          if ty = Some (JStr ''participant_joined'') then
            (case text_prop ''user_id'' j of None \<Rightarrow> skip | Some uid \<Rightarrow> upd (participant_joined uid now))
          else if ty = Some (JStr ''participant_left'') then
            (case text_prop ''user_id'' j of None \<Rightarrow> skip | Some uid \<Rightarrow> upd (participant_left uid))
          else (case text_prop ''sender_user_id'' j of
              None \<Rightarrow> skip
            | Some from \<Rightarrow>
                if ty = Some (JStr ''offer'') then handle_offer from (opt_prop ''sdp'' (Some j))
                else if ty = Some (JStr ''answer'') then handle_answer from (opt_prop ''sdp'' (Some j))
                else if ty = Some (JStr ''ice-candidate'')
                  then addRemoteCandidate from (nullish (opt_prop ''candidate'' (Some j)) JNull)
                else skip))"

section \<open>Joining and leaving\<close>

definition voice_path :: "string \<Rightarrow> string \<Rightarrow> string" where
  "voice_path ch op = ''/voice/'' @ ch @ ''/'' @ op"

definition stop_mic :: "'z voice_scheme \<Rightarrow> 'z voice_scheme" where
  "stop_mic w =
     w\<lparr>mics := (case localStream w of None \<Rightarrow> mics w | Some j \<Rightarrow> (mics w)[j := False]), localStream := None\<rparr>"

definition cleanup_call :: "'z voice_scheme \<Rightarrow> 'z voice_scheme" where
  "cleanup_call w =
     (stop_mic (w\<lparr>v_sockets := close_ref (v_wsRef w) (v_sockets w), v_wsRef := None,
        pcs := fold (\<lambda>(u, i). update_at i close_pc) (peers w) (pcs w), peers := [], pending := Map.empty\<rparr>))
     \<lparr>audio := [], joinedRef := False\<rparr>"

definition doCleanup :: "env \<Rightarrow> string \<Rightarrow> bool \<Rightarrow> ('z voice_scheme, unit) io" where
  "doCleanup e ch callLeaveApi =
     (if callLeaveApi then
        Spawn (try_catch (bind (apiFetch e (voice_path ch ''leave'') post_init) (\<lambda>_. skip)) (\<lambda>_. skip))
          (upd cleanup_call)
      else upd cleanup_call)"

text \<open>\<open>getUserMedia\<close>: a new stream, whose microphone is on; \<open>None\<close> when it is denied.\<close>

definition open_mic :: "('z voice_scheme, nat option) io" where
  "open_mic =
     try_catch
       (bind (invoke ''getUserMedia'' (JObj [(''audio'', JBool True)])) (\<lambda>_.
          Get (\<lambda>w. Put (\<lambda>w. w\<lparr>mics := mics w @ [True]\<rparr>) (Ret (Some (length (mics w)))))))
       (\<lambda>_. Put (\<lambda>w. w\<lparr>v_error := Some ''Microphone access denied''\<rparr>) (Ret None))"

definition list_others :: "env \<Rightarrow> string \<Rightarrow> string \<Rightarrow> ('z voice_scheme, string list) io" where
  "list_others e ch me =
     bind (apiFetch e (voice_path ch ''participants'') no_init) (\<lambda>r.
       if ok r then
         bind (read_as as_participants r) (\<lambda>ps.
           Put (\<lambda>w. w\<lparr>participants := ps\<rparr>) (Ret (filter (\<lambda>u. u \<noteq> me) (map p_user ps))))
       else Ret [])"

definition connect :: "env \<Rightarrow> (string \<Rightarrow> bool) \<Rightarrow> string \<Rightarrow> string list \<Rightarrow> ('z voice_scheme, unit) io" where
  "connect e refuses ch existing =
     Get (\<lambda>w.
       let u = getWebSocketUrl e (voice_path ch ''signal'') w in
       if truthy (getItem w ''access_token'') = None then Throw (ErrorMsg ''not authenticated'')
       else if refuses u then Throw (ErrorMsg ''SyntaxError'')
       else upd (\<lambda>w. w\<lparr>v_sockets := v_sockets w @ [new_socket existing u],
              v_wsRef := Some (length (v_sockets w)), joinedRef := True, v_joined := True\<rparr>))"

definition join_call :: "env \<Rightarrow> (string \<Rightarrow> bool) \<Rightarrow> string \<Rightarrow> ('z voice_scheme, unit) io" where
  "join_call e refuses ch =
     bind (apiFetch e (voice_path ch ''join'') post_init) (\<lambda>joinRes.
       if status joinRes = 403 then
         upd (\<lambda>w. w\<lparr>v_error := Some ''You do not have permission to join this voice channel''\<rparr>)
       else if \<not> ok joinRes then Throw (ErrorMsg ''join failed'')
       else bind (read_as (str_field ''user_id'') joinRes) (\<lambda>me.
         bind open_mic (\<lambda>stream.
           case stream of
             None \<Rightarrow> skip
           | Some j \<Rightarrow>
               Put (\<lambda>w. w\<lparr>localStream := Some j\<rparr>)
                 (bind (list_others e ch me) (connect e refuses ch)))))"

definition handleJoinVoice :: "env \<Rightarrow> (string \<Rightarrow> bool) \<Rightarrow> string \<Rightarrow> ('z voice_scheme, unit) io" where
  "handleJoinVoice e refuses ch =
     Put (\<lambda>w. w\<lparr>v_joining := True, v_error := None\<rparr>)
       (finally_do
          (try_catch (join_call e refuses ch)
             (\<lambda>_. upd (\<lambda>w. stop_mic (w\<lparr>v_error := Some ''Failed to join voice channel''\<rparr>))))
          (\<lambda>w. w\<lparr>v_joining := False\<rparr>))"

definition handleLeave :: "env \<Rightarrow> string \<Rightarrow> ('z voice_scheme, unit) io" where
  "handleLeave e ch =
     Put (\<lambda>w. w\<lparr>v_leaving := True\<rparr>)
       (bind (doCleanup e ch True) (\<lambda>_.
          upd (\<lambda>w. w\<lparr>v_joined := False, participants := [], v_leaving := False\<rparr>)))"

section \<open>The callbacks of the socket and of the peers\<close>

definition send_offer :: "string \<Rightarrow> nat \<Rightarrow> ('z voice_scheme, unit) io" where
  "send_offer uid i =
     try_catch
       (bind (on_pc ''createOffer'' i JNull) (\<lambda>offer.
        bind (on_pc ''setLocalDescription'' i offer) (\<lambda>_.
          upd (send_signal (signal ''offer'' uid (opt_prop ''sdp'' (Some offer)))))))
       (\<lambda>_. skip)"

fun offer_all :: "string list \<Rightarrow> ('z voice_scheme, unit) io" where
  "offer_all [] = skip"
| "offer_all (uid # us) =
     Get (\<lambda>w. Put (makePeer uid) (Spawn (send_offer uid (length (pcs w))) (offer_all us)))"

definition signal_opened :: "nat \<Rightarrow> ('z voice_scheme, unit) io" where
  "signal_opened k =
     Put (\<lambda>w. w\<lparr>v_sockets := update_at k (\<lambda>s. s\<lparr>ready := Open\<rparr>) (v_sockets w)\<rparr>)
       (Get (\<lambda>w. offer_all (closure (v_sockets w ! k))))"

definition signal_closed :: "env \<Rightarrow> string \<Rightarrow> nat \<Rightarrow> ('z voice_scheme, unit) io" where
  "signal_closed e ch k =
     Put (\<lambda>w. w\<lparr>v_sockets := update_at k (\<lambda>s. s\<lparr>ready := Closed\<rparr>) (v_sockets w)\<rparr>)
       (Get (\<lambda>w. if joinedRef w then
            bind (doCleanup e ch False) (\<lambda>_. upd (\<lambda>w. w\<lparr>v_joined := False, participants := []\<rparr>))
          else skip))"

definition local_candidate :: "nat \<Rightarrow> json option \<Rightarrow> 'z voice_scheme \<Rightarrow> 'z voice_scheme" where
  "local_candidate i c w =
     (case (c, v_wsRef w) of
        (Some c, Some k) \<Rightarrow>
          if in_state Open k (v_sockets w) then send_signal (candidate_signal (pc_user (pcs w ! i)) c) w else w
      | _ \<Rightarrow> w)"

section \<open>The component\<close>

fun voice_handler ::
  "env \<Rightarrow> (string \<Rightarrow> bool) \<Rightarrow> string \<Rightarrow> voice_event \<Rightarrow> ('z voice_scheme, unit) io" where
  "voice_handler e refuses ch VoiceMount = upd (\<lambda>w. w\<lparr>v_life := Mounted\<rparr>)"
| "voice_handler e refuses ch Join = handleJoinVoice e refuses ch"
| "voice_handler e refuses ch Leave = handleLeave e ch"
| "voice_handler e refuses ch VoiceUnmount =
     Put (\<lambda>w. w\<lparr>v_life := Gone\<rparr>) (Get (\<lambda>w. if joinedRef w then doCleanup e ch True else skip))"
| "voice_handler e refuses ch (SignalOpened k) = signal_opened k"
| "voice_handler e refuses ch (SignalFrame k raw now) = try_catch (handleMessage raw now) (\<lambda>_. skip)"
| "voice_handler e refuses ch (SignalError k) =
     upd (\<lambda>w. w\<lparr>v_sockets := update_at k close_ws (v_sockets w)\<rparr>)"
| "voice_handler e refuses ch (SignalClosed k) = signal_closed e ch k"
| "voice_handler e refuses ch (RemoteTrack i) = upd (\<lambda>w. addAudio (pc_user (pcs w ! i)) i w)"
| "voice_handler e refuses ch (LocalCandidate i c) = upd (local_candidate i c)"

definition voice_view :: "string \<Rightarrow> 'z voice_scheme \<Rightarrow> voice_event ui" where
  "voice_view name w = Box
     [Txt name,
      (if \<not> v_joined w then Box
         [Txt name, Txt ''Voice Channel'',
          (case truthy (v_error w) of None \<Rightarrow> Box [] | Some m \<Rightarrow> Txt m),
          Btn (if v_joining w then ''Joining...'' else ''Join Voice'') (v_joining w) (\<lambda>ev. ev = Join)]
       else Box
         [Txt (''Participants - '' @ show_nat (length (participants w))),
          when_ui (participants w = []) (Txt ''No other participants''),
          Box (map (\<lambda>p. Box [Txt (upper (take 1 (p_user p))), Txt (p_user p)]) (participants w)),
          Txt ''Connected'',
          Btn (if v_leaving w then ''Leaving...'' else ''Leave Voice'') (v_leaving w) (\<lambda>ev. ev = Leave)])]"

definition pc_live :: "nat \<Rightarrow> 'z voice_scheme \<Rightarrow> bool" where
  "pc_live i w \<longleftrightarrow> i < length (pcs w) \<and> \<not> pc_closed (pcs w ! i)"

fun voice_enabled :: "string \<Rightarrow> voice_event \<Rightarrow> 'z voice_scheme \<Rightarrow> bool" where
  "voice_enabled name VoiceMount w = (v_life w = Fresh)"
| "voice_enabled name VoiceUnmount w = (v_life w = Mounted)"
| "voice_enabled name (SignalOpened k) w = in_state Connecting k (v_sockets w)"
| "voice_enabled name (SignalFrame k raw now) w = in_state Open k (v_sockets w)"
| "voice_enabled name (SignalError k) w = (k < length (v_sockets w) \<and> ready (v_sockets w ! k) \<noteq> Closed)"
| "voice_enabled name (SignalClosed k) w = (k < length (v_sockets w) \<and> ready (v_sockets w ! k) \<noteq> Closed)"
| "voice_enabled name (RemoteTrack i) w = pc_live i w"
| "voice_enabled name (LocalCandidate i c) w = pc_live i w"
| "voice_enabled name ev w = (v_life w = Mounted \<and> offers (voice_view name w) ev)"

definition voice_init :: "browser \<Rightarrow> voice" where
  "voice_init b =
     \<lparr>storage = storage b, hrefs = hrefs b, v_joined = False, v_joining = False, v_leaving = False,
      participants = [], v_error = None, joinedRef = False, v_wsRef = None, v_sockets = [],
      localStream = None, mics = [], peers = [], pcs = [], pending = Map.empty, audio = [], v_life = Fresh\<rparr>"

section \<open>What suspended handlers leave alone\<close>

text \<open>
  The part of the state a call is about: whether one is being joined or was, its socket, the
  states of all sockets, the microphones, and whether there are peers.
\<close>

definition call_state ::
  "'z voice_scheme \<Rightarrow> bool \<times> bool \<times> nat option \<times> ready list \<times> bool list \<times> nat option \<times> bool \<times> life \<times> bool" where
  "call_state w =
     (v_joining w, joinedRef w, v_wsRef w, map ready (v_sockets w), mics w, localStream w, v_joined w, v_life w,
      peers w = [])"

lemma map_ready_update: "(\<And>s. ready (f s) = ready s) \<Longrightarrow> map ready (update_at k f ss) = map ready ss"
  by (rule nth_equalityI) simp_all

lemma send_signal_state [simp]:
  "call_state (send_signal j w) = call_state w" "v_joining (send_signal j w) = v_joining w"
  by (auto simp: send_signal_def call_state_def map_ready_update split: option.split)

lemma call_state_pcs [simp]:
  "call_state (w\<lparr>pcs := x\<rparr>) = call_state w" "call_state (w\<lparr>pending := y\<rparr>) = call_state w"
  by (simp_all add: call_state_def)

lemma frames_on_pc [simp]: "frames f (on_pc op i a)"
  by (simp add: on_pc_def io_simps split: reply.split)

lemma frames_pc_ops:
  fixes f :: "'z voice_scheme \<Rightarrow> 'v"
  assumes "\<And>w x. f (w\<lparr>pcs := x\<rparr>) = f w"
  shows "frames f (addIceCandidate i c)" "frames f (setRemoteDescription i c)" "frames f (add_all i cs)"
proof -
  show a: "frames f (addIceCandidate i c)" for i c
    by (simp add: addIceCandidate_def assms frames_bind)
  show "frames f (setRemoteDescription i c)"
    by (simp add: setRemoteDescription_def assms frames_bind)
  show "frames f (add_all i cs)"
    by (induction cs) (simp_all add: a frames_bind frames_try)
qed

lemma frames_flush:
  fixes f :: "'z voice_scheme \<Rightarrow> 'v"
  assumes "\<And>w x. f (w\<lparr>pcs := x\<rparr>) = f w" "\<And>w x. f (w\<lparr>pending := x\<rparr>) = f w"
  shows "frames f (flushCandidates u i)"
  using assms by (simp add: flushCandidates_def frames_pc_ops split: option.split)

lemma frames_messages:
  fixes f :: "'z voice_scheme \<Rightarrow> 'v"
  assumes p: "\<And>w x. f (w\<lparr>pcs := x\<rparr>) = f w" and q: "\<And>w x. f (w\<lparr>pending := x\<rparr>) = f w"
    and s: "\<And>j w. f (send_signal j w) = f w"
  shows "tail_frames f (handleMessage raw now)" "tail_frames f (handle_offer u sdp)"
    and "(\<And>u w. f (makePeer u w) = f w) \<Longrightarrow> frames f (handle_offer u sdp)"
    and "frames f (handle_answer u sdp)" "frames f (addRemoteCandidate u c)" "frames f (send_offer u i)"
proof -
  note ops = frames_pc_ops [OF p] frames_flush [OF p q]
  have o: "frames f (bind (setRemoteDescription i d) (\<lambda>_. bind (flushCandidates u i) (\<lambda>_.
      bind (on_pc o1 i a) (\<lambda>x. bind (on_pc o2 i x) (\<lambda>_. upd (send_signal (y x)))))))" for u i d o1 o2 a y
    by (intro frames_bind ops frames_on_pc) (simp add: s)
  show offer: "tail_frames f (handle_offer u sdp)" for u sdp
    by (auto simp: handle_offer_def Let_def intro!: frames_tail [OF o])
  show "(\<And>u w. f (makePeer u w) = f w) \<Longrightarrow> frames f (handle_offer u sdp)"
    by (auto simp: handle_offer_def Let_def intro!: o)
  show answer: "frames f (handle_answer u sdp)" for u sdp
    by (simp add: handle_answer_def ops frames_bind split: option.split)
  show cand: "frames f (addRemoteCandidate u c)" for u c
    by (simp add: addRemoteCandidate_def buffer_def ops frames_try p q split: option.split)
  show "frames f (send_offer u i)"
    unfolding send_offer_def by (intro frames_try frames_bind frames_on_pc) (simp_all add: s)
  show "tail_frames f (handleMessage raw now)"
    by (simp add: handleMessage_def offer answer cand frames_tail upd_def skip_def split: option.split)
qed

section \<open>The invariant of a call\<close>

text \<open>
  Outside a call there is no socket and no peer; only the socket of the call is live, only its
  microphone is on; the microphone is held while a call goes on or is being joined; the page
  shows what the references say.
\<close>

definition tidy_call :: "'z voice_scheme \<Rightarrow> bool" where
  "tidy_call w \<longleftrightarrow>
     (case call_state w of (joining, ref, ws, rs, ms, ls, jd, lf, nobody) \<Rightarrow>
       (case ws of None \<Rightarrow> \<not> ref | Some k \<Rightarrow> ref \<and> k < length rs) \<and>
       (\<forall>k<length rs. rs ! k = Connecting \<or> rs ! k = Open \<longrightarrow> ws = Some k) \<and>
       (\<forall>j<length ms. ms ! j \<longrightarrow> ls = Some j) \<and>
       (case ls of None \<Rightarrow> True | Some j \<Rightarrow> (ref \<or> joining) \<and> j < length ms) \<and>
       (\<not> ref \<longrightarrow> nobody) \<and> (lf \<noteq> Gone \<longrightarrow> jd = ref) \<and> (joining \<longrightarrow> \<not> ref))"

lemma tidy_call_iff:
  "tidy_call w \<longleftrightarrow>
     (case v_wsRef w of None \<Rightarrow> \<not> joinedRef w | Some k \<Rightarrow> joinedRef w \<and> k < length (v_sockets w)) \<and>
     (\<forall>k<length (v_sockets w). live (v_sockets w ! k) \<longrightarrow> v_wsRef w = Some k) \<and>
     (\<forall>j<length (mics w). mics w ! j \<longrightarrow> localStream w = Some j) \<and>
     (case localStream w of None \<Rightarrow> True | Some j \<Rightarrow> (joinedRef w \<or> v_joining w) \<and> j < length (mics w)) \<and>
     (\<not> joinedRef w \<longrightarrow> peers w = []) \<and> (v_life w \<noteq> Gone \<longrightarrow> v_joined w = joinedRef w) \<and>
     (v_joining w \<longrightarrow> \<not> joinedRef w)"
  by (simp add: tidy_call_def call_state_def live_def cong: option.case_cong)

lemma tidy_call_seen: "call_state w' = call_state w \<Longrightarrow> tidy_call w' = tidy_call w"
  by (simp add: tidy_call_def)

text \<open>The two phases of joining: before there is a microphone, and after.\<close>

definition asking :: "'z voice_scheme \<Rightarrow> bool" where
  "asking w \<longleftrightarrow> tidy_call w \<and> v_joining w \<and> localStream w = None"

definition entering :: "'z voice_scheme \<Rightarrow> bool" where
  "entering w \<longleftrightarrow> tidy_call w \<and> v_joining w"

text \<open>What the first stretch of the other handlers guarantees.\<close>

definition calm :: "'z voice_scheme \<Rightarrow> 'z voice_scheme \<Rightarrow> bool" where
  "calm w w' \<longleftrightarrow> tidy_call w' \<and> v_joining w' = v_joining w \<and> (localStream w = None \<longrightarrow> localStream w' = None)"

lemma calm_seen: "calm w w1 \<Longrightarrow> call_state w2 = call_state w1 \<Longrightarrow> calm w w2"
  using tidy_call_seen [of w2 w1] by (auto simp: calm_def call_state_def)

lemma calm_phases: "calm w w' \<Longrightarrow> J \<in> {tidy_call, asking, entering} \<Longrightarrow> J w \<Longrightarrow> J w'"
  by (auto simp: calm_def asking_def entering_def)

lemma calm_same: "tidy_call w \<Longrightarrow> call_state w' = call_state w \<Longrightarrow> calm w w'"
  by (rule calm_seen [of w w]) (simp_all add: calm_def)

lemma tidy_live:
  assumes "tidy_call w" "k < length (v_sockets w)" "live (v_sockets w ! k)"
  shows "v_wsRef w = Some k" "joinedRef w"
proof -
  note t = assms(1) [unfolded tidy_call_iff]
  from t [THEN conjunct2, THEN conjunct1] assms(2,3) show "v_wsRef w = Some k" by blast
  with t [THEN conjunct1] show "joinedRef w" by simp
qed

text \<open>Changes that cannot break the invariant.\<close>

lemma calm_change:
  assumes t: "tidy_call w"
    and same: "v_joining w' = v_joining w" "joinedRef w' = joinedRef w" "v_wsRef w' = v_wsRef w"
      "mics w' = mics w" "localStream w' = localStream w" "v_joined w' = v_joined w"
    and "length (v_sockets w') = length (v_sockets w)"
    and "\<And>k. k < length (v_sockets w) \<Longrightarrow> live (v_sockets w' ! k) \<Longrightarrow> live (v_sockets w ! k)"
    and "joinedRef w \<or> peers w' = peers w" and "v_life w' \<noteq> Gone \<Longrightarrow> v_life w \<noteq> Gone"
  shows "calm w w'"
proof -
  note t = t [unfolded tidy_call_iff]
  note t1 = t [THEN conjunct1]
  note u = t [THEN conjunct2]
  note t3 = u [THEN conjunct1] and t4 = u [THEN conjunct2, THEN conjunct1]
  note v = u [THEN conjunct2, THEN conjunct2]
  note t5 = v [THEN conjunct1] and t6 = v [THEN conjunct2, THEN conjunct1]
    and t7 = v [THEN conjunct2, THEN conjunct2, THEN conjunct1]
    and t8 = v [THEN conjunct2, THEN conjunct2, THEN conjunct2]
  have s3: "\<forall>k<length (v_sockets w). live (v_sockets w' ! k) \<longrightarrow> v_wsRef w = Some k"
    using t3 assms(9) by blast
  have s6: "\<not> joinedRef w \<longrightarrow> peers w' = []" using t6 assms(10) by auto
  have s7: "v_life w' \<noteq> Gone \<longrightarrow> v_joined w = joinedRef w" using t7 assms(11) by blast
  have "tidy_call w'"
    unfolding tidy_call_iff same assms(8) by (intro conjI, fact t1, fact s3, fact t4, fact t5, fact s6, fact s7, fact t8)
  with same show ?thesis by (simp add: calm_def)
qed

lemma cleanup_fields [simp]:
  "v_joining (cleanup_call w) = v_joining w" "joinedRef (cleanup_call w) = False"
  "v_wsRef (cleanup_call w) = None" "v_sockets (cleanup_call w) = close_ref (v_wsRef w) (v_sockets w)"
  "localStream (cleanup_call w) = None" "v_joined (cleanup_call w) = v_joined w"
  "v_life (cleanup_call w) = v_life w" "peers (cleanup_call w) = []" "audio (cleanup_call w) = []"
  "pending (cleanup_call w) = Map.empty" "mics (cleanup_call w) = mics (stop_mic w)"
  by (simp_all add: cleanup_call_def stop_mic_def split: option.split)

lemma cleanup_tidy:
  assumes "tidy_call w" "v_life w = Gone \<or> \<not> jd"
  shows "calm w ((cleanup_call w)\<lparr>v_joined := jd\<rparr>)"
proof -
  have a: "\<not> live (close_ref (v_wsRef w) (v_sockets w) ! k)" if "k < length (v_sockets w)" for k
    by (rule dead_close_ref [OF that]) (rule tidy_live(1) [OF assms(1) that])
  have m: "\<forall>j<length (mics w). mics w ! j \<longrightarrow> localStream w = Some j"
    using assms(1) unfolding tidy_call_iff by (elim conjE)
  have b: "\<not> mics (stop_mic w) ! j" if "j < length (mics (stop_mic w))" for j
  proof (cases "localStream w")
    case None
    with m that show ?thesis by (auto simp: stop_mic_def)
  next
    case (Some l)
    have "\<not> mics w ! j" if "j \<noteq> l" "j < length (mics w)" using m that Some by auto
    with Some that show ?thesis by (cases "j = l") (simp_all add: stop_mic_def)
  qed
  from a b assms(2) show ?thesis by (auto simp: calm_def tidy_call_iff)
qed

lemma makePeer_fields [simp]:
  "v_joining (makePeer u w) = v_joining w" "joinedRef (makePeer u w) = joinedRef w"
  "v_wsRef (makePeer u w) = v_wsRef w" "v_sockets (makePeer u w) = v_sockets w"
  "localStream (makePeer u w) = localStream w" "v_joined (makePeer u w) = v_joined w"
  "v_life (makePeer u w) = v_life w" "mics (makePeer u w) = mics w"
  by (simp_all add: makePeer_def)

lemma calm_trans: "calm w w1 \<Longrightarrow> calm w1 w2 \<Longrightarrow> calm w w2"
  by (auto simp: calm_def)

lemma makePeer_calm: "calm w w1 \<Longrightarrow> joinedRef w1 \<Longrightarrow> calm w (makePeer u w1)"
  by (rule calm_trans [of w w1], assumption, rule calm_change) (simp_all add: calm_def)

lemma after_skip: "after Q (try_catch m (\<lambda>_. skip)) w = after Q m w"
  by (induction m arbitrary: w Q) (simp_all add: skip_def)

lemma after_offers: "calm w w1 \<Longrightarrow> joinedRef w1 \<Longrightarrow> after (calm w) (offer_all us) w1"
proof (induction us arbitrary: w1)
  case Nil
  then show ?case by (simp add: skip_def)
next
  case (Cons u us)
  have "after (\<lambda>w'. after (calm w) (offer_all us) w') (send_offer u i) (makePeer u w1)" for i
  proof (rule after_frames [where f = call_state])
    show "frames call_state (send_offer u i :: ('a voice_scheme, unit) io)"
      by (rule frames_messages) simp_all
  next
    fix w2 :: "'a voice_scheme" assume s: "call_state w2 = call_state (makePeer u w1)"
    show "after (calm w) (offer_all us) w2"
    proof (rule Cons.IH)
      show "calm w w2" by (rule calm_seen [OF makePeer_calm [OF Cons.prems] s])
      show "joinedRef w2" using s Cons.prems(2) by (simp add: call_state_def)
    qed
  qed
  then show ?case by simp
qed

lemma after_message:
  assumes "tidy_call w" "joinedRef w"
  shows "after (calm w) (handleMessage raw now) w"
proof -
  have w: "calm w w" using assms(1) by (simp add: calm_def)
  have p: "calm w (makePeer u w)" for u by (rule makePeer_calm [OF w assms(2)])
  have "calm w (participant_joined u n w)" "calm w (participant_left u w)" "calm w (buffer u c w)" for u n c
    by (rule calm_change [OF assms(1)];
        simp add: assms(2) participant_joined_def participant_left_def removePeer_def buffer_def)+
  moreover have "after (calm w) (handle_offer u s) w" for u s
    using w p by (simp add: handle_offer_def setRemoteDescription_def on_pc_def io_simps Let_def)
  moreover have "after (calm w) (handle_answer u s) w" for u s
    using w by (simp add: handle_answer_def setRemoteDescription_def on_pc_def io_simps split: option.split)
  ultimately show ?thesis
    using w by (simp add: handleMessage_def addRemoteCandidate_def addIceCandidate_def on_pc_def io_simps split: option.split)
qed

lemma frames_leave_call:
  fixes f :: "'z voice_scheme \<Rightarrow> 'v"
  assumes "\<And>t w. f (setItem ''access_token'' t w) = f w" "\<And>w. f (end_session w) = f w"
  shows "frames f (bind (try_catch (bind (apiFetch e p i) (\<lambda>_. skip)) (\<lambda>_. skip)) (\<lambda>_. Throw x))"
    and "frames f (try_catch (bind (apiFetch e p i) (\<lambda>_. skip)) (\<lambda>_. skip))"
  using assms by (auto intro!: frames_bind frames_try frames_apiFetch)

lemma browser_state [simp]:
  "call_state (setItem k t w) = call_state w" "call_state (end_session w) = call_state w"
  "v_joining (setItem k t w) = v_joining w" "v_joining (end_session w) = v_joining w"
  "call_state (v_leaving_update x w) = call_state w"
  by (simp_all add: call_state_def browser_ops)

lemma after_leave:
  assumes "tidy_call w" "\<And>w'. calm w w' \<Longrightarrow> Q w'"
  shows "after Q (handleLeave e ch) w"
proof -
  have "after (\<lambda>w'. Q ((cleanup_call w')\<lparr>v_joined := False, participants := [], v_leaving := False\<rparr>))
      (bind (try_catch (bind (apiFetch e p i) (\<lambda>_. skip)) (\<lambda>_. skip)) (\<lambda>_. Throw Detached)) (w\<lparr>v_leaving := True\<rparr>)"
    for p i
  proof (rule after_frames [where f = call_state], rule frames_leave_call)
    fix w1 :: "'a voice_scheme" assume "call_state w1 = call_state (w\<lparr>v_leaving := True\<rparr>)"
    then have s: "call_state w1 = call_state w" by simp
    then have c: "calm w w1" by (rule calm_same [OF assms(1)])
    then have "calm w1 ((cleanup_call w1)\<lparr>v_joined := False\<rparr>)" by (intro cleanup_tidy) (simp_all add: calm_def)
    from calm_trans [OF c this]
    have "calm w ((cleanup_call w1)\<lparr>v_joined := False, participants := [], v_leaving := False\<rparr>)"
      by (rule calm_seen) (simp add: call_state_def)
    then show "Q ((cleanup_call w1)\<lparr>v_joined := False, participants := [], v_leaving := False\<rparr>)" by (rule assms(2))
  qed simp_all
  then show ?thesis by (simp add: handleLeave_def doCleanup_def upd_def)
qed

lemma after_unmount:
  assumes "tidy_call w"
  shows "after (calm w) (voice_handler e refuses ch VoiceUnmount) w"
proof -
  define v where "v = w\<lparr>v_life := Gone\<rparr>"
  have v: "calm w v" unfolding v_def by (rule calm_change [OF assms]) simp_all
  have "after (\<lambda>w'. calm w (cleanup_call w')) (try_catch (bind (apiFetch e p i) (\<lambda>_. skip)) (\<lambda>_. skip)) v" for p i
  proof (rule after_frames [where f = call_state], rule frames_leave_call)
    fix w1 :: "'a voice_scheme" assume s: "call_state w1 = call_state v"
    from calm_seen [OF v s] have c: "calm w w1" .
    have "v_life w1 = Gone" using s by (simp add: call_state_def v_def)
    with c have "calm w1 ((cleanup_call w1)\<lparr>v_joined := v_joined (cleanup_call w1)\<rparr>)"
      by (intro cleanup_tidy) (simp_all add: calm_def)
    from calm_trans [OF c this] show "calm w (cleanup_call w1)" by (rule calm_seen) (simp add: call_state_def)
  qed simp_all
  with v show ?thesis by (simp add: v_def [symmetric] doCleanup_def upd_def skip_def)
qed

lemma after_closed:
  assumes "tidy_call w"
  shows "after (calm w) (signal_closed e ch k) w"
proof -
  define v where "v = w\<lparr>v_sockets := update_at k (\<lambda>s. s\<lparr>ready := Closed\<rparr>) (v_sockets w)\<rparr>"
  have v: "calm w v"
    unfolding v_def by (rule calm_change [OF assms]) (auto simp: live_def split: if_splits)
  then have "calm v ((cleanup_call v)\<lparr>v_joined := False\<rparr>)" by (intro cleanup_tidy) (simp_all add: calm_def)
  from calm_trans [OF v this] have "calm w ((cleanup_call v)\<lparr>v_joined := False, participants := []\<rparr>)"
    by (rule calm_seen) (simp add: call_state_def)
  with v show ?thesis
    by (simp add: signal_closed_def v_def [symmetric] doCleanup_def upd_def skip_def)
qed

lemma after_opened:
  assumes "tidy_call w" "in_state Connecting k (v_sockets w)"
  shows "after (calm w) (signal_opened k) w"
proof -
  define v where "v = w\<lparr>v_sockets := update_at k (\<lambda>s. s\<lparr>ready := Open\<rparr>) (v_sockets w)\<rparr>"
  have k: "k < length (v_sockets w)" "live (v_sockets w ! k)"
    using assms(2) by (simp_all add: in_state_def live_def)
  have "calm w v"
    unfolding v_def by (rule calm_change [OF assms(1)]) (use k(2) in \<open>auto split: if_splits\<close>)
  moreover have "joinedRef v" using tidy_live(2) [OF assms(1) k] by (simp add: v_def)
  ultimately show ?thesis
    using after_offers [of w v] by (simp add: signal_opened_def v_def [symmetric])
qed

lemma voice_stretch:
  assumes "tidy_call w" "voice_enabled name ev w" "ev \<noteq> Join"
  shows "after (calm w) (voice_handler e refuses ch ev) w"
proof (cases ev)
  case VoiceMount
  have "calm w (w\<lparr>v_life := Mounted\<rparr>)"
    by (rule calm_change [OF assms(1)]) (use assms(2) VoiceMount in simp_all)
  with VoiceMount show ?thesis by (simp add: upd_def)
next
  case Leave
  with after_leave [OF assms(1), of "calm w"] show ?thesis by simp
next
  case VoiceUnmount
  with after_unmount [OF assms(1)] show ?thesis by (simp only:)
next
  case (SignalOpened k)
  with after_opened [OF assms(1)] assms(2) show ?thesis by simp
next
  case (SignalFrame k raw now)
  then have k: "k < length (v_sockets w)" "live (v_sockets w ! k)"
    using assms(2) by (simp_all add: in_state_def live_def)
  have "joinedRef w" by (rule tidy_live(2) [OF assms(1) k])
  with SignalFrame after_message [OF assms(1)] show ?thesis by (simp add: after_skip)
next
  case (SignalError k)
  have "calm w (w\<lparr>v_sockets := update_at k close_ws (v_sockets w)\<rparr>)"
    by (rule calm_change [OF assms(1)]) (auto split: if_splits)
  with SignalError show ?thesis by (simp add: upd_def)
next
  case (SignalClosed k)
  with after_closed [OF assms(1)] show ?thesis by simp
next
  case (RemoteTrack i)
  have "calm w (addAudio u i w)" for u i by (rule calm_same [OF assms(1)]) (simp add: addAudio_def call_state_def)
  with RemoteTrack show ?thesis by (simp add: upd_def)
next
  case (LocalCandidate i c)
  have "calm w (local_candidate i c w)"
    by (rule calm_same [OF assms(1)]) (simp add: local_candidate_def split: option.split)
  with LocalCandidate show ?thesis by (simp add: upd_def)
qed (use assms in simp)

section \<open>The phases of joining\<close>

text \<open>Outside a call nothing is held; the form in which the phases are used.\<close>

lemma tidy_outside:
  assumes "\<not> joinedRef w"
  shows "tidy_call w \<longleftrightarrow> v_wsRef w = None \<and> (\<forall>k<length (v_sockets w). \<not> live (v_sockets w ! k)) \<and>
    (\<forall>j<length (mics w). mics w ! j \<longrightarrow> localStream w = Some j) \<and>
    (case localStream w of None \<Rightarrow> True | Some j \<Rightarrow> v_joining w \<and> j < length (mics w)) \<and>
    peers w = [] \<and> (v_life w \<noteq> Gone \<longrightarrow> \<not> v_joined w)"
  using assms by (cases "v_wsRef w"; cases "localStream w"; simp add: tidy_call_iff)

lemma joining_outside: "tidy_call w \<Longrightarrow> v_joining w \<Longrightarrow> \<not> joinedRef w"
  by (simp add: tidy_call_iff)

lemma asking_iff:
  "asking w \<longleftrightarrow> v_joining w \<and> \<not> joinedRef w \<and> localStream w = None \<and> v_wsRef w = None \<and>
     (\<forall>k<length (v_sockets w). \<not> live (v_sockets w ! k)) \<and> (\<forall>j<length (mics w). \<not> mics w ! j) \<and>
     peers w = [] \<and> (v_life w \<noteq> Gone \<longrightarrow> \<not> v_joined w)"
  using tidy_outside [of w] joining_outside [of w] by (auto simp: asking_def)

lemma entering_iff:
  "entering w \<longleftrightarrow> v_joining w \<and> \<not> joinedRef w \<and> v_wsRef w = None \<and>
     (\<forall>k<length (v_sockets w). \<not> live (v_sockets w ! k)) \<and>
     (\<forall>j<length (mics w). mics w ! j \<longrightarrow> localStream w = Some j) \<and>
     (case localStream w of None \<Rightarrow> True | Some j \<Rightarrow> j < length (mics w)) \<and>
     peers w = [] \<and> (v_life w \<noteq> Gone \<longrightarrow> \<not> v_joined w)"
  using tidy_outside [of w] joining_outside [of w]
  by (cases "localStream w"; simp add: entering_def) blast+

text \<open>When joining is over the flag goes down; then the invariant holds.\<close>

definition joining_over :: "'z voice_scheme \<Rightarrow> bool" where
  "joining_over w \<longleftrightarrow> tidy_call (w\<lparr>v_joining := False\<rparr>)"

lemma asking_entering: "asking w \<Longrightarrow> entering w"
  by (simp add: asking_def entering_def)

lemma asking_over: "asking w \<Longrightarrow> joining_over w"
  by (simp add: asking_iff joining_over_def tidy_outside)

lemma asking_error: "asking (w\<lparr>v_error := m\<rparr>) = asking w"
  by (simp add: asking_iff)

lemma mic_opened:
  "asking w \<Longrightarrow> entering (w\<lparr>mics := mics w @ [True], localStream := Some (length (mics w))\<rparr>)"
  by (simp add: asking_iff entering_iff nth_append)

lemma mic_stopped: "entering w \<Longrightarrow> asking (stop_mic (w\<lparr>v_error := m\<rparr>))"
  by (cases "localStream w") (auto simp: asking_iff entering_iff stop_mic_def nth_list_update)

lemma call_entered:
  assumes "entering w"
  shows "joining_over (w\<lparr>v_sockets := v_sockets w @ [new_socket c u],
    v_wsRef := Some (length (v_sockets w)), joinedRef := True, v_joined := True\<rparr>)"
proof -
  have "\<not> live (v_sockets w ! k)" if "k < length (v_sockets w)" for k
    using assms that by (simp add: entering_iff)
  then show ?thesis
    using assms unfolding joining_over_def tidy_call_iff by (auto simp: entering_iff nth_append split: option.splits)
qed

interpretation asking_client: api_client asking
  by unfold_locales (simp_all add: asking_iff browser_ops)

interpretation entering_client: api_client entering
  by unfold_locales (simp_all add: entering_iff browser_ops cong: option.case_cong)

definition phases :: "('z voice_scheme \<Rightarrow> bool) set" where
  "phases = {asking, entering}"

lemma phases_in [simp]: "asking \<in> phases" "entering \<in> phases"
  by (simp_all add: phases_def)

lemma asking_asserts:
  assumes "wp asking m w" "single m"
  shows "asserts phases (\<lambda>_. asking) entering m w"
  by (rule asserts_mono [OF asserts_wp [OF assms phases_in(1)]]) (simp_all add: asking_entering)

lemma entering_asserts:
  "wp entering m w \<Longrightarrow> single m \<Longrightarrow> asserts phases (\<lambda>_. entering) entering m w"
  by (rule asserts_wp) simp_all

lemma mic_asserts:
  assumes "asking w"
  shows "asserts phases (\<lambda>s w'. case s of None \<Rightarrow> asking w' | Some j \<Rightarrow> entering (w'\<lparr>localStream := Some j\<rparr>))
    entering open_mic w"
proof -
  have "asserts phases (\<lambda>s w'. case s of None \<Rightarrow> asking w' | Some j \<Rightarrow> entering (w'\<lparr>localStream := Some j\<rparr>)) asking
      (bind (invoke ''getUserMedia'' (JObj [(''audio'', JBool True)])) (\<lambda>_.
          Get (\<lambda>w. Put (\<lambda>w. w\<lparr>mics := mics w @ [True]\<rparr>) (Ret (Some (length (mics w))))))) w"
    using assms mic_opened by (auto simp: invoke_def split: reply.split intro!: bexI [OF _ phases_in(1)])
  then show ?thesis
    unfolding open_mic_def by (rule asserts_try) (simp add: asking_error)
qed

lemma others_asserts:
  assumes "entering w"
  shows "asserts phases (\<lambda>_. entering) entering (list_others e ch me) w"
proof -
  have "entering (w\<lparr>participants := ps\<rparr>) = entering w" for w :: "'a voice_scheme" and ps
    by (simp add: entering_iff cong: option.case_cong)
  then have "wp entering (list_others e ch me) w"
    unfolding list_others_def using assms
    by (auto intro!: entering_client.wp_api_bind wp_bind wp_read_as)
  moreover have "single (list_others e ch me)"
    unfolding list_others_def by (auto intro!: single_bind single_apiFetch)
  ultimately show ?thesis by (rule entering_asserts)
qed

lemma connect_asserts:
  "entering w \<Longrightarrow> asserts phases (\<lambda>_. joining_over) entering (connect e refuses ch us) w"
  by (simp add: connect_def Let_def upd_def call_entered)

lemma join_asserts:
  assumes "asking w"
  shows "asserts phases (\<lambda>_. joining_over) entering (join_call e refuses ch) w"
  unfolding join_call_def
proof (rule asserts_bind [OF asking_asserts])
  fix r :: response and w1 :: "'a voice_scheme" assume a: "asking w1"
  have "asserts phases (\<lambda>_. joining_over) entering (bind (read_as (str_field ''user_id'') r) (\<lambda>me.
      bind open_mic (\<lambda>s. case s of None \<Rightarrow> skip
        | Some j \<Rightarrow> Put (\<lambda>w. w\<lparr>localStream := Some j\<rparr>) (bind (list_others e ch me) (connect e refuses ch))))) w1"
  proof (rule asserts_bind [OF asking_asserts])
    fix me and w2 :: "'a voice_scheme" assume "asking w2"
    from mic_asserts [OF this]
    show "asserts phases (\<lambda>_. joining_over) entering (bind open_mic (\<lambda>s. case s of None \<Rightarrow> skip
        | Some j \<Rightarrow> Put (\<lambda>w. w\<lparr>localStream := Some j\<rparr>) (bind (list_others e ch me) (connect e refuses ch)))) w2"
      by (rule asserts_bind)
         (auto simp: skip_def asking_over intro!: asserts_bind [OF others_asserts connect_asserts] split: option.splits)
  qed (use a in auto)
  then show "asserts phases (\<lambda>_. joining_over) entering
      (if status r = 403 then upd (\<lambda>w. w\<lparr>v_error := Some ''You do not have permission to join this voice channel''\<rparr>)
       else if \<not> ok r then Throw (ErrorMsg ''join failed'')
       else bind (read_as (str_field ''user_id'') r) (\<lambda>me.
         bind open_mic (\<lambda>s. case s of None \<Rightarrow> skip
           | Some j \<Rightarrow> Put (\<lambda>w. w\<lparr>localStream := Some j\<rparr>) (bind (list_others e ch me) (connect e refuses ch))))) w1"
    using a by (simp add: upd_def asking_entering asking_over asking_error)
qed (use assms in \<open>auto intro: single_apiFetch\<close>)

lemma handleJoinVoice_asserts:
  assumes "tidy_call w" "\<not> v_joining w" "\<not> joinedRef w"
  shows "asserts phases (\<lambda>_. tidy_call) tidy_call (handleJoinVoice e refuses ch) w"
proof -
  have a: "asking (w\<lparr>v_joining := True, v_error := None\<rparr>)"
    using assms by (cases "localStream w") (simp_all add: tidy_outside asking_iff)
  have "asserts phases (\<lambda>_. joining_over) joining_over (try_catch (join_call e refuses ch)
      (\<lambda>_. upd (\<lambda>w. stop_mic (w\<lparr>v_error := Some ''Failed to join voice channel''\<rparr>)))) (w\<lparr>v_joining := True, v_error := None\<rparr>)"
    by (rule asserts_try [OF join_asserts [OF a]]) (simp add: upd_def asking_over mic_stopped)
  then show ?thesis
    unfolding handleJoinVoice_def asserts.simps by (rule asserts_finally) (simp_all add: joining_over_def)
qed

section \<open>The component meets the contract\<close>

lemma joining_kept [simp]:
  "v_joining (participant_joined u n w) = v_joining w" "v_joining (participant_left u w) = v_joining w"
  "v_joining (addAudio u i w) = v_joining w" "v_joining (local_candidate i c w) = v_joining w"
  "call_state (addAudio u i w) = call_state w" "call_state (local_candidate i c w) = call_state w"
       apply (simp_all add: participant_joined_def participant_left_def removePeer_def addAudio_def)
  apply (simp_all add: local_candidate_def split: option.split)
  apply (simp_all add: call_state_def)
  done

lemma frames_message: "frames v_joining (handleMessage raw now :: ('z voice_scheme, unit) io)"
proof -
  have "frames v_joining (handle_offer u s :: ('z voice_scheme, unit) io)"
    "frames v_joining (handle_answer u s :: ('z voice_scheme, unit) io)"
    "frames v_joining (addRemoteCandidate u c :: ('z voice_scheme, unit) io)" for u s c
    by (rule frames_messages; simp)+
  then show ?thesis by (simp add: handleMessage_def upd_def skip_def split: option.split)
qed

lemma frames_offer_all: "frames v_joining (offer_all us :: ('z voice_scheme, unit) io)"
proof (induction us)
  case (Cons u us)
  have "frames v_joining (send_offer u i :: ('z voice_scheme, unit) io)" for i by (rule frames_messages) simp_all
  with Cons show ?case by simp
qed (simp add: skip_def)

lemma tail_offer_all: "tail_frames call_state (offer_all us :: ('z voice_scheme, unit) io)"
proof (induction us)
  case (Cons u us)
  have "frames call_state (send_offer u i :: ('z voice_scheme, unit) io)" for i by (rule frames_messages) simp_all
  with Cons show ?case by (simp add: frames_tail)
qed (simp add: skip_def)

lemma voice_frames:
  assumes "ev \<noteq> Join"
  shows "frames v_joining (voice_handler e refuses ch ev :: ('z voice_scheme, unit) io)"
    and "tail_frames call_state (voice_handler e refuses ch ev :: ('z voice_scheme, unit) io)"
proof -
  have l: "frames v_joining (bind (try_catch (bind (apiFetch e p i) (\<lambda>_. skip)) (\<lambda>_. skip)) (\<lambda>_. Throw Detached) :: ('z voice_scheme, 'a) io)"
    "frames v_joining (try_catch (bind (apiFetch e p i) (\<lambda>_. skip)) (\<lambda>_. skip) :: ('z voice_scheme, unit) io)"
    "frames call_state (bind (try_catch (bind (apiFetch e p i) (\<lambda>_. skip)) (\<lambda>_. skip)) (\<lambda>_. Throw Detached) :: ('z voice_scheme, 'a) io)"
    "frames call_state (try_catch (bind (apiFetch e p i) (\<lambda>_. skip)) (\<lambda>_. skip) :: ('z voice_scheme, unit) io)" for p i
    by (rule frames_leave_call; simp)+
  have m: "tail_frames call_state (handleMessage raw now :: ('z voice_scheme, unit) io)" for raw now
    by (rule frames_messages) simp_all
  show "frames v_joining (voice_handler e refuses ch ev :: ('z voice_scheme, unit) io)"
    using assms by (cases ev) (simp_all add: handleLeave_def doCleanup_def signal_opened_def signal_closed_def
        upd_def l frames_offer_all frames_try frames_message)
  show "tail_frames call_state (voice_handler e refuses ch ev :: ('z voice_scheme, unit) io)"
    using assms by (cases ev) (simp_all add: handleLeave_def doCleanup_def signal_opened_def signal_closed_def
        upd_def l [THEN frames_tail] tail_offer_all tail_frames_try m frames_tail)
qed

lemma single_join: "single (join_call e refuses ch)"
  unfolding join_call_def open_mic_def list_others_def connect_def
  by (auto simp: invoke_def Let_def skip_def upd_def split: reply.split option.split
      intro!: single_bind single_try single_apiFetch)

lemma frames_join: "frames v_joining (join_call e refuses ch :: ('z voice_scheme, unit) io)"
  unfolding join_call_def open_mic_def list_others_def connect_def
  by (auto simp: invoke_def Let_def skip_def upd_def split: reply.split option.split
      intro!: frames_bind frames_try frames_apiFetch)

lemma flight_join: "flight v_joining (handleJoinVoice e refuses ch) w"
proof -
  have "wp v_joining (try_catch (join_call e refuses ch)
      (\<lambda>_. upd (\<lambda>w. stop_mic (w\<lparr>v_error := Some ''Failed to join voice channel''\<rparr>)))) (w\<lparr>v_joining := True, v_error := None\<rparr>)"
    by (rule wp_frames [where f = v_joining]) (auto simp: stop_mic_def intro!: frames_try frames_join)
  then show ?thesis
    unfolding handleJoinVoice_def by (auto intro!: flight_finally single_try single_join)
qed

lemma not_frames_join: "\<not> frames v_joining (handleJoinVoice e refuses ch :: (voice, unit) io)"
proof
  assume "frames v_joining (handleJoinVoice e refuses ch :: (voice, unit) io)"
  then have "v_joining w" for w :: voice by (simp add: handleJoinVoice_def)
  from this [of "voice_init undefined"] show False by (simp add: voice_init_def)
qed

lemma join_offered: "voice_enabled name Join w \<Longrightarrow> v_life w = Mounted \<and> \<not> v_joined w \<and> \<not> v_joining w"
  by (auto simp: voice_view_def list_ex_iff split: if_splits option.splits)

interpretation voice_call: phased "voice_enabled name" "voice_handler e refuses ch" "voice_init b" v_joining
    tidy_call phases call_state
  for name e refuses ch b
proof
  show "\<not> v_joining (voice_init b)" "tidy_call (voice_init b)"
    by (simp_all add: voice_init_def tidy_call_iff)
next
  fix ev and w :: voice assume en: "voice_enabled name ev w"
  show "frames v_joining (voice_handler e refuses ch ev :: (voice, unit) io) \<or>
    (if v_joining w
     then \<forall>w' ps t. seg (voice_handler e refuses ch ev) w = (w', ps, t) \<longrightarrow> v_joining w' \<and> \<not> suspended t \<and> ps = []
     else flight v_joining (voice_handler e refuses ch ev) w)"
  proof (cases "ev = Join")
    case True
    with en join_offered [of name w] show ?thesis by (simp add: flight_join)
  qed (simp add: voice_frames)
next
  show "\<forall>J\<in>phases. \<forall>w. J w \<longrightarrow> tidy_call w" by (auto simp: phases_def asking_def entering_def)
next
  fix J and w w' :: voice assume "J \<in> insert tidy_call phases" and s: "call_state w' = call_state w" and "J w"
  then show "J w'" using tidy_call_seen [OF s] by (auto simp: phases_def asking_def entering_def call_state_def)
next
  fix ev and w :: voice
  assume en: "voice_enabled name ev w" and t: "tidy_call w" and nf: "\<not> frames v_joining (voice_handler e refuses ch ev :: (voice, unit) io)"
  then have "ev = Join" using voice_frames(1) by blast
  with en join_offered [of name w] have j: "ev = Join" "v_life w = Mounted" "\<not> v_joined w" "\<not> v_joining w" by simp_all
  with t have "\<not> joinedRef w" by (simp add: tidy_call_iff)
  with j handleJoinVoice_asserts [OF t] show "\<not> v_joining w \<and> asserts phases (\<lambda>_. tidy_call) tidy_call (voice_handler e refuses ch ev) w"
    by simp
next
  fix ev assume f: "frames v_joining (voice_handler e refuses ch ev :: (voice, unit) io)"
  have "ev \<noteq> Join" using f not_frames_join by auto
  then show "tail_frames call_state (voice_handler e refuses ch ev :: (voice, unit) io)" by (rule voice_frames(2))
next
  fix ev J and w :: voice
  assume en: "voice_enabled name ev w" and f: "frames v_joining (voice_handler e refuses ch ev :: (voice, unit) io)"
    and J: "J \<in> insert tidy_call phases" "J w"
  have "ev \<noteq> Join" using f not_frames_join by auto
  moreover have "tidy_call w" using J by (auto simp: phases_def asking_def entering_def)
  ultimately have "after (calm w) (voice_handler e refuses ch ev) w" using voice_stretch en by blast
  then show "after J (voice_handler e refuses ch ev) w"
    using calm_phases [of w _ J] J by (auto simp: after_def phases_def split: prod.splits)
qed

end
