(* ===== verification/VoiceCalls.thy ===== *)
theory VoiceCalls
  imports Voice
begin

text \<open>
  What a user of a voice channel gets from \<open>Voice\<close>: the course of joining, the offers to those
  who are there, the candidates that arrive before their description, leaving; and three
  ways in which it goes wrong: a refused microphone leaves the user listed, a join outlives the
  page, and an old socket ends a new call.
\<close>

section \<open>The course of joining\<close>

definition in_join :: "('z voice_scheme, unit) io \<Rightarrow> ('z voice_scheme, unit) io" where
  "in_join m = finally_do
     (try_catch m (\<lambda>_. upd (\<lambda>w. stop_mic (w\<lparr>v_error := Some ''Failed to join voice channel''\<rparr>))))
     (\<lambda>w. w\<lparr>v_joining := False\<rparr>)"

lemma in_join_simps [simp]:
  "in_join (Await cs k) = Await cs (\<lambda>i r. in_join (k i r))" "in_join (Get g) = Get (\<lambda>w. in_join (g w))"
  "in_join (Put u m) = Put u (in_join m)" "in_join (Ret ()) = Put (\<lambda>w. w\<lparr>v_joining := False\<rparr>) (Ret ())"
  by (simp_all add: in_join_def)

definition asked :: "'z voice_scheme \<Rightarrow> 'z voice_scheme" where
  "asked w = w\<lparr>v_joining := True, v_error := None\<rparr>"

definition with_mic :: "'z voice_scheme \<Rightarrow> 'z voice_scheme" where
  "with_mic w = w\<lparr>mics := mics w @ [True], localStream := Some (length (mics w))\<rparr>"

text \<open>The program that has the microphone and waits for the list of participants.\<close>

definition listing :: "env \<Rightarrow> (string \<Rightarrow> bool) \<Rightarrow> string \<Rightarrow> string \<Rightarrow> 'z voice_scheme \<Rightarrow> ('z voice_scheme, unit) io" where
  "listing e refuses ch me v =
     in_join (bind (Await [HttpFetch (api_request e (voice_path ch ''participants'') no_init (first_headers e no_init v))]
         (\<lambda>_ x. bind (api_answer e (voice_path ch ''participants'') no_init v x) (\<lambda>r.
           if ok r then
             bind (read_as as_participants r) (\<lambda>ps.
               Put (\<lambda>w. w\<lparr>participants := ps\<rparr>) (Ret (filter (\<lambda>u. u \<noteq> me) (map p_user ps))))
           else Ret [])))
       (connect e refuses ch))"

definition mic_turns :: "nat \<Rightarrow> response \<Rightarrow> json \<Rightarrow> voice_event turn list" where
  "mic_turns n r v = [Event Join, Answer n 0 (HttpResp r), Answer n 0 Rejected, Answer n 0 (Value v)]"

definition list_turns :: "nat \<Rightarrow> response \<Rightarrow> voice_event turn list" where
  "list_turns n r = [Answer n 0 (HttpResp r), Answer n 0 Rejected]"

definition accepted :: "response \<Rightarrow> string \<Rightarrow> bool" where
  "accepted r me \<longleftrightarrow> ok r \<and> (\<exists>j. body r = Some j \<and> str_field ''user_id'' j = Some me)"

definition listed :: "response \<Rightarrow> participant list \<Rightarrow> bool" where
  "listed r ps \<longleftrightarrow> ok r \<and> (\<exists>j. body r = Some j \<and> as_participants j = Some ps)"

definition idle :: "'z voice_scheme \<Rightarrow> bool" where
  "idle w \<longleftrightarrow> v_life w = Mounted \<and> \<not> v_joined w \<and> \<not> v_joining w"

text \<open>The program that has been accepted and waits for the microphone.\<close>

definition asking_mic :: "env \<Rightarrow> (string \<Rightarrow> bool) \<Rightarrow> string \<Rightarrow> string \<Rightarrow> ('z voice_scheme, unit) io" where
  "asking_mic e refuses ch me = in_join (bind open_mic (\<lambda>stream.
     case stream of None \<Rightarrow> skip | Some j \<Rightarrow> Put (\<lambda>w. w\<lparr>localStream := Some j\<rparr>)
           (bind (list_others e ch me) (connect e refuses ch))))"

definition join_turns :: "nat \<Rightarrow> response \<Rightarrow> voice_event turn list" where
  "join_turns n r = [Event Join, Answer n 0 (HttpResp r), Answer n 0 Rejected]"

lemma join_reached:
  assumes "idle w" "accepted r me"
  shows "exec (voice_enabled name) (voice_handler e refuses ch) (join_turns (length ts) r) (w, ts) =
    Some (asked w, ts @ [asking_mic e refuses ch me])"
proof -
  let ?post = "\<lambda>joinRes. if status joinRes = 403 then
         upd (\<lambda>w. w\<lparr>v_error := Some ''You do not have permission to join this voice channel''\<rparr>)
       else if \<not> ok joinRes then Throw (ErrorMsg ''join failed'')
       else bind (read_as (str_field ''user_id'') joinRes) (\<lambda>me. bind open_mic (\<lambda>stream.
           case stream of None \<Rightarrow> skip | Some j \<Rightarrow> Put (\<lambda>w. w\<lparr>localStream := Some j\<rparr>)
                 (bind (list_others e ch me) (connect e refuses ch))))"
  from assms(2) obtain j where r: "ok r" "body r = Some j" "str_field ''user_id'' j = Some me"
    by (auto simp: accepted_def)
  then have s: "status r \<noteq> 401" "status r \<noteq> 403" by (auto simp: ok_def)
  have en: "voice_enabled name Join w"
    using assms(1) by (simp add: idle_def voice_view_def)
  have 1: "seg (voice_handler e refuses ch Join) w = (asked w, [],
      Await [HttpFetch (api_request e (voice_path ch ''join'') post_init (first_headers e post_init (asked w)))]
        (\<lambda>_ x. in_join (bind (api_answer e (voice_path ch ''join'') post_init (asked w) x) ?post)))"
    unfolding asked_def by (simp add: handleJoinVoice_def join_call_def apiFetch_waits in_join_def)
  show ?thesis
    unfolding join_turns_def
    by (subst exec_event [of "voice_enabled name" Join w "voice_handler e refuses ch", OF en 1])
       (simp add: api_answered s r io_simps open_mic_def asking_mic_def)
qed

lemma mic_reached:
  assumes "idle w" "accepted r me"
  shows "exec (voice_enabled name) (voice_handler e refuses ch) (mic_turns (length ts) r v) (w, ts) =
    Some (with_mic (asked w), ts @ [listing e refuses ch me (with_mic (asked w))])"
proof -
  have "exec (voice_enabled name) (voice_handler e refuses ch) [Answer (length ts) 0 (Value v)]
      (asked w, ts @ [asking_mic e refuses ch me]) =
    Some (with_mic (asked w), ts @ [listing e refuses ch me (with_mic (asked w))])"
    by (simp add: asking_mic_def open_mic_def io_simps with_mic_def listing_def list_others_def apiFetch_waits)
  from exec_then [OF join_reached [OF assms] this] show ?thesis
    by (simp add: mic_turns_def join_turns_def del: exec.simps)
qed

text \<open>Denied the microphone, the view gives up a call of which the server has been told. The request to
  leave is not made then; the page offers no way to make it, and going away makes none either.\<close>

definition mic_denied :: "'z voice_scheme \<Rightarrow> 'z voice_scheme" where
  "mic_denied w = w\<lparr>v_joining := False, v_error := Some ''Microphone access denied''\<rparr>"

theorem denied_microphone_stays_listed:
  assumes "idle w" "accepted r me" "\<not> joinedRef w"
  shows "exec (voice_enabled name) (voice_handler e refuses ch)
      (join_turns (length ts) r @ [Answer (length ts) 0 Rejected]) (w, ts) = Some (mic_denied w, ts @ [Ret ()]) \<and>
    idle (mic_denied w) \<and> \<not> voice_enabled name Leave (mic_denied w) \<and>
    seg (voice_handler e refuses ch VoiceUnmount) (mic_denied w) = ((mic_denied w)\<lparr>v_life := Gone\<rparr>, [], Ret ())"
proof (intro conjI)
  have "exec (voice_enabled name) (voice_handler e refuses ch) [Answer (length ts) 0 Rejected]
      (asked w, ts @ [asking_mic e refuses ch me]) = Some (mic_denied w, ts @ [Ret ()])"
    by (simp add: asking_mic_def open_mic_def io_simps mic_denied_def asked_def skip_def)
  from exec_then [OF join_reached [OF assms(1,2)] this]
  show "exec (voice_enabled name) (voice_handler e refuses ch)
      (join_turns (length ts) r @ [Answer (length ts) 0 Rejected]) (w, ts) = Some (mic_denied w, ts @ [Ret ()])" .
  show "idle (mic_denied w)" using assms(1) by (simp add: idle_def mic_denied_def)
  then show "\<not> voice_enabled name Leave (mic_denied w)"
    by (simp add: idle_def voice_view_def split: option.split)
  show "seg (voice_handler e refuses ch VoiceUnmount) (mic_denied w) = ((mic_denied w)\<lparr>v_life := Gone\<rparr>, [], Ret ())"
    using assms(3) by (simp add: mic_denied_def skip_def)
qed

definition signal_url :: "env \<Rightarrow> string \<Rightarrow> 'z voice_scheme \<Rightarrow> string" where
  "signal_url e ch w = getWebSocketUrl e (voice_path ch ''signal'') w"

definition entered :: "env \<Rightarrow> string \<Rightarrow> string \<Rightarrow> participant list \<Rightarrow> 'z voice_scheme \<Rightarrow> 'z voice_scheme" where
  "entered e ch me ps w =
     w\<lparr>participants := ps,
       v_sockets := v_sockets w @ [new_socket (filter (\<lambda>u. u \<noteq> me) (map p_user ps)) (signal_url e ch w)],
       v_wsRef := Some (length (v_sockets w)), joinedRef := True, v_joined := True, v_joining := False\<rparr>"

text \<open>What the page needs to open the socket: a session, and an address the browser takes.\<close>

definition admitted_to :: "env \<Rightarrow> (string \<Rightarrow> bool) \<Rightarrow> string \<Rightarrow> 'z voice_scheme \<Rightarrow> bool" where
  "admitted_to e refuses ch w \<longleftrightarrow>
     truthy (getItem w ''access_token'') \<noteq> None \<and> \<not> refuses (signal_url e ch w)"

lemma call_reached:
  assumes "n < length ts" "ts ! n = listing e refuses ch me v" "listed r ps" "admitted_to e refuses ch w"
  shows "exec (voice_enabled name) (voice_handler e refuses ch) (list_turns n r) (w, ts) =
    Some (entered e ch me ps w, ts[n := Ret ()])"
proof -
  define u where "u = signal_url e ch w"
  have url: "getWebSocketUrl e (voice_path ch ''signal'') w' = u" if "storage w' = storage w" for w' :: "'a voice_scheme"
    unfolding u_def signal_url_def using that by (rule getWebSocketUrl_storage)
  from assms(3) obtain j where r: "ok r" "body r = Some j" "as_participants j = Some ps"
    by (auto simp: listed_def)
  then have s: "status r \<noteq> 401" by (auto simp: ok_def)
  from assms(4) obtain tok where "truthy (storage w ''access_token'') = Some tok" "\<not> refuses u"
    by (auto simp: admitted_to_def getItem_def u_def)
  with r s assms(1,2) show ?thesis
    by (simp add: list_turns_def listing_def api_answered io_simps connect_def u_def [symmetric]
        getItem_def Let_def entered_def url)
qed

text \<open>Both together: joining when nothing interferes.\<close>

lemma joined:
  assumes "idle w" "accepted r me" "listed r' ps" "admitted_to e refuses ch w"
  shows "exec (voice_enabled name) (voice_handler e refuses ch)
      (mic_turns (length ts) r v @ list_turns (length ts) r') (w, ts) =
    Some (entered e ch me ps (with_mic (asked w)), ts @ [Ret ()])"
proof (rule exec_then [OF mic_reached [OF assms(1,2)]])
  have "admitted_to e refuses ch (with_mic (asked w))"
    using assms(4) getWebSocketUrl_storage [of "with_mic (asked w)" w e "voice_path ch ''signal''"]
    by (simp add: admitted_to_def signal_url_def getItem_def with_mic_def asked_def)
  from call_reached [OF _ _ assms(3) this, of "length ts"]
  show "exec (voice_enabled name) (voice_handler e refuses ch) (list_turns (length ts) r')
      (with_mic (asked w), ts @ [listing e refuses ch me (with_mic (asked w))]) =
    Some (entered e ch me ps (with_mic (asked w)), ts @ [Ret ()])" by simp
qed

section \<open>What is held outside a call\<close>

text \<open>What is held belongs to the call.\<close>

lemma tidy_held:
  assumes "tidy_call w"
  shows "\<forall>j<length (mics w). mics w ! j \<longrightarrow> localStream w = Some j \<and> (joinedRef w \<or> v_joining w)"
    and "\<forall>k<length (v_sockets w). live (v_sockets w ! k) \<longrightarrow> v_wsRef w = Some k \<and> joinedRef w"
proof -
  have "localStream w = Some j \<and> (joinedRef w \<or> v_joining w)" if "j < length (mics w)" "mics w ! j" for j
  proof -
    from assms that have "localStream w = Some j" by (simp add: tidy_call_iff)
    with assms show ?thesis by (simp add: tidy_call_iff)
  qed
  then show "\<forall>j<length (mics w). mics w ! j \<longrightarrow> localStream w = Some j \<and> (joinedRef w \<or> v_joining w)" by blast
  show "\<forall>k<length (v_sockets w). live (v_sockets w ! k) \<longrightarrow> v_wsRef w = Some k \<and> joinedRef w"
    using tidy_live [OF assms] by blast
qed

text \<open>C24. In every reachable state, whatever was answered in which order: at most one join is under way;
  a microphone that is on is the one the view refers to, and a call is joined or being joined;
  a live socket is that of the call. So a page that shows neither holds no microphone, no
  connection and no peer.\<close>

theorem nothing_held_outside_call:
  assumes "reachable (voice_enabled name) (voice_handler e refuses ch) (voice_init b) (w, ts)"
  shows "owners v_joining ts = (if v_joining w then 1 else 0) \<and>
    (\<forall>j<length (mics w). mics w ! j \<longrightarrow> localStream w = Some j \<and> (joinedRef w \<or> v_joining w)) \<and>
    (\<forall>k<length (v_sockets w). live (v_sockets w ! k) \<longrightarrow> v_wsRef w = Some k \<and> joinedRef w) \<and>
    (v_life w = Mounted \<and> \<not> v_joined w \<longrightarrow> v_wsRef w = None \<and> peers w = [] \<and>
      (\<forall>k<length (v_sockets w). \<not> live (v_sockets w ! k)) \<and>
      (v_joining w \<or> (\<forall>j<length (mics w). \<not> mics w ! j)))"
proof -
  have t: "tidy_call w" by (rule voice_call.invariant [OF assms])
  have "v_wsRef w = None \<and> peers w = [] \<and> \<not> joinedRef w" if "v_life w = Mounted" "\<not> v_joined w"
    using t that by (cases "v_wsRef w") (auto simp: tidy_call_iff)
  with voice_call.one_owner [OF assms] tidy_held [OF t] tidy_live [OF t] show ?thesis by blast
qed

definition call_env :: env where
  "call_env = \<lparr>api_url = None, window = Some (''https:'', ''h'')\<rparr>"

definition demo_voice :: voice where
  "demo_voice = (voice_init \<lparr>storage = [''access_token'' \<mapsto> ''t''], hrefs = []\<rparr>)\<lparr>v_life := Mounted\<rparr>"

definition yes_me :: response where
  "yes_me = \<lparr>status = 200, body = Some (JObj [(''user_id'', JStr ''me'')])\<rparr>"

definition who_is_there :: response where
  "who_is_there = \<lparr>status = 200, body = Some (JObj [(''participants'', JArr
     [JObj [(''user_id'', JStr ''ann''), (''joined_at'', JStr ''t'')]])])\<rparr>"

lemma demo_facts:
  "idle demo_voice" "accepted yes_me ''me''" "listed who_is_there [\<lparr>p_user = ''ann'', joined_at = ''t''\<rparr>]"
  "admitted_to call_env (\<lambda>_. False) ch demo_voice"
  by (simp_all add: idle_def demo_voice_def voice_init_def accepted_def yes_me_def ok_def str_field_def listed_def
      who_is_there_def as_participants_def as_list_def as_participant_def admitted_to_def getItem_def)

lemma demo_mounted:
  "exec (voice_enabled name) (voice_handler e refuses ch) [Event VoiceMount]
     (voice_init \<lparr>storage = [''access_token'' \<mapsto> ''t''], hrefs = []\<rparr>, []) = Some (demo_voice, [Ret ()])"
  by (simp add: demo_voice_def upd_def voice_init_def)

definition demo_call :: voice where
  "demo_call = entered call_env ''c'' ''me'' [\<lparr>p_user = ''ann'', joined_at = ''t''\<rparr>] (with_mic (asked demo_voice))"

lemma demo_called:
  "exec (voice_enabled name) (voice_handler call_env (\<lambda>_. False) ''c'')
     (Event VoiceMount # mic_turns 1 yes_me JNull @ list_turns 1 who_is_there)
     (voice_init \<lparr>storage = [''access_token'' \<mapsto> ''t''], hrefs = []\<rparr>, []) = Some (demo_call, [Ret (), Ret ()])"
  using exec_then [OF demo_mounted joined [OF demo_facts, where ts = "[Ret ()]" and v = JNull, unfolded list.size append.simps]]
  by (simp add: demo_call_def del: exec.simps)

theorem denied_microphone_stays_listed_witness:
  "exec (voice_enabled []) (voice_handler call_env (\<lambda>_. False) ''c'')
      (join_turns 1 yes_me @ [Answer 1 0 Rejected]) (demo_voice, [Ret ()]) = Some (mic_denied demo_voice, [Ret (), Ret ()]) \<and>
    \<not> voice_enabled [] Leave (mic_denied demo_voice)"
proof -
  have "\<not> joinedRef demo_voice" by (simp add: demo_voice_def voice_init_def)
  from denied_microphone_stays_listed [OF demo_facts(1,2) this, where ts = "[Ret ()]" and name = "[]" and e = call_env
      and refuses = "\<lambda>_. False" and ch = "''c''", unfolded list.size append.simps]
  show ?thesis by (simp del: exec.simps)
qed

theorem nothing_held_outside_call_witness:
  "length (mics demo_call) = 1 \<and> mics demo_call ! 0 \<and> localStream demo_call = Some 0 \<and> v_wsRef demo_call = Some 0"
proof -
  note n = nothing_held_outside_call [OF exec_reachable_init [OF demo_called]]
  have l: "length (mics demo_call) = 1" "mics demo_call ! 0" "length (v_sockets demo_call) = 1" "live (v_sockets demo_call ! 0)"
    by (simp_all add: demo_call_def entered_def with_mic_def asked_def demo_voice_def voice_init_def live_def)
  from n [THEN conjunct2, THEN conjunct1] n [THEN conjunct2, THEN conjunct2, THEN conjunct1] l show ?thesis by simp
qed

section \<open>The newcomer offers\<close>

text \<open>The platform's answers to \<open>createOffer\<close> and \<open>setLocalDescription\<close> for each of the peers.\<close>

fun offer_turns :: "nat \<Rightarrow> json list \<Rightarrow> voice_event turn list" where
  "offer_turns n [] = []"
| "offer_turns n (d # ds) = Answer n 0 (Value d) # Answer n 0 (Value JNull) # offer_turns (Suc n) ds"

definition offer_signals :: "string list \<Rightarrow> json list \<Rightarrow> json list" where
  "offer_signals us ds = map2 (\<lambda>u d. signal ''offer'' u (opt_prop ''sdp'' (Some d))) us ds"

lemma makePeer_pcs [simp]: "length (pcs (makePeer u w)) = Suc (length (pcs w))"
  by (simp add: makePeer_def)

text \<open>The programs that make the offers, for peers numbered from \<open>i\<close> on.\<close>

fun offering :: "string list \<Rightarrow> nat \<Rightarrow> ('z voice_scheme, unit) io list" where
  "offering [] i = []"
| "offering (u # us) i = send_offer u i # offering us (Suc i)"

lemma offers_started:
  "seg (offer_all us) w = (fold makePeer us w, offering us (length (pcs w)), Ret ())"
proof (induction us arbitrary: w)
  case (Cons u us)
  have "seg (send_offer u i) v = (v, [], send_offer u i)" for i and v :: "'a voice_scheme"
    by (simp add: send_offer_def on_pc_def io_simps)
  then show ?case using Cons.IH [of "makePeer u w"] by simp
qed (simp add: skip_def)

lemma offer_sent:
  assumes "n < length ts" "ts ! n = send_offer u i"
  shows "exec en h (Answer n 0 (Value d) # Answer n 0 (Value x) # turns) (w, ts) =
    exec en h turns (send_signal (signal ''offer'' u (opt_prop ''sdp'' (Some d))) w, ts[n := Ret ()])"
  using assms by (simp add: send_offer_def on_pc_def io_simps)

lemma offers_sent:
  "length ds = length us \<Longrightarrow>
     exec en h (offer_turns (length ts) ds) (w, ts @ offering us i @ rs) =
     Some (fold send_signal (offer_signals us ds) w, ts @ replicate (length us) (Ret ()) @ rs)"
proof (induction us arbitrary: ds w ts i)
  case (Cons u us)
  then obtain d ds' where d: "ds = d # ds'" "length ds' = length us" by (cases ds) auto
  have "exec en h (offer_turns (length ts) ds) (w, ts @ offering (u # us) i @ rs) =
      exec en h (offer_turns (length (ts @ [Ret ()])) ds')
        (send_signal (signal ''offer'' u (opt_prop ''sdp'' (Some d))) w, (ts @ [Ret ()]) @ offering us (Suc i) @ rs)"
    unfolding d(1) offer_turns.simps by (subst offer_sent [where u = u and i = i]) simp_all
  also note Cons.IH [OF d(2)]
  finally show ?case by (simp add: d(1) offer_signals_def)
qed (simp add: offer_signals_def)

lemma made_pcs:
  "pcs (fold makePeer us w) = pcs w @ map (\<lambda>u. \<lparr>pc_user = u, pc_ice = ICE_SERVERS, pc_tracks = localStream w,
     pc_remote = None, pc_candidates = [], pc_closed = False\<rparr>) us"
  by (induction us arbitrary: w) (simp_all, simp add: makePeer_def)

lemma made_fields [simp]:
  "v_sockets (fold makePeer us w) = v_sockets w" "v_wsRef (fold makePeer us w) = v_wsRef w"
  by (induction us arbitrary: w) simp_all

lemma made_peers_other: "u \<notin> set us \<Longrightarrow> map_of (peers (fold makePeer us w)) u = map_of (peers w) u"
  by (induction us arbitrary: w) (auto simp: makePeer_def update_conv')

lemma made_peers:
  "distinct us \<Longrightarrow> j < length us \<Longrightarrow> map_of (peers (fold makePeer us w)) (us ! j) = Some (length (pcs w) + j)"
proof (induction us arbitrary: w j)
  case (Cons u us)
  show ?case
  proof (cases j)
    case 0
    with Cons.prems(1) show ?thesis by (simp add: made_peers_other) (simp add: makePeer_def update_conv')
  next
    case (Suc l)
    with Cons show ?thesis by simp
  qed
qed simp

lemma send_signal_fields [simp]:
  "peers (send_signal j w) = peers w" "pcs (send_signal j w) = pcs w"
  by (simp_all add: send_signal_def split: option.split)

lemma signals_fields [simp]:
  "peers (fold send_signal js w) = peers w" "pcs (fold send_signal js w) = pcs w"
  by (induction js arbitrary: w) simp_all

lemma signals_sent:
  "v_wsRef w = Some k \<Longrightarrow> in_state Open k (v_sockets w) \<Longrightarrow>
     sent (v_sockets (fold send_signal js w) ! k) = sent (v_sockets w ! k) @ js"
proof (induction js arbitrary: w)
  case (Cons j js)
  have "v_wsRef (send_signal j w) = Some k" "in_state Open k (v_sockets (send_signal j w))"
    "sent (v_sockets (send_signal j w) ! k) = sent (v_sockets w ! k) @ [j]"
    using Cons.prems by (simp_all add: send_signal_def in_state_def send_ws_def)
  with Cons.IH [of "send_signal j w"] show ?case by simp
qed simp

lemma others_distinct: "distinct (map p_user ps) \<Longrightarrow> distinct (filter (\<lambda>u. u \<noteq> me) (map p_user ps))"
  by simp



section \<open>Candidates that arrive early\<close>

definition cand_frame :: "string \<Rightarrow> json \<Rightarrow> json" where
  "cand_frame u c = JObj [(''type'', JStr ''ice-candidate''), (''sender_user_id'', JStr u), (''candidate'', c)]"

definition offer_frame :: "string \<Rightarrow> json \<Rightarrow> json" where
  "offer_frame u s = JObj [(''type'', JStr ''offer''), (''sender_user_id'', JStr u), (''sdp'', s)]"

definition frames_of :: "nat \<Rightarrow> json list \<Rightarrow> voice_event turn list" where
  "frames_of k js = map (\<lambda>j. Event (SignalFrame k (Some j) 0)) js"

text \<open>The candidates a peer connection does not refuse.\<close>

fun taken :: "json list \<Rightarrow> reply list \<Rightarrow> json list" where
  "taken (c # cs) (Value v # rs) = c # taken cs rs"
| "taken (c # cs) (r # rs) = taken cs rs"
| "taken cs rs = []"

definition buffers :: "string \<Rightarrow> json list \<Rightarrow> 'z voice_scheme \<Rightarrow> 'z voice_scheme" where
  "buffers u cs w = fold (buffer u) cs w"

lemma buffer_fields [simp]:
  "peers (buffer u c w) = peers w" "pcs (buffer u c w) = pcs w" "v_sockets (buffer u c w) = v_sockets w"
  by (simp_all add: buffer_def)

lemma buffers_fields [simp]:
  "peers (buffers u cs w) = peers w" "pcs (buffers u cs w) = pcs w" "v_sockets (buffers u cs w) = v_sockets w"
  by (induction cs arbitrary: w) (simp_all add: buffers_def)

text \<open>No peer for the user yet, or one without a remote description.\<close>

definition undescribed :: "string \<Rightarrow> 'z voice_scheme \<Rightarrow> bool" where
  "undescribed u w \<longleftrightarrow> (case map_of (peers w) u of None \<Rightarrow> True | Some i \<Rightarrow> pc_remote (pcs w ! i) = None)"

lemma undescribed_new: "map_of (peers w) u = None \<Longrightarrow> undescribed u w"
  by (simp add: undescribed_def)

lemma buffered:
  assumes "u \<noteq> []" "in_state Open k (v_sockets w)" "undescribed u w"
  shows "exec (voice_enabled name) (voice_handler e refuses ch) (frames_of k (map (cand_frame u) cs)) (w, ts) =
    Some (buffers u cs w, ts @ replicate (length cs) (Ret ()))"
  using assms(2,3)
proof (induction cs arbitrary: w ts)
  case Nil
  then show ?case by (simp add: frames_of_def buffers_def)
next
  case (Cons c cs)
  have s: "seg (voice_handler e refuses ch (SignalFrame k (Some (cand_frame u c)) 0)) w = (buffer u c w, [], Ret ())"
    using assms(1) Cons.prems(2)
    by (simp add: cand_frame_def handleMessage_def text_prop_def str_field_def addRemoteCandidate_def undescribed_def
        opt_prop_def nullish_def upd_def split: option.splits)
  have "exec (voice_enabled name) (voice_handler e refuses ch) (frames_of k (map (cand_frame u) (c # cs))) (w, ts) =
      exec (voice_enabled name) (voice_handler e refuses ch) (frames_of k (map (cand_frame u) cs)) (buffer u c w, ts @ [] @ [Ret ()])"
    unfolding frames_of_def list.map using Cons.prems(1)
    by (intro exec_event [of "voice_enabled name" _ w "voice_handler e refuses ch", OF _ s]) simp
  also have "\<dots> = Some (buffers u cs (buffer u c w), (ts @ [] @ [Ret ()]) @ replicate (length cs) (Ret ()))"
    by (rule Cons.IH) (use Cons.prems in \<open>simp_all add: undescribed_def cong: option.case_cong\<close>)
  finally show ?case by (simp add: buffers_def)
qed

definition add_to :: "nat \<Rightarrow> json list \<Rightarrow> 'z voice_scheme \<Rightarrow> 'z voice_scheme" where
  "add_to i cs w = w\<lparr>pcs := update_at i (\<lambda>p. p\<lparr>pc_candidates := pc_candidates p @ cs\<rparr>) (pcs w)\<rparr>"

lemma add_to_simps: "add_to i [] w = w" "add_to i cs (add_to i ds w) = add_to i (ds @ cs) w"
  by (auto simp: add_to_def update_at_def list_update_same_conv)

text \<open>A program that adds candidates one after the other, then goes on with \<open>M\<close>.\<close>

definition adding :: "nat \<Rightarrow> json list \<Rightarrow> ('z voice_scheme, unit) io \<Rightarrow> ('z voice_scheme, unit) io" where
  "adding i cs M = try_catch (bind (add_all i cs) (\<lambda>_. M)) (\<lambda>_. skip)"

definition waits :: "('w, 'a) io \<Rightarrow> bool" where
  "waits m \<longleftrightarrow> (\<forall>w. seg m w = (w, [], m))"

lemma adding_Cons:
  "adding i (c # cs) M = Await [Platform ''addIceCandidate'' (JArr [JNum (int i), c])]
     (\<lambda>_ r. case r of Value v \<Rightarrow> Put (add_to i [c]) (adding i cs M) | _ \<Rightarrow> adding i cs M)"
  by (simp add: adding_def addIceCandidate_def on_pc_def io_simps add_to_def fun_eq_iff split: reply.split)

lemma adding_waits: "waits (adding i [] M) \<Longrightarrow> waits (adding i cs M)"
  by (cases cs) (simp_all add: waits_def adding_Cons)

lemma added:
  assumes "length rs = length cs" "n < length ts" "ts ! n = adding i cs M" "waits (adding i [] M)"
  shows "exec en h (map (Answer n 0) rs) (w, ts) = Some (add_to i (taken cs rs) w, ts[n := adding i [] M])"
  using assms(1-3)
proof (induction cs arbitrary: rs w ts)
  case Nil
  then show ?case by (simp add: add_to_simps) (metis list_update_id)
next
  case (Cons c cs)
  then obtain r rs' where rs: "rs = r # rs'" "length rs' = length cs" by (cases rs) auto
  define w1 where "w1 = (case r of Value v \<Rightarrow> add_to i [c] w | _ \<Rightarrow> w)"
  have s: "seg (case r of Value v \<Rightarrow> Put (add_to i [c]) (adding i cs M) | _ \<Rightarrow> adding i cs M) w = (w1, [], adding i cs M)"
    using adding_waits [OF assms(4), of cs] by (auto simp: waits_def w1_def split: reply.split)
  have "exec en h (map (Answer n 0) rs) (w, ts) = exec en h (map (Answer n 0) rs') (w1, ts[n := adding i cs M] @ [])"
    unfolding rs list.map using Cons.prems(2,3) s
    by (intro exec_answer [of n ts _ "\<lambda>_ r. case r of Value v \<Rightarrow> Put (add_to i [c]) (adding i cs M) | _ \<Rightarrow> adding i cs M"])
       (simp_all add: adding_Cons)
  also have "\<dots> = Some (add_to i (taken cs rs') w1, ts[n := adding i cs M, n := adding i [] M])"
    using Cons.IH [OF rs(2), of "ts[n := adding i cs M]" w1] Cons.prems(2) by simp
  also have "add_to i (taken cs rs') w1 = add_to i (taken (c # cs) rs) w"
    by (cases r) (simp_all add: w1_def rs(1) add_to_simps)
  finally show ?case by simp
qed

text \<open>What answers an offer once the candidates are in.\<close>

definition answering :: "string \<Rightarrow> nat \<Rightarrow> ('z voice_scheme, unit) io" where
  "answering u i =
     bind (on_pc ''createAnswer'' i JNull) (\<lambda>answer.
     bind (on_pc ''setLocalDescription'' i answer) (\<lambda>_.
       upd (send_signal (signal ''answer'' u (opt_prop ''sdp'' (Some answer))))))"

lemma answering_waits: "waits (adding i [] (answering u i))"
  by (simp add: waits_def adding_def answering_def on_pc_def io_simps)

definition described :: "nat \<Rightarrow> json \<Rightarrow> 'z voice_scheme \<Rightarrow> 'z voice_scheme" where
  "described i d w = w\<lparr>pcs := update_at i (\<lambda>p. p\<lparr>pc_remote := Some d\<rparr>) (pcs w)\<rparr>"

text \<open>The program that waits for the offer \<open>d\<close> to be applied, and what it does then.\<close>

definition applying :: "string \<Rightarrow> nat \<Rightarrow> json \<Rightarrow> ('z voice_scheme, unit) io" where
  "applying u i d = Await [Platform ''setRemoteDescription'' (JArr [JNum (int i), d])]
     (\<lambda>_ r. case r of
        Value v \<Rightarrow> Put (described i d)
          (Get (\<lambda>w. case pending w u of
             None \<Rightarrow> adding i [] (answering u i)
           | Some buf \<Rightarrow> Put (\<lambda>w. w\<lparr>pending := (pending w)(u := None)\<rparr>) (adding i buf (answering u i))))
      | _ \<Rightarrow> skip)"

text \<open>A signaling frame of a kind, from a user.\<close>

definition signal_from :: "string \<Rightarrow> string \<Rightarrow> json \<Rightarrow> bool" where
  "signal_from t u j \<longleftrightarrow> get_prop ''type'' j = Some (Some (JStr t)) \<and> text_prop ''sender_user_id'' j = Some u"

lemma offer_arrives:
  fixes w :: "'z voice_scheme"
  assumes "signal_from ''offer'' u j" "map_of (peers w) u = None"
  shows "seg (voice_handler e refuses ch (SignalFrame k (Some j) now)) w =
    (makePeer u w, [], applying u (length (pcs w)) (description ''offer'' (opt_prop ''sdp'' (Some j))))"
proof -
  let ?i = "length (pcs w)" and ?d = "description ''offer'' (opt_prop ''sdp'' (Some j))"
  let ?m = "try_catch (bind (setRemoteDescription ?i ?d) (\<lambda>_.
      bind (flushCandidates u ?i) (\<lambda>_. answering u ?i))) (\<lambda>_. skip) :: ('z voice_scheme, unit) io"
  have "?m = applying u ?i ?d"
    by (simp add: applying_def adding_def setRemoteDescription_def flushCandidates_def on_pc_def described_def io_simps
        fun_eq_iff split: reply.split option.split)
  moreover have "seg (voice_handler e refuses ch (SignalFrame k (Some j) now)) w = seg ?m (makePeer u w)"
    using assms
    by (simp add: signal_from_def handleMessage_def handle_offer_def Let_def nullish_def answering_def)
  moreover have "seg (applying u ?i ?d) (makePeer u w) = (makePeer u w, [], applying u ?i ?d)"
    by (simp add: applying_def)
  ultimately show ?thesis by (simp only:)
qed

lemma offer_frame_from: "u \<noteq> [] \<Longrightarrow> signal_from ''offer'' u (offer_frame u s)"
  and offer_frame_sdp: "opt_prop ''sdp'' (Some (offer_frame u s)) = Some s"
  by (simp_all add: signal_from_def offer_frame_def text_prop_def str_field_def opt_prop_def)

lemma makePeer_new [simp]:
  "pending (makePeer u w) = pending w"
  "map_of (peers (makePeer u w)) u = Some (length (pcs w))"
  "pc_remote (pcs (makePeer u w) ! length (pcs w)) = None"
  "pc_candidates (pcs (makePeer u w) ! length (pcs w)) = []"
  by (simp_all add: makePeer_def update_conv')

lemma buffers_pending:
  "pending (buffers u cs w) u = (if cs = [] then pending w u else Some (nullish (pending w u) [] @ cs))"
  by (induction cs arbitrary: w) (simp_all add: buffers_def buffer_def nullish_def)

lemma seg_adding: "seg (adding i cs (answering u i)) w = (w, [], adding i cs (answering u i))"
  by (rule adding_waits [OF answering_waits, unfolded waits_def, rule_format])

text \<open>Answering the description: the candidates come off the buffer, to be added one by one.\<close>

lemma offer_applied:
  assumes "n < length ts" "ts ! n = applying u i d" "nullish (pending w u) [] = cs"
  shows "exec en h (Answer n 0 (Value v) # turns) (w, ts) =
    exec en h turns ((described i d w)\<lparr>pending := (pending w)(u := None)\<rparr>, ts[n := adding i cs (answering u i)])"
proof -
  have "seg (Put (described i d)
          (Get (\<lambda>w. case pending w u of
             None \<Rightarrow> adding i [] (answering u i)
           | Some buf \<Rightarrow> Put (\<lambda>w. w\<lparr>pending := (pending w)(u := None)\<rparr>) (adding i buf (answering u i))))) w =
      ((described i d w)\<lparr>pending := (pending w)(u := None)\<rparr>, [], adding i cs (answering u i))"
    using assms(3)
    by (cases "pending w u") (simp_all add: seg_adding described_def nullish_def fun_upd_idem)
  with assms(1,2) show ?thesis by (simp add: applying_def)
qed

text \<open>C28. The offer of a user may arrive between their candidates, and being applied takes time: the candidates
  from before the offer and from before its application are kept, and then added to the connection
  in the order of arrival; those it refuses are passed over. Nothing stays behind.\<close>

theorem candidates_in_order:
  fixes w :: voice
  assumes "u \<noteq> []" "in_state Open k (v_sockets w)" "map_of (peers w) u = None" "pending w u = None"
    and "length rs = length (cs @ ds)" "n = length ts + length cs"
  shows "\<exists>w' ts'. exec (voice_enabled name) (voice_handler e refuses ch)
      (frames_of k (map (cand_frame u) cs) @ frames_of k [offer_frame u s] @ frames_of k (map (cand_frame u) ds) @
       Answer n 0 (Value x) # map (Answer n 0) rs) (w, ts) = Some (w', ts') \<and>
    map_of (peers w') u = Some (length (pcs w)) \<and> pending w' u = None \<and>
    pc_candidates (pcs w' ! length (pcs w)) = taken (cs @ ds) rs \<and>
    pc_remote (pcs w' ! length (pcs w)) = Some (description ''offer'' (Some s))"
proof -
  let ?i = "length (pcs w)"
  let ?M = "answering u ?i" and ?d = "description ''offer'' (Some s)"
  define v where "v = makePeer u (buffers u cs w)"
  define v' where "v' = (described ?i ?d (buffers u ds v))\<lparr>pending := (pending (buffers u ds v))(u := None)\<rparr>"
  define us where "us = ts @ replicate (length cs) (Ret ()) @ [applying u ?i ?d]"
  have "exec (voice_enabled name) (voice_handler e refuses ch) (frames_of k [offer_frame u s])
      (buffers u cs w, ts @ replicate (length cs) (Ret ())) = Some (v, us)"
    using offer_arrives [OF offer_frame_from [OF assms(1)], of "buffers u cs w" e refuses ch k s 0] assms(2,3)
    by (simp add: frames_of_def v_def us_def offer_frame_sdp del: voice_handler.simps)
  note to_offer = exec_then [OF buffered [OF assms(1,2) undescribed_new [OF assms(3)]] this]
  have "in_state Open k (v_sockets v)" "undescribed u v"
    using assms(2) makePeer_new(3) [of u "buffers u cs w"] by (simp_all add: v_def undescribed_def)
  note to_all = exec_then [OF to_offer buffered [OF assms(1) this, where cs = ds]]
  have buf: "nullish (pending (buffers u ds v) u) [] = cs @ ds"
    using assms(4) by (simp add: v_def buffers_pending nullish_def)
  define vs where "vs = us @ replicate (length ds) (Ret ())"
  have n: "n < length vs" "vs ! n = applying u ?i ?d"
    by (simp_all add: vs_def us_def assms(6) nth_append)
  have "exec (voice_enabled name) (voice_handler e refuses ch) (Answer n 0 (Value x) # map (Answer n 0) rs) (buffers u ds v, vs) =
      Some (add_to ?i (taken (cs @ ds) rs) v', vs[n := adding ?i [] ?M])"
    unfolding offer_applied [OF n buf] v'_def [symmetric]
    by (subst added [OF assms(5) _ _ answering_waits]) (simp_all add: n(1))
  note run = exec_then [OF to_all [folded vs_def] this]
  have i: "?i < length (pcs (buffers u ds v))" "length (pcs (buffers u cs w)) = ?i"
    by (simp_all add: v_def)
  have "map_of (peers v') u = Some ?i" "pending v' u = None"
    "pc_candidates (pcs v' ! ?i) = []" "pc_remote (pcs v' ! ?i) = Some (description ''offer'' (Some s))" "?i < length (pcs v')"
    using makePeer_new(2,4) [of u "buffers u cs w"] i by (simp_all add: v'_def described_def v_def)
  then have "map_of (peers (add_to ?i (taken (cs @ ds) rs) v')) u = Some ?i \<and>
      pending (add_to ?i (taken (cs @ ds) rs) v') u = None \<and>
      pc_candidates (pcs (add_to ?i (taken (cs @ ds) rs) v') ! ?i) = taken (cs @ ds) rs \<and>
      pc_remote (pcs (add_to ?i (taken (cs @ ds) rs) v') ! ?i) = Some (description ''offer'' (Some s))"
    by (simp add: add_to_def)
  with run show ?thesis by (simp del: exec.simps)
qed

theorem candidates_in_order_witness:
  "\<exists>w' ts'. exec (voice_enabled []) (voice_handler call_env (\<lambda>_. False) ''c'')
      (frames_of 0 [cand_frame ''bob'' (JNum 1)] @ frames_of 0 [offer_frame ''bob'' (JStr ''o'')] @
       frames_of 0 [cand_frame ''bob'' (JNum 2), cand_frame ''bob'' (JNum 3)] @
       [Answer 1 0 (Value JNull), Answer 1 0 (Value JNull), Answer 1 0 Rejected, Answer 1 0 (Value JNull)])
      (demo_call\<lparr>v_sockets := [(v_sockets demo_call ! 0)\<lparr>ready := Open\<rparr>]\<rparr>, []) = Some (w', ts') \<and>
    pc_candidates (pcs w' ! 0) = [JNum 1, JNum 3]"
proof -
  let ?w = "demo_call\<lparr>v_sockets := [(v_sockets demo_call ! 0)\<lparr>ready := Open\<rparr>]\<rparr>"
  have d: "pcs demo_call = []" "peers demo_call = []" "pending demo_call = Map.empty"
    by (simp_all add: demo_call_def entered_def with_mic_def asked_def demo_voice_def voice_init_def)
  have "in_state Open 0 (v_sockets ?w)" "map_of (peers ?w) ''bob'' = None" "pending ?w ''bob'' = None" "''bob'' \<noteq> []"
    by (simp_all add: d in_state_def)
  from candidates_in_order [OF this(4,1,2,3), of "[Value JNull, Rejected, Value JNull]" "[JNum 1]" "[JNum 2, JNum 3]" 1 "[]"
      "[]" call_env "\<lambda>_. False" "''c''" "JStr ''o''" JNull]
  show ?thesis by (auto simp: d simp del: exec.simps)
qed

section \<open>The end of a call\<close>

text \<open>No microphone, no connection to the server, no peer.\<close>

definition silent :: "'z voice_scheme \<Rightarrow> bool" where
  "silent w \<longleftrightarrow>
     (\<forall>j<length (mics w). \<not> mics w ! j) \<and> (\<forall>k<length (v_sockets w). \<not> live (v_sockets w ! k)) \<and> peers w = []"

lemma silent_changes [simp]:
  "silent (w\<lparr>v_joined := b\<rparr>) = silent w" "silent (w\<lparr>participants := ps\<rparr>) = silent w"
  "silent (w\<lparr>v_leaving := b\<rparr>) = silent w"
  by (simp_all add: silent_def)

lemma cleanup_silent:
  assumes "tidy_call w"
  shows "silent (cleanup_call w)"
proof -
  have "calm w ((cleanup_call w)\<lparr>v_joined := False\<rparr>)" by (rule cleanup_tidy [OF assms]) simp
  then have "tidy_call ((cleanup_call w)\<lparr>v_joined := False\<rparr>)" by (simp add: calm_def)
  then show ?thesis by (simp add: tidy_outside silent_def)
qed

lemma close_all_length [simp]: "length (fold (\<lambda>(u, i). update_at i close_pc) ps xs) = length xs"
  by (induction ps arbitrary: xs) (simp_all add: split_def)

lemma close_all:
  "i < length xs \<Longrightarrow> (u, i) \<in> set ps \<or> pc_closed (xs ! i) \<Longrightarrow>
     pc_closed (fold (\<lambda>(u, i). update_at i close_pc) ps xs ! i)"
  by (induction ps arbitrary: xs) (auto simp: close_pc_def)

lemma cleanup_closes:
  "(u, i) \<in> set (peers w) \<Longrightarrow> i < length (pcs w) \<Longrightarrow> pc_closed (pcs (cleanup_call w) ! i)"
  using close_all [of i "pcs w" u "peers w"] by (simp add: cleanup_call_def stop_mic_def)

lemma in_call:
  assumes "tidy_call w" "v_life w = Mounted" "v_joined w"
  shows "joinedRef w" "\<not> v_joining w"
proof -
  show "joinedRef w" using assms by (simp add: tidy_call_iff)
  then show "\<not> v_joining w" using joining_outside [OF assms(1)] by blast
qed

text \<open>The request that tells the server, and the program that waits for its answer.\<close>

definition leaving :: "env \<Rightarrow> string \<Rightarrow> voice \<Rightarrow> (voice, unit) io" where
  "leaving e ch w = Await [HttpFetch (api_request e (voice_path ch ''leave'') post_init (first_headers e post_init w))]
     (\<lambda>_ x. bind (try_catch (bind (api_answer e (voice_path ch ''leave'') post_init w x) (\<lambda>_. skip)) (\<lambda>_. skip))
        (\<lambda>_. Throw Detached))"

definition hung_up :: "voice \<Rightarrow> voice" where
  "hung_up w = (cleanup_call (w\<lparr>v_leaving := True\<rparr>))\<lparr>v_joined := False, participants := [], v_leaving := False\<rparr>"

lemma left:
  assumes "v_life w = Mounted" "v_joined w" "\<not> v_leaving w"
  shows "exec (voice_enabled name) (voice_handler e refuses ch) [Event Leave] (w, ts) =
    Some (hung_up w, ts @ [leaving e ch (w\<lparr>v_leaving := True\<rparr>), Ret ()])"
proof -
  have en: "voice_enabled name Leave w" using assms by (simp add: voice_view_def)
  have s: "seg (voice_handler e refuses ch Leave) w = (hung_up w, [leaving e ch (w\<lparr>v_leaving := True\<rparr>)], Ret ())"
    by (simp add: handleLeave_def doCleanup_def leaving_def apiFetch_waits upd_def hung_up_def)
  show ?thesis
    by (subst exec_event [of "voice_enabled name" Leave w "voice_handler e refuses ch", OF en s]) simp
qed

lemma demo_call_state:
  "v_life demo_call = Mounted" "v_joined demo_call" "\<not> v_leaving demo_call"
  by (simp_all add: demo_call_def entered_def with_mic_def asked_def demo_voice_def voice_init_def)

text \<open>C29. Leaving, whatever the server answers: the request is sent, the connections to all peers are closed,
  microphone and socket are given up at once, and the page offers to join again.\<close>

theorem leave_ends_call:
  assumes "reachable (voice_enabled name) (voice_handler e refuses ch) (voice_init b) (w, ts)"
    and "v_life w = Mounted" "v_joined w" "\<not> v_leaving w"
  shows "\<exists>w'. exec (voice_enabled name) (voice_handler e refuses ch) [Event Leave] (w, ts) =
      Some (w', ts @ [leaving e ch (w\<lparr>v_leaving := True\<rparr>), Ret ()]) \<and>
    idle w' \<and> silent w' \<and> participants w' = [] \<and>
    (\<forall>(u, i)\<in>set (peers w). i < length (pcs w) \<longrightarrow> pc_closed (pcs w' ! i))"
proof -
  have t: "tidy_call w" by (rule voice_call.invariant [OF assms(1)])
  then have t': "tidy_call (w\<lparr>v_leaving := True\<rparr>)" using tidy_call_seen [of "w\<lparr>v_leaving := True\<rparr>" w] by simp
  have "idle (hung_up w)" "silent (hung_up w)"
    using assms(2) in_call [OF t assms(2,3)] cleanup_silent [OF t'] by (simp_all add: idle_def hung_up_def)
  moreover have "\<forall>(u, i)\<in>set (peers w). i < length (pcs w) \<longrightarrow> pc_closed (pcs (hung_up w) ! i)"
    using cleanup_closes [of _ _ "w\<lparr>v_leaving := True\<rparr>"] by (auto simp: hung_up_def)
  moreover have "participants (hung_up w) = []" by (simp add: hung_up_def)
  ultimately show ?thesis using left [OF assms(2-4)] by blast
qed

theorem leave_ends_call_witness:
  "\<exists>w'. exec (voice_enabled []) (voice_handler call_env (\<lambda>_. False) ''c'') [Event Leave] (demo_call, [Ret (), Ret ()]) =
      Some (w', [Ret (), Ret (), leaving call_env ''c'' (demo_call\<lparr>v_leaving := True\<rparr>), Ret ()]) \<and> idle w' \<and> silent w'"
proof -
  from leave_ends_call [OF exec_reachable_init [OF demo_called] demo_call_state, of "[]"]
  show ?thesis by (auto simp del: exec.simps)
qed

text \<open>The socket of a call that was left goes on closing. When its close event comes after the user has
  joined again, it ends the new call: microphone off, new socket closed, the page out of the call,
  and no request to leave is sent, so the others in the channel are not told.\<close>

theorem stale_close_ends_call:
  assumes "reachable (voice_enabled name) (voice_handler e refuses ch) (voice_init b) (w, ts)"
    and "v_life w = Mounted" "v_joined w" "v_wsRef w = Some k" "old \<noteq> k" "in_state Closing old (v_sockets w)"
  shows "\<exists>w'. exec (voice_enabled name) (voice_handler e refuses ch) [Event (SignalClosed old)] (w, ts) =
      Some (w', ts @ [Ret ()]) \<and> idle w' \<and> silent w'"
proof -
  define v where "v = w\<lparr>v_sockets := update_at old (\<lambda>s. s\<lparr>ready := Closed\<rparr>) (v_sockets w)\<rparr>"
  have t: "tidy_call w" by (rule voice_call.invariant [OF assms(1)])
  have "calm w v"
    unfolding v_def by (rule calm_change [OF t]) (auto simp: live_def split: if_splits)
  then have "silent (cleanup_call v)" by (intro cleanup_silent) (simp add: calm_def)
  moreover note j = in_call [OF t assms(2,3)]
  let ?w = "(cleanup_call v)\<lparr>v_joined := False, participants := []\<rparr>"
  have en: "voice_enabled name (SignalClosed old) w" using assms(6) by (simp add: in_state_def)
  have s: "seg (voice_handler e refuses ch (SignalClosed old)) w = (?w, [], Ret ())"
    using j by (simp add: signal_closed_def v_def doCleanup_def upd_def)
  have "exec (voice_enabled name) (voice_handler e refuses ch) [Event (SignalClosed old)] (w, ts) = Some (?w, ts @ [Ret ()])"
    by (subst exec_event [of "voice_enabled name" _ w "voice_handler e refuses ch", OF en s]) simp
  moreover have "idle ?w" using assms(2) j by (simp add: idle_def v_def)
  ultimately show ?thesis by (intro exI [of _ ?w]) simp
qed

lemma storage_cleanup [simp]: "storage (cleanup_call w) = storage w"
  by (simp add: cleanup_call_def stop_mic_def)

lemma admitted_storage: "storage w' = storage w \<Longrightarrow> admitted_to e refuses ch w' = admitted_to e refuses ch w"
  using getWebSocketUrl_storage [of w' w e "voice_path ch ''signal''"]
  by (simp add: admitted_to_def signal_url_def getItem_def)

definition demo_again :: voice where
  "demo_again = entered call_env ''c'' ''me'' [\<lparr>p_user = ''ann'', joined_at = ''t''\<rparr>] (with_mic (asked (hung_up demo_call)))"

lemma called_again:
  "exec (voice_enabled []) (voice_handler call_env (\<lambda>_. False) ''c'')
     ((Event VoiceMount # mic_turns 1 yes_me JNull @ list_turns 1 who_is_there) @
      [Event Leave] @ mic_turns 4 yes_me JNull @ list_turns 4 who_is_there)
     (voice_init \<lparr>storage = [''access_token'' \<mapsto> ''t''], hrefs = []\<rparr>, []) =
   Some (demo_again, [Ret (), Ret (), leaving call_env ''c'' (demo_call\<lparr>v_leaving := True\<rparr>), Ret (), Ret ()])"
proof (rule exec_then [OF demo_called], rule exec_then [OF left [OF demo_call_state]])
  have "storage (hung_up demo_call) = storage demo_voice"
    by (simp add: hung_up_def demo_call_def entered_def with_mic_def asked_def)
  then have "admitted_to call_env (\<lambda>_. False) ''c'' (hung_up demo_call)"
    using demo_facts(4) admitted_storage by blast
  moreover have "idle (hung_up demo_call)"
    using demo_call_state by (simp add: hung_up_def idle_def demo_call_def entered_def with_mic_def)
  ultimately show "exec (voice_enabled []) (voice_handler call_env (\<lambda>_. False) ''c'')
      (mic_turns 4 yes_me JNull @ list_turns 4 who_is_there)
      (hung_up demo_call, [Ret (), Ret ()] @ [leaving call_env ''c'' (demo_call\<lparr>v_leaving := True\<rparr>), Ret ()]) =
    Some (demo_again, [Ret (), Ret (), leaving call_env ''c'' (demo_call\<lparr>v_leaving := True\<rparr>), Ret (), Ret ()])"
    using joined [OF _ demo_facts(2,3), where ts = "[Ret (), Ret (), leaving call_env ''c'' (demo_call\<lparr>v_leaving := True\<rparr>), Ret ()]"
        and w = "hung_up demo_call" and v = JNull, unfolded list.size append.simps]
    by (simp add: demo_again_def numeral_eq_Suc del: exec.simps)
qed

theorem stale_close_ends_call_witness:
  "\<exists>w' ts'. exec (voice_enabled []) (voice_handler call_env (\<lambda>_. False) ''c'') [Event (SignalClosed 0)]
      (demo_again, [Ret (), Ret (), leaving call_env ''c'' (demo_call\<lparr>v_leaving := True\<rparr>), Ret (), Ret ()]) = Some (w', ts') \<and>
    idle w' \<and> silent w'"
proof -
  have "v_life demo_again = Mounted" "v_joined demo_again" "v_wsRef demo_again = Some 1" "in_state Closing 0 (v_sockets demo_again)"
    by (simp_all add: demo_again_def demo_call_def entered_def with_mic_def asked_def demo_voice_def voice_init_def
        hung_up_def close_ref_def close_ws_def in_state_def update_at_def)
  from stale_close_ends_call [OF exec_reachable_init [OF called_again] this(1-3) _ this(4)]
  show ?thesis by (auto simp del: exec.simps)
qed

text \<open>C31. Only a call that is entered is ended by leaving the page. When the page goes while the list of participants
  is awaited, joining goes on: there is a live microphone and a live socket, and nothing that
  the user could do on the page would give them up.\<close>

theorem join_outlives_page:
  assumes "idle w" "accepted r me" "listed r' ps" "admitted_to e refuses ch w" "\<not> joinedRef w"
  shows "\<exists>w'. exec (voice_enabled name) (voice_handler e refuses ch)
      (mic_turns (length ts) r v @ [Event VoiceUnmount] @ list_turns (length ts) r') (w, ts) = Some (w', ts @ [Ret (), Ret ()]) \<and>
    v_life w' = Gone \<and> joinedRef w' \<and> mics w' = mics w @ [True] \<and>
    (\<exists>k<length (v_sockets w'). v_wsRef w' = Some k \<and> live (v_sockets w' ! k)) \<and>
    \<not> voice_enabled name Leave w' \<and> \<not> voice_enabled name VoiceUnmount w'"
proof -
  define m where "m = with_mic (asked w)"
  define l where "l = listing e refuses ch me m"
  have m: "v_life m = Mounted" "\<not> joinedRef m" "storage m = storage w" "mics m = mics w @ [True]"
    using assms(1,5) by (simp_all add: m_def with_mic_def asked_def idle_def)
  have s: "seg (voice_handler e refuses ch VoiceUnmount) m = (m\<lparr>v_life := Gone\<rparr>, [], Ret ())"
    using m(2) by (simp add: skip_def)
  have "exec (voice_enabled name) (voice_handler e refuses ch) [Event VoiceUnmount] (m, ts @ [l]) =
      Some (m\<lparr>v_life := Gone\<rparr>, ts @ [l, Ret ()])"
    using m(1) by (subst exec_event [of "voice_enabled name" _ m "voice_handler e refuses ch", OF _ s]) simp_all
  moreover have "exec (voice_enabled name) (voice_handler e refuses ch) (list_turns (length ts) r')
      (m\<lparr>v_life := Gone\<rparr>, ts @ [l, Ret ()]) = Some (entered e ch me ps (m\<lparr>v_life := Gone\<rparr>), ts @ [Ret (), Ret ()])"
    using call_reached [of "length ts" "ts @ [l, Ret ()]" e refuses ch me m r' ps "m\<lparr>v_life := Gone\<rparr>" name] assms(3,4)
    by (simp add: l_def admitted_storage [of "m\<lparr>v_life := Gone\<rparr>" w] m(3) del: exec.simps)
  ultimately have "exec (voice_enabled name) (voice_handler e refuses ch)
      ([Event VoiceUnmount] @ list_turns (length ts) r') (m, ts @ [l]) =
    Some (entered e ch me ps (m\<lparr>v_life := Gone\<rparr>), ts @ [Ret (), Ret ()])" by (rule exec_then)
  note exec_then [OF mic_reached [OF assms(1,2)] this [unfolded m_def l_def]]
  then show ?thesis using m(4) by (simp add: m_def entered_def live_def del: exec.simps)
qed

theorem join_outlives_page_witness:
  "\<exists>w'. exec (voice_enabled []) (voice_handler call_env (\<lambda>_. False) ''c'')
      (mic_turns 0 yes_me JNull @ [Event VoiceUnmount] @ list_turns 0 who_is_there) (demo_voice, []) = Some (w', [Ret (), Ret ()]) \<and>
    v_life w' = Gone \<and> mics w' = [True]"
proof -
  have "\<not> joinedRef demo_voice" "mics demo_voice = []" by (simp_all add: demo_voice_def voice_init_def)
  with join_outlives_page [OF demo_facts this(1), where ts = "[]" and v = JNull and name = "[]" and ch = "''c''"] show ?thesis by (auto simp del: exec.simps)
qed

end
