(* ===== verification/Handshake.thy ===== *)
theory Handshake
  imports VoiceCalls
begin

text \<open>
  Two voice views and the service between them: the offer of a newcomer, its answer, and the
  candidates, each relayed to the user it names (\<open>services/voice/signaling.py\<close>, the loop of
  \<open>signaling_endpoint\<close>).
\<close>

section \<open>The relay\<close>

text \<open>\<open>message["k"] = v\<close> on a decoded object: the key keeps its place, or comes last.\<close>

definition relay :: "string \<Rightarrow> json \<Rightarrow> (string \<times> json) option" where
  "relay user_id message =
     (case (message, text_prop ''target_user_id'' message) of
        (JObj fs, Some target) \<Rightarrow> Some (target, JObj (AList.update ''sender_user_id'' (JStr user_id) fs))
      | _ \<Rightarrow> None)"

lemma sender_kept: "k \<noteq> ''sender_user_id'' \<Longrightarrow>
  get_prop k (JObj (AList.update ''sender_user_id'' v fs)) = get_prop k (JObj fs)"
  by (simp add: update_conv')

text \<open>What a signal has become when it arrives.\<close>

lemma relayed_signal:
  assumes "target \<noteq> []" "u \<noteq> []" "relay u (signal t target s) = Some (to, j)"
  shows "to = target" "signal_from t u j" "opt_prop ''sdp'' (Some j) = s"
proof -
  have r: "relay u (signal t target s) = Some (target, JObj (AList.update ''sender_user_id'' (JStr u)
      ([(''type'', JStr t), (''target_user_id'', JStr target)] @ sdp_field s)))"
    using assms(1) by (simp add: relay_def signal_def text_prop_def str_field_def)
  with assms(3) have j: "j = JObj (AList.update ''sender_user_id'' (JStr u)
      ([(''type'', JStr t), (''target_user_id'', JStr target)] @ sdp_field s))" by auto
  from r assms(3) show "to = target" by simp
  show "signal_from t u j"
    using assms(2) unfolding j signal_from_def text_prop_def str_field_def sender_kept [of "''type''", simplified]
    by (simp add: update_conv')
  show "opt_prop ''sdp'' (Some j) = s"
    by (cases s) (simp_all add: j opt_prop_def update_conv' sdp_field_def)
qed

lemma relay_signal: "target \<noteq> [] \<Longrightarrow> \<exists>j. relay u (signal t target s) = Some (target, j)"
  by (simp add: relay_def signal_def text_prop_def str_field_def)

section \<open>The steps of each side\<close>

lemma sent_last:
  assumes "v_wsRef w = Some k" "in_state Open k (v_sockets w)"
  shows "last (sent (v_sockets (send_signal j w) ! k)) = j"
  using assms by (simp add: send_signal_def in_state_def send_ws_def)

lemma send_signal_open [simp]:
  "v_wsRef (send_signal j w) = v_wsRef w" "in_state Open k (v_sockets (send_signal j w)) = in_state Open k (v_sockets w)"
  "pending (send_signal j w) = pending w" "localStream (send_signal j w) = localStream w"
  by (auto simp: send_signal_def in_state_def split: option.split if_splits)

lemma described_fields [simp]:
  "v_wsRef (described i d w) = v_wsRef w" "v_sockets (described i d w) = v_sockets w" "peers (described i d w) = peers w"
  "i < length (pcs w) \<Longrightarrow> pcs (described i d w) ! i = (pcs w ! i)\<lparr>pc_remote := Some d\<rparr>"
  by (simp_all add: described_def)

text \<open>The one who was there: the offer is applied, answered, and the answer sent.\<close>

lemma offer_answered:
  assumes "n < length ts" "ts ! n = adding i [] (answering u i)"
  shows "exec en h (Answer n 0 (Value a) # Answer n 0 (Value x) # turns) (w, ts) =
    exec en h turns (send_signal (signal ''answer'' u (opt_prop ''sdp'' (Some a))) w, ts[n := Ret ()])"
  using assms by (simp add: adding_def answering_def on_pc_def io_simps skip_def)

text \<open>The newcomer: the answer is applied.\<close>

lemma answer_applied:
  assumes "signal_from ''answer'' u j" "in_state Open k (v_sockets w)" "map_of (peers w) u = Some i" "pending w u = None"
  shows "exec (voice_enabled name) (voice_handler e refuses ch)
      [Event (SignalFrame k (Some j) now), Answer (length ts) 0 (Value x)] (w, ts) =
    Some (described i (description ''answer'' (opt_prop ''sdp'' (Some j))) w, ts @ [Ret ()])"
  using assms
  by (simp add: signal_from_def handleMessage_def handle_answer_def setRemoteDescription_def flushCandidates_def on_pc_def
      io_simps described_def)

text \<open>A candidate of the other side: taken by a connection that has the description, or kept for it.\<close>

lemma candidate_taken:
  assumes "signal_from ''ice-candidate'' u j" "opt_prop ''candidate'' (Some j) = Some c" "in_state Open k (v_sockets w)"
  shows "if undescribed u w
     then exec (voice_enabled name) (voice_handler e refuses ch) [Event (SignalFrame k (Some j) now)] (w, ts) =
       Some (buffer u c w, ts @ [Ret ()])
     else exec (voice_enabled name) (voice_handler e refuses ch)
         [Event (SignalFrame k (Some j) now), Answer (length ts) 0 (Value x)] (w, ts) =
       Some (add_to (the (map_of (peers w) u)) [c] w, ts @ [Ret ()])"
proof -
  have m: "handleMessage (Some j) now = (addRemoteCandidate u c :: ('a voice_scheme, unit) io)"
    using assms(1,2) by (simp add: signal_from_def handleMessage_def nullish_def)
  show ?thesis
    using assms(3) by (cases "map_of (peers w) u")
      (simp_all add: m undescribed_def addRemoteCandidate_def addIceCandidate_def on_pc_def io_simps upd_def add_to_def)
qed

section \<open>The contract of the relay\<close>

text \<open>
  What the views rely on: a signal reaches the user it names, as a signal of its kind, from its
  sender, with the description it carried.
\<close>

locale signaling =
  fixes deliver :: "string \<Rightarrow> json \<Rightarrow> (string \<times> json) option"
  assumes delivers: "target \<noteq> [] \<Longrightarrow> u \<noteq> [] \<Longrightarrow>
    \<exists>j. deliver u (signal t target s) = Some (target, j) \<and> signal_from t u j \<and> opt_prop ''sdp'' (Some j) = s"
    and delivers_candidate: "target \<noteq> [] \<Longrightarrow> u \<noteq> [] \<Longrightarrow>
    \<exists>j. deliver u (candidate_signal target c) = Some (target, j) \<and> signal_from ''ice-candidate'' u j \<and>
      opt_prop ''candidate'' (Some j) = Some c"
begin

lemma handshake:
  fixes a b :: voice
  assumes "v_wsRef a = Some ka" "in_state Open ka (v_sockets a)" "map_of (peers a) bob = Some i" "i < length (pcs a)"
    and "pending a bob = None" "na < length tas" "tas ! na = send_offer bob i"
    and "v_wsRef b = Some kb" "in_state Open kb (v_sockets b)" "map_of (peers b) ann = None" "pending b ann = None"
    and "ann \<noteq> []" "bob \<noteq> []"
  shows "\<exists>a' f b' g a''.
    exec (voice_enabled name) (voice_handler e refuses ch) [Answer na 0 (Value offer), Answer na 0 (Value xo)] (a, tas) =
      Some (a', tas[na := Ret ()]) \<and>
    deliver ann (last (sent (v_sockets a' ! ka))) = Some (bob, f) \<and>
    exec (voice_enabled name) (voice_handler e refuses ch)
      (Event (SignalFrame kb (Some f) now) # map (Answer (length tbs) 0) [Value xr, Value answer, Value xl]) (b, tbs) =
      Some (b', tbs @ [Ret ()]) \<and>
    deliver bob (last (sent (v_sockets b' ! kb))) = Some (ann, g) \<and>
    exec (voice_enabled name) (voice_handler e refuses ch)
      [Event (SignalFrame ka (Some g) later), Answer (length tas) 0 (Value xa)] (a', tas[na := Ret ()]) =
      Some (a'', tas[na := Ret ()] @ [Ret ()]) \<and>
    pc_remote (pcs a'' ! i) = Some (description ''answer'' (opt_prop ''sdp'' (Some answer))) \<and>
    (\<exists>l. map_of (peers b') ann = Some l \<and> pc_tracks (pcs b' ! l) = localStream b \<and>
      pc_remote (pcs b' ! l) = Some (description ''offer'' (opt_prop ''sdp'' (Some offer))))"
proof -
  let ?o = "opt_prop ''sdp'' (Some offer)" and ?r = "opt_prop ''sdp'' (Some answer)"
  define a1 where "a1 = send_signal (signal ''offer'' bob ?o) a"
  from delivers [OF assms(13,12)] obtain f where f: "deliver ann (signal ''offer'' bob ?o) = Some (bob, f)"
    and f': "signal_from ''offer'' ann f" "opt_prop ''sdp'' (Some f) = ?o" by blast
  define l where "l = length (pcs b)"
  define b1 where "b1 = (described l (description ''offer'' ?o) (makePeer ann b))
    \<lparr>pending := (pending (makePeer ann b))(ann := None)\<rparr>"
  define b2 where "b2 = send_signal (signal ''answer'' ann ?r) b1"
  from delivers [OF assms(12,13)] obtain g where g: "deliver bob (signal ''answer'' ann ?r) = Some (ann, g)"
    and g': "signal_from ''answer'' bob g" "opt_prop ''sdp'' (Some g) = ?r" by blast
  have A: "exec (voice_enabled name) (voice_handler e refuses ch) [Answer na 0 (Value offer), Answer na 0 (Value xo)] (a, tas) =
      Some (a1, tas[na := Ret ()])"
    unfolding offer_sent [OF assms(6,7)] by (simp add: a1_def)
  have B: "exec (voice_enabled name) (voice_handler e refuses ch)
      (Event (SignalFrame kb (Some f) now) # map (Answer (length tbs) 0) [Value xr, Value answer, Value xl]) (b, tbs) =
      Some (b2, tbs @ [Ret ()])"
  proof -
    note s = offer_arrives [OF f'(1) assms(10), of e refuses ch kb now, unfolded f'(2), folded l_def]
    have "pending (makePeer ann b) ann = None" using assms(11) by simp
    then show ?thesis
      using assms(9) by (subst exec_event [of "voice_enabled name" _ b "voice_handler e refuses ch", OF _ s], simp)
        (simp add: offer_applied [where cs = "[]"] offer_answered nullish_def b1_def b2_def del: exec.simps; simp)
  qed
  have C: "exec (voice_enabled name) (voice_handler e refuses ch)
      [Event (SignalFrame ka (Some g) later), Answer (length tas) 0 (Value xa)] (a1, tas[na := Ret ()]) =
      Some (described i (description ''answer'' ?r) a1, tas[na := Ret ()] @ [Ret ()])"
    using answer_applied [OF g'(1), of ka a1 i name e refuses ch later "tas[na := Ret ()]" xa] assms(2,3,5)
    by (simp add: g'(2) a1_def del: exec.simps)
  have lasts: "last (sent (v_sockets a1 ! ka)) = signal ''offer'' bob ?o" "last (sent (v_sockets b2 ! kb)) = signal ''answer'' ann ?r"
    unfolding a1_def b2_def using assms(1,2,8,9) by (simp_all add: sent_last b1_def)
  have "pc_remote (pcs (described i (description ''answer'' ?r) a1) ! i) = Some (description ''answer'' ?r)"
    using assms(4) by (simp add: a1_def)
  moreover have "map_of (peers b2) ann = Some l \<and> pc_tracks (pcs b2 ! l) = localStream b \<and>
      pc_remote (pcs b2 ! l) = Some (description ''offer'' ?o)"
    by (simp add: b2_def b1_def l_def) (simp add: makePeer_def)
  ultimately show ?thesis using A B C f g lasts by metis
qed

lemma candidate:
  fixes a b :: voice
  assumes "v_wsRef a = Some ka" "in_state Open ka (v_sockets a)" "pc_live i a" "pc_user (pcs a ! i) = bob"
    and "in_state Open kb (v_sockets b)" "ann \<noteq> []" "bob \<noteq> []"
  shows "\<exists>a' f.
    exec (voice_enabled name) (voice_handler e refuses ch) [Event (LocalCandidate i (Some c))] (a, tas) = Some (a', tas @ [Ret ()]) \<and>
    deliver ann (last (sent (v_sockets a' ! ka))) = Some (bob, f) \<and>
    (if undescribed ann b
     then exec (voice_enabled name) (voice_handler e refuses ch) [Event (SignalFrame kb (Some f) now)] (b, tbs) =
       Some (buffer ann c b, tbs @ [Ret ()])
     else exec (voice_enabled name) (voice_handler e refuses ch)
         [Event (SignalFrame kb (Some f) now), Answer (length tbs) 0 (Value x)] (b, tbs) =
       Some (add_to (the (map_of (peers b) ann)) [c] b, tbs @ [Ret ()]))"
proof -
  define a1 where "a1 = send_signal (candidate_signal bob c) a"
  from delivers_candidate [OF assms(7,6)] obtain f where f: "deliver ann (candidate_signal bob c) = Some (bob, f)"
    "signal_from ''ice-candidate'' ann f" "opt_prop ''candidate'' (Some f) = Some c" by blast
  have "exec (voice_enabled name) (voice_handler e refuses ch) [Event (LocalCandidate i (Some c))] (a, tas) = Some (a1, tas @ [Ret ()])"
    using assms(1-4) by (simp add: upd_def local_candidate_def a1_def)
  moreover have "last (sent (v_sockets a1 ! ka)) = candidate_signal bob c"
    unfolding a1_def by (rule sent_last [OF assms(1,2)])
  moreover have "if undescribed ann b
     then exec (voice_enabled name) (voice_handler e refuses ch) [Event (SignalFrame kb (Some f) now)] (b, tbs) =
       Some (buffer ann c b, tbs @ [Ret ()])
     else exec (voice_enabled name) (voice_handler e refuses ch)
         [Event (SignalFrame kb (Some f) now), Answer (length tbs) 0 (Value x)] (b, tbs) =
       Some (add_to (the (map_of (peers b) ann)) [c] b, tbs @ [Ret ()])"
    by (rule candidate_taken [OF f(2,3) assms(5)])
  ultimately show ?thesis using f(1) by metis
qed

end

interpretation voice_service: signaling relay
proof
  fix target u t :: string and s :: "json option"
  assume a: "target \<noteq> []" "u \<noteq> []"
  then show "\<exists>j. relay u (signal t target s) = Some (target, j) \<and> signal_from t u j \<and> opt_prop ''sdp'' (Some j) = s"
    using relay_signal [OF a(1)] relayed_signal(2,3) [OF a] by metis
next
  fix target u :: string and c :: json
  assume "target \<noteq> []" "u \<noteq> []"
  then show "\<exists>j. relay u (candidate_signal target c) = Some (target, j) \<and> signal_from ''ice-candidate'' u j \<and>
      opt_prop ''candidate'' (Some j) = Some c"
    by (simp add: relay_def candidate_signal_def signal_from_def text_prop_def str_field_def opt_prop_def update_conv')
qed

section \<open>The handshake\<close>


definition open_call :: voice where
  "open_call = demo_call\<lparr>v_sockets := [(v_sockets demo_call ! 0)\<lparr>ready := Open\<rparr>]\<rparr>"

lemma open_call_fields:
  "v_wsRef open_call = Some 0" "in_state Open 0 (v_sockets open_call)" "peers open_call = []" "pcs open_call = []"
  "pending open_call = Map.empty" "localStream open_call = Some 0"
  by (simp_all add: open_call_def demo_call_def entered_def with_mic_def asked_def demo_voice_def voice_init_def in_state_def)


text \<open>C27. A candidate that the platform of one side finds for its connection reaches the other: over the open socket and the
  relay to the user of the connection, where it is added to the connection to the sender, or, while that
  has no description, kept for it.\<close>

theorem candidate_crosses:
  fixes a b :: voice
  assumes "v_wsRef a = Some ka" "in_state Open ka (v_sockets a)" "pc_live i a" "pc_user (pcs a ! i) = bob"
    and "in_state Open kb (v_sockets b)" "ann \<noteq> []" "bob \<noteq> []"
  shows "\<exists>a' f.
    exec (voice_enabled name) (voice_handler e refuses ch) [Event (LocalCandidate i (Some c))] (a, tas) = Some (a', tas @ [Ret ()]) \<and>
    relay ann (last (sent (v_sockets a' ! ka))) = Some (bob, f) \<and>
    (if undescribed ann b
     then exec (voice_enabled name) (voice_handler e refuses ch) [Event (SignalFrame kb (Some f) now)] (b, tbs) =
       Some (buffer ann c b, tbs @ [Ret ()])
     else exec (voice_enabled name) (voice_handler e refuses ch)
         [Event (SignalFrame kb (Some f) now), Answer (length tbs) 0 (Value x)] (b, tbs) =
       Some (add_to (the (map_of (peers b) ann)) [c] b, tbs @ [Ret ()]))"
  by (rule voice_service.candidate [OF assms])

theorem candidate_crosses_witness:
  "\<exists>a' f.
    exec (voice_enabled []) (voice_handler call_env (\<lambda>_. False) ''c'') [Event (LocalCandidate 0 (Some (JStr ''c1'')))]
      (makePeer ''bob'' open_call, []) = Some (a', [Ret ()]) \<and>
    relay ''ann'' (last (sent (v_sockets a' ! 0))) = Some (''bob'', f) \<and>
    exec (voice_enabled []) (voice_handler call_env (\<lambda>_. False) ''c'') [Event (SignalFrame 0 (Some f) 0)] (open_call, []) =
      Some (buffer ''ann'' (JStr ''c1'') open_call, [Ret ()])"
proof -
  have "v_wsRef (makePeer ''bob'' open_call) = Some 0" "in_state Open 0 (v_sockets (makePeer ''bob'' open_call))"
    "pc_live 0 (makePeer ''bob'' open_call)" "pc_user (pcs (makePeer ''bob'' open_call) ! 0) = ''bob''"
    using open_call_fields by (simp_all add: pc_live_def) (simp_all add: makePeer_def)
  from candidate_crosses [OF this open_call_fields(2), where ann = "''ann''" and name = "[]" and e = call_env and
      refuses = "\<lambda>_. False" and ch = "''c''" and c = "JStr ''c1''" and tas = "[]" and tbs = "[]" and now = 0]
  show ?thesis by (simp add: undescribed_def open_call_fields(3) del: exec.simps)
qed

end
