(* ===== verification/Composition.thy ===== *)
theory Composition
  imports Interference Browser
begin

text \<open>
  Several components on one page. Each keeps its own state and all share the browser: a
  handler of one is \<open>lift\<close>ed to the state of the page, where handlers of the others run between
  its stretches. The locale \<open>placed\<close> states when a component is at home on a page; what was
  proved of the component alone then holds on the page, whatever the others do.
\<close>

section \<open>A program on a part of the state\<close>

primrec lift :: "('s \<Rightarrow> 'w) \<Rightarrow> ('w \<Rightarrow> 's \<Rightarrow> 's) \<Rightarrow> ('w, 'a) io \<Rightarrow> ('s, 'a) io" where
  "lift get put (Ret x) = Ret x"
| "lift get put (Throw e) = Throw e"
| "lift get put (Get f) = Get (\<lambda>s. lift get put (f (get s)))"
| "lift get put (Put u m) = Put (\<lambda>s. put (u (get s)) s) (lift get put m)"
| "lift get put (Await cs k) = Await cs (\<lambda>i r. lift get put (k i r))"
| "lift get put (Spawn p m) = Spawn (lift get put p) (lift get put m)"

lemma lift_bind: "lift get put (bind m f) = bind (lift get put m) (\<lambda>x. lift get put (f x))"
  by (induction m arbitrary: f) simp_all

lemma suspended_lift [simp]: "suspended (lift get put t) = suspended t"
  by (cases t) simp_all

lemma frames_coarser:
  assumes "frames f m" "\<And>w w'. f w' = f w \<Longrightarrow> g w' = g w"
  shows "frames g m"
  using assms(1)
proof (induction m)
  case (Put u m)
  have "g (u w) = g w" for w by (rule assms(2)) (use Put.prems in simp)
  with Put show ?case by simp
qed simp_all

text \<open>What a program leaves alone joins what it keeps.\<close>

lemma wps_beside:
  assumes "\<And>w w'. f w' = f w \<Longrightarrow> A w \<Longrightarrow> A w'"
  shows "frames f m \<Longrightarrow> wps I Q m w \<Longrightarrow> A w \<Longrightarrow> wps (\<lambda>w. A w \<and> I w) (\<lambda>w. A w \<and> Q w) m w"
proof (induction m arbitrary: w Q)
  case (Put u m)
  then have "A (u w)" using assms [of "u w" w] by simp
  with Put show ?case by simp
next
  case (Spawn p m)
  have "wps (\<lambda>w. A w \<and> I w) (\<lambda>w. A w \<and> wps I Q m w) p w"
    using Spawn by simp
  then have "wps (\<lambda>w. A w \<and> I w) (wps (\<lambda>w. A w \<and> I w) (\<lambda>w. A w \<and> Q w) m) p w"
    by (rule wps_mono) (use Spawn in simp)
  then show ?case by simp
qed simp_all

section \<open>What a program may do to what it shares\<close>

text \<open>\<open>obeys R m\<close>: every update of \<open>m\<close> is one that \<open>R\<close> allows, in any state it may meet.\<close>

primrec obeys :: "('w \<Rightarrow> 'w \<Rightarrow> bool) \<Rightarrow> ('w, 'a) io \<Rightarrow> bool" where
  "obeys R (Ret x) = True"
| "obeys R (Throw e) = True"
| "obeys R (Get f) = (\<forall>w. obeys R (f w))"
| "obeys R (Put u m) = ((\<forall>w. R w (u w)) \<and> obeys R m)"
| "obeys R (Await cs k) = (\<forall>i r. obeys R (k i r))"
| "obeys R (Spawn p m) = (obeys R p \<and> obeys R m)"

lemma obeys_frames: "frames f m = obeys (\<lambda>w w'. f w' = f w) m"
  by (induction m) simp_all

lemma obeys_bind: "obeys R m \<Longrightarrow> (\<And>x. obeys R (f x)) \<Longrightarrow> obeys R (bind m f)"
  by (induction m arbitrary: f) auto

lemma obeys_try: "obeys R m \<Longrightarrow> (\<And>e. obeys R (h e)) \<Longrightarrow> obeys R (try_catch m h)"
  by (induction m) auto

lemma obeys_finally: "obeys R m \<Longrightarrow> (\<And>w. R w (u w)) \<Longrightarrow> obeys R (finally_do m u)"
  by (induction m) auto

lemma obeys_par_await:
  "(\<And>i r m'. obeys R m' \<Longrightarrow> obeys R (K i r m')) \<Longrightarrow> (\<And>i r. obeys R (D i r)) \<Longrightarrow> obeys R m \<Longrightarrow>
     obeys R (par_await cs K D m)"
  by (induction m) (auto simp: obeys_bind)

lemma obeys_par: "obeys R m1 \<Longrightarrow> obeys R m2 \<Longrightarrow> obeys R (par m1 m2)"
proof (induction m1 arbitrary: m2)
  case (Await cs k)
  have "obeys R (par_await cs (\<lambda>i r. par (k i r)) (\<lambda>i r. bind (k i r) (\<lambda>_. Throw Detached)) m2)"
    using Await by (intro obeys_par_await obeys_bind) simp_all
  then show ?case by simp
qed (simp_all add: detach_def obeys_bind)

lemma obeys_basic [simp, intro]:
  "obeys R (fetch q)" "obeys R (invoke op arg)" "obeys R (read_json r)" "obeys R (read_as d r)" "obeys R skip"
  by (simp_all add: io_simps split: reply.split option.split)

lemma obeys_upd [simp]: "obeys R (upd u) = (\<forall>w. R w (u w))"
  by (simp add: upd_def)

text \<open>What the allowed updates keep, the program keeps under every interleaving.\<close>

lemma wp_obeys:
  assumes "\<And>w w'. R w w' \<Longrightarrow> I w \<Longrightarrow> I w'"
  shows "obeys R m \<Longrightarrow> I w \<Longrightarrow> wp I m w"
proof (induction m arbitrary: w)
  case (Put u m)
  then have "obeys R m" "I (u w)" using assms by auto
  then show ?case using Put.IH by simp
next
  case (Spawn p m)
  then show ?case by (intro wp_spawn) simp_all
qed simp_all

section \<open>Getting and putting a part of the state\<close>

locale lens =
  fixes get :: "'s \<Rightarrow> 'w"
    and put :: "'w \<Rightarrow> 's \<Rightarrow> 's"
  assumes get_put [simp]: "get (put w s) = w"
    and put_get [simp]: "put (get s) s = s"
    and put_put [simp]: "put w (put w' s) = put w s"
begin

lemma seg_lift:
  "seg m (get s) = (w', ps, t) \<Longrightarrow>
     seg (lift get put m) s = (put w' s, map (lift get put) ps, lift get put t)"
proof (induction m arbitrary: s w' ps t)
  case (Spawn p m)
  from Spawn.prems obtain w1 ps1 p' ms where p: "seg p (get s) = (w1, ps1, p')"
    and m: "seg m w1 = (w', ms, t)" and ps: "ps = ps1 @ p' # ms"
    by (auto split: prod.splits)
  from Spawn.IH(1) [OF p] Spawn.IH(2) [of "put w1 s"] m ps show ?case by simp
next
  case (Put u m)
  from Put.IH [of "put (u (get s)) s"] Put.prems show ?case by simp
qed auto

lemma frames_lift: "frames (\<lambda>s. f (get s)) (lift get put m) = frames f m"
proof (induction m)
  case (Get g)
  have "(\<forall>s. frames f (g (get s))) = (\<forall>w. frames f (g w))" by (metis get_put)
  with Get show ?case by simp
next
  case (Put u m)
  have "(\<forall>s. f (u (get s)) = f (get s)) = (\<forall>w. f (u w) = f w)" by (metis get_put)
  with Put show ?case by simp
qed simp_all

lemma tail_frames_lift: "tail_frames f m \<Longrightarrow> tail_frames (\<lambda>s. f (get s)) (lift get put m)"
  by (induction m) (simp_all add: frames_lift)

lemma frames_beside: "(\<And>w s. f (put w s) = f s) \<Longrightarrow> frames f (lift get put m)"
  by (induction m) simp_all

lemma wps_lift: "wps I Q m (get s) \<Longrightarrow> wps (\<lambda>s. I (get s)) (\<lambda>s. Q (get s)) (lift get put m) s"
proof (induction m arbitrary: s Q)
  case (Spawn p m)
  have "wps (\<lambda>s. I (get s)) (\<lambda>s. wps I Q m (get s)) (lift get put p) s"
    using Spawn.IH(1) [of "\<lambda>w'. wps I Q m w'" s] Spawn.prems by simp
  then have "wps (\<lambda>s. I (get s)) (wps (\<lambda>s. I (get s)) (\<lambda>s. Q (get s)) (lift get put m)) (lift get put p) s"
    by (rule wps_mono) (rule Spawn.IH(2))
  then show ?case by simp
qed simp_all

lemma flight_lift: "flight B m (get s) \<Longrightarrow> flight (\<lambda>s. B (get s)) (lift get put m) s"
  by (induction m arbitrary: s) simp_all

lemma asserts_lift:
  "asserts Js E X m (get s) \<Longrightarrow>
     asserts ((\<lambda>J s. J (get s)) ` Js) (\<lambda>x s. E x (get s)) (\<lambda>s. X (get s)) (lift get put m) s"
proof (induction m arbitrary: s)
  case (Await cs k)
  from Await.prems obtain J where "J \<in> Js" "J (get s)" "\<And>i r w'. J w' \<Longrightarrow> asserts Js E X (k i r) w'"
    by auto
  with Await.IH show ?case by auto
qed simp_all

lemma obeys_lift:
  assumes "\<And>w s. R (get s) w \<Longrightarrow> R' s (put w s)"
  shows "obeys R m \<Longrightarrow> obeys R' (lift get put m)"
  by (induction m) (simp_all add: assms)

lemma after_lift: "after Q m (get s) \<Longrightarrow> after (\<lambda>s. Q (get s)) (lift get put m) s"
  using seg_lift [of m s] by (auto simp: after_def split: prod.splits)

end

section \<open>A component at home on a page\<close>

text \<open>
  The events of the component are among those of the page and possible there only when they are
  for the component alone; its handlers are lifted; and every other handler of the page leaves
  what is the component's own alone. \<open>own\<close> is the part of the component's state it does not
  share.
\<close>

locale placed = lens get put
  for get :: "'s \<Rightarrow> 'w"
    and put :: "'w \<Rightarrow> 's \<Rightarrow> 's" +
  fixes en_page :: "'p \<Rightarrow> 's \<Rightarrow> bool"
    and h_page :: "'p \<Rightarrow> ('s, unit) io"
    and s0 :: "'s"
    and en :: "'e \<Rightarrow> 'w \<Rightarrow> bool"
    and h :: "'e \<Rightarrow> ('w, unit) io"
    and w0 :: "'w"
    and own :: "'w \<Rightarrow> 'x"
    and inj :: "'e \<Rightarrow> 'p"
  assumes starts: "get s0 = w0"
    and fires: "en_page (inj e) s \<Longrightarrow> en e (get s)"
    and runs: "h_page (inj e) = lift get put (h e)"
    and beside: "(\<And>e. ev \<noteq> inj e) \<Longrightarrow> frames (\<lambda>s. own (get s)) (h_page ev)"
begin

lemma beside_of:
  assumes "\<And>w w'. own w' = own w \<Longrightarrow> f w' = f w" "\<And>e. ev \<noteq> inj e"
  shows "frames (\<lambda>s. f (get s)) (h_page ev)"
  by (rule frames_coarser [OF beside [OF assms(2)]]) (rule assms(1))

lemma keeps:
  assumes "component en h w0 I" "\<And>w w'. own w' = own w \<Longrightarrow> I w' = I w"
  shows "component en_page h_page s0 (\<lambda>s. I (get s))"
proof
  show "I (get s0)" using component.init [OF assms(1)] starts by simp
next
  fix s ev assume I: "I (get s)" and en: "en_page ev s"
  have c: "handlers en h I" using assms(1) by (rule component.axioms)
  show "wp (\<lambda>s. I (get s)) (h_page ev) s"
  proof (cases "\<exists>e. ev = inj e")
    case True
    then obtain e where e: "ev = inj e" by blast
    have "wp I (h e) (get s)" using I fires en e by (intro handlers.keeps [OF c]) auto
    then show ?thesis by (simp add: e runs wps_lift)
  next
    case False
    then have "frames (\<lambda>s. I (get s)) (h_page ev)" by (intro beside_of assms(2)) auto
    then show ?thesis by (rule wp_frames) (use I in simp_all)
  qed
qed

lemma guards:
  assumes "guarded_flight en h w0 busy" "\<And>w w'. own w' = own w \<Longrightarrow> busy w' = busy w"
  shows "guarded_flight en_page h_page s0 (\<lambda>s. busy (get s))"
proof
  show "\<not> busy (get s0)" using guarded_flight.idle [OF assms(1)] starts by simp
next
  fix ev s assume en: "en_page ev s"
  let ?B = "\<lambda>s. busy (get s)"
  show "frames ?B (h_page ev) \<or>
    (if busy (get s)
     then \<forall>s' ps t. seg (h_page ev) s = (s', ps, t) \<longrightarrow> busy (get s') \<and> \<not> suspended t \<and> ps = []
     else flight ?B (h_page ev) s)"
  proof (cases "\<exists>e. ev = inj e")
    case True
    then obtain e where e: "ev = inj e" by blast
    obtain w' qs u where s: "seg (h e) (get s) = (w', qs, u)" by (metis prod_cases3)
    show ?thesis
      using guarded_flight.each [OF assms(1) fires [OF en [unfolded e]]] seg_lift [OF s] s
      by (auto simp: e runs frames_lift flight_lift)
  next
    case False
    then show ?thesis by (intro disjI1 beside_of assms(2)) auto
  qed
qed

lemma phases_kept:
  assumes p: "phased en h w0 busy I Js g"
    and own: "\<And>w w'. own w' = own w \<Longrightarrow> busy w' = busy w" "\<And>w w'. own w' = own w \<Longrightarrow> g w' = g w"
  shows "phased en_page h_page s0 (\<lambda>s. busy (get s)) (\<lambda>s. I (get s)) ((\<lambda>J s. J (get s)) ` Js) (\<lambda>s. g (get s))"
proof (intro phased.intro phased_axioms.intro)
  have gf: "guarded_flight en h w0 busy" using p by (rule phased.axioms)
  show "guarded_flight en_page h_page s0 (\<lambda>s. busy (get s))" by (rule guards [OF gf own(1)])
  show "I (get s0)" using phased.starts [OF p] starts by simp
  show "\<forall>J\<in>(\<lambda>J s. J (get s)) ` Js. \<forall>s. J s \<longrightarrow> I (get s)" using phased.implied [OF p] by auto
next
  fix J s s' assume "J \<in> insert (\<lambda>s. I (get s)) ((\<lambda>J s. J (get s)) ` Js)" "g (get s') = g (get s)" "J s"
  then show "J s'" using phased.seen [OF p] by auto
next
  fix ev s assume en: "en_page ev s" and I: "I (get s)" and nf: "\<not> frames (\<lambda>s. busy (get s)) (h_page ev)"
  from nf beside_of [of busy ev] own(1) obtain e where e: "ev = inj e" by blast
  with nf have "\<not> frames busy (h e)" by (simp add: runs frames_lift)
  from phased.operation [OF p fires [OF en [unfolded e]] I this] asserts_lift
  show "\<not> busy (get s) \<and> asserts ((\<lambda>J s. J (get s)) ` Js) (\<lambda>_ s. I (get s)) (\<lambda>s. I (get s)) (h_page ev) s"
    by (auto simp: e runs)
next
  fix ev assume f: "frames (\<lambda>s. busy (get s)) (h_page ev)"
  show "tail_frames (\<lambda>s. g (get s)) (h_page ev)"
  proof (cases "\<exists>e. ev = inj e")
    case True
    with f phased.others [OF p] show ?thesis by (auto simp: runs frames_lift tail_frames_lift)
  next
    case False
    then show ?thesis by (intro frames_tail beside_of own(2)) auto
  qed
next
  fix ev s J assume en: "en_page ev s" and f: "frames (\<lambda>s. busy (get s)) (h_page ev)"
    and J: "J \<in> insert (\<lambda>s. I (get s)) ((\<lambda>J s. J (get s)) ` Js)" "J s"
  then obtain K where K: "J = (\<lambda>s. K (get s))" "K \<in> insert I Js" by auto
  show "after J (h_page ev) s"
  proof (cases "\<exists>e. ev = inj e")
    case True
    then obtain e where e: "ev = inj e" by blast
    with f have "frames busy (h e)" by (simp add: runs frames_lift)
    from phased.stretch [OF p fires [OF en [unfolded e]] this K(2)] J(2)
    show ?thesis by (simp add: e runs K(1) after_lift)
  next
    case False
    have "frames (\<lambda>s. g (get s)) (h_page ev)" by (rule beside_of [OF own(2)]) (use False in auto)
    then show ?thesis
      by (rule after_frames) (use phased.seen [OF p K(2)] J(2) K(1) in auto)
  qed
qed

end

end
