(* ===== verification/ChannelPage.thy ===== *)
theory ChannelPage
  imports MessageList VoiceCalls
begin

text \<open>
  The page of a channel: what \<open>ChannelView.tsx\<close> renders, a voice view or a list of messages
  with an input, and how these live together. React keeps a child that is of the same kind
  and has the same key and passes it the new props; any other child is removed, and a new
  one mounted.
\<close>

section \<open>The children of the page\<close>

text \<open>The key, which is also the channel, and the name; or channel, name, user and messages.\<close>

datatype child =
    VoiceChild string string
  | TextChild string string "string option" "message list"

definition text_child :: "'z channel_view_scheme \<Rightarrow> child" where
  "text_child w =
     TextChild (channelId w) (channelName w) (map_option u_id (currentUser w)) (extraMessages w)"

definition channel_child :: "'z channel_view_scheme \<Rightarrow> child" where
  "channel_child w =
     (case channel w of
        Some c \<Rightarrow> if ch_type c = VOICE then VoiceChild (channelId w) (ch_name c) else text_child w
      | None \<Rightarrow> text_child w)"

fun same_instance :: "child \<Rightarrow> child \<Rightarrow> bool" where
  "same_instance (VoiceChild k n) (VoiceChild k' n') = (k = k')"
| "same_instance (TextChild k n u ms) (TextChild k' n' u' ms') = True"
| "same_instance _ _ = False"

text \<open>What the list of messages receives when the page renders text.\<close>

definition list_props :: "'z channel_view_scheme \<Rightarrow> list_event" where
  "list_props w = ListProps (channelId w) (map_option u_id (currentUser w)) (extraMessages w)"

section \<open>A sent message on the page\<close>

lemma merge_distinct:
  "distinct (map message_id fs) \<Longrightarrow> distinct (map message_id ex) \<Longrightarrow> distinct (map message_id (merge fs ex))"
  by (auto simp: merge_def distinct_map_filter) (metis imageI)

lemma merge_ids: "message_id ` set (merge fs ex) = message_id ` set fs \<union> message_id ` set ex"
  by (auto simp: merge_def)

lemma props_merged:
  assumes "ml_life l = Mounted" "ml_channelId l = channelId w"
  shows "\<exists>l'. exec list_enabled (list_handler e) [Event (list_props w)] (l, ls) = Some (l', ls @ [Ret ()]) \<and>
    allMessages l' = merge (messages l) (extraMessages w)"
  using assms by (simp add: list_props_def allMessages_def Let_def)

text \<open>C8. The page shows a sent message once: whether the answer or the echo comes first, and whether
  the list has fetched the message itself, as soon as both have come each message on the screen is there once,
  the sent one among them and the placeholder not.\<close>

theorem sent_message_shown_once:
  fixes w :: channel_view and l :: message_list
  assumes "channel_enabled (SendMessage msg now) w" "currentUser w = Some u"
    and "in_state Open i (sockets w)" "closure (sockets w ! i) = channelId w"
    and "distinct (map message_id (extraMessages w))"
    and "ok r" "body r = Some j" "as_message j = Some real" "message_id real \<noteq> temp_id now"
    and "temp_id now \<notin> message_id ` set (arrivals (channelId w) (fs @ gs))"
    and "ml_life l = Mounted" "ml_channelId l = channelId w"
    and "distinct (map message_id (messages l))" "temp_id now \<notin> message_id ` set (messages l)"
  shows "\<exists>w' ts' l'. exec channel_enabled (channel_handler e refuses)
      (Event (SendMessage msg now) # frames_on i fs @
       [Answer (length ts) 0 (HttpResp r), Answer (length ts) 0 x] @ frames_on i gs) (w, ts) =
      Some (w', ts') \<and>
    exec list_enabled (list_handler e) [Event (list_props w')] (l, ls) = Some (l', ls @ [Ret ()]) \<and>
    distinct (map message_id (allMessages l')) \<and>
    message_id real \<in> message_id ` set (allMessages l') \<and> temp_id now \<notin> message_id ` set (allMessages l')"
proof -
  from sent_course [OF assms(1-10), of e refuses ts x] obtain ex ts' where
    run: "exec channel_enabled (channel_handler e refuses)
      (Event (SendMessage msg now) # frames_on i fs @
       [Answer (length ts) 0 (HttpResp r), Answer (length ts) 0 x] @ frames_on i gs) (w, ts) =
      Some (w\<lparr>extraMessages := ex\<rparr>, ts')"
    and ex: "distinct (map message_id ex)" "message_id real \<in> message_id ` set ex" "temp_id now \<notin> message_id ` set ex"
    by blast
  from props_merged [OF assms(11), of "w\<lparr>extraMessages := ex\<rparr>" e ls] assms(12) obtain l' where
    l': "exec list_enabled (list_handler e) [Event (list_props (w\<lparr>extraMessages := ex\<rparr>))] (l, ls) = Some (l', ls @ [Ret ()])"
      "allMessages l' = merge (messages l) ex"
    by auto
  have "distinct (map message_id (allMessages l'))" unfolding l'(2) by (rule merge_distinct [OF assms(13) ex(1)])
  moreover have "message_id real \<in> message_id ` set (allMessages l')" "temp_id now \<notin> message_id ` set (allMessages l')"
    unfolding l'(2) merge_ids using ex assms(14) by auto
  ultimately show ?thesis using run l'(1) by blast
qed

definition demo_list :: "message list \<Rightarrow> message_list" where
  "demo_list ms = (list_init demo_browser ''a'' (Some ''u1'') [])\<lparr>ml_life := Mounted, loading := False, messages := ms\<rparr>"

definition demo_sent :: message where
  "demo_sent = \<lparr>message_id = ''m1'', channel_id = ''a'', author_id = ''u1'', content = ''hi'',
     created_at = ''t0'', username = None\<rparr>"

theorem sent_message_shown_once_witness:
  "\<exists>w' ts' l'. exec channel_enabled (channel_handler demo_env (\<lambda>_. False))
      (Event (SendMessage ''hi'' 7) # frames_on 0 [Some (demo_frame ''a'' ''m1'')] @
       [Answer 0 0 (HttpResp \<lparr>status = 201, body = Some (demo_body ''a'' ''m1'')\<rparr>),
        Answer 0 0 Rejected] @ frames_on 0 []) (demo_page, []) = Some (w', ts') \<and>
    exec list_enabled (list_handler demo_env) [Event (list_props w')] (demo_list [demo_sent], []) = Some (l', [Ret ()]) \<and>
    distinct (map message_id (allMessages l')) \<and> ''m1'' \<in> message_id ` set (allMessages l')"
proof -
  have a: "arrivals (channelId demo_page) ([Some (demo_frame ''a'' ''m1'')] @ []) = [demo_sent]"
    using demo_arrivals by (simp add: demo_page_def channel_init_def demo_sent_def)
  have p: "channel_enabled (SendMessage ''hi'' 7) demo_page"
    "currentUser demo_page = Some \<lparr>u_id = ''u1'', u_name = ''ann''\<rparr>"
    "in_state Open 0 (sockets demo_page)" "closure (sockets demo_page ! 0) = channelId demo_page"
    "distinct (map message_id (extraMessages demo_page))"
    by (simp_all add: demo_page_def channel_init_def in_state_def)
  have b: "ok \<lparr>status = 201, body = Some (demo_body ''a'' ''m1'')\<rparr>" "as_message (demo_body ''a'' ''m1'') = Some demo_sent"
    "message_id demo_sent \<noteq> temp_id 7"
    by (simp_all add: ok_def demo_body_def as_message_def str_field_def demo_sent_def temp_id_def)
  have l: "ml_life (demo_list [demo_sent]) = Mounted" "ml_channelId (demo_list [demo_sent]) = channelId demo_page"
    "distinct (map message_id (messages (demo_list [demo_sent])))"
    by (simp_all add: demo_list_def list_init_def demo_page_def channel_init_def)
  have t: "temp_id 7 \<notin> message_id ` set (messages (demo_list [demo_sent]))"
    "temp_id 7 \<notin> message_id ` set (arrivals (channelId demo_page) ([Some (demo_frame ''a'' ''m1'')] @ []))"
    unfolding a by (simp_all add: demo_list_def demo_sent_def temp_id_def)
  note sent_message_shown_once [OF p b(1) _ b(2,3) t(2) l t(1), where ts = "[]" and ls = "[]" and e = demo_env and
      refuses = "\<lambda>_. False" and x = Rejected, unfolded list.size append_Nil]
  then show ?thesis by (simp add: demo_sent_def del: exec.simps channel_handler.simps list_handler.simps) blast
qed

section \<open>Changing the channel\<close>

definition moved_to :: "string \<Rightarrow> string \<Rightarrow> 'z channel_view_scheme \<Rightarrow> 'z channel_view_scheme" where
  "moved_to s ch w = close_connection (w\<lparr>serverId := s, channelId := ch\<rparr>)"

lemma moved_fields [simp]:
  "channelId (moved_to s ch w) = ch" "serverId (moved_to s ch w) = s" "channel (moved_to s ch w) = channel w"
  "life (moved_to s ch w) = life w"
  by (simp_all add: moved_to_def close_connection_def)

lemma effects_fields [simp]:
  "channelId (channel_effects e refuses w) = channelId w" "channel (channel_effects e refuses w) = channel w"
  "life (channel_effects e refuses w) = life w"
  by (simp_all add: channel_effects_def open_connection_def connectWs_def set_timer_def Let_def split: option.split)

lemma navigated:
  assumes "life w = Mounted" "ch \<noteq> channelId w"
  shows "exec channel_enabled (channel_handler e refuses) [Event (Navigate s ch)] (w, ts) =
    Some (channel_effects e refuses (moved_to s ch w), ts @ [info_thread e s ch (moved_to s ch w), Ret ()])"
proof -
  have s: "seg (channel_handler e refuses (Navigate s ch)) w =
      (channel_effects e refuses (moved_to s ch w), [info_thread e s ch (moved_to s ch w)], Ret ())"
    using assms(2) by (simp add: info_effect_def seg_load_info upd_def moved_to_def [symmetric] Let_def)
  show ?thesis
    using assms(1) by (subst exec_event [of channel_enabled _ w "channel_handler e refuses", OF _ s]) simp_all
qed

text \<open>The request with which a voice view tells the server that the user has left.\<close>

definition tells_leave :: "env \<Rightarrow> string \<Rightarrow> (voice, unit) io \<Rightarrow> bool" where
  "tells_leave e ch t \<longleftrightarrow> (\<exists>(w :: voice) k. t = Await [HttpFetch (api_request e (voice_path ch ''leave'') post_init
     (first_headers e post_init w))] k)"

lemma page_left:
  assumes "joinedRef v" "v_life v = Mounted"
  shows "\<exists>t. exec (voice_enabled name) (voice_handler e refuses ch) [Event VoiceUnmount] (v, vs) =
      Some (cleanup_call (v\<lparr>v_life := Gone\<rparr>), vs @ [t, Ret ()]) \<and> tells_leave e ch t"
proof -
  let ?v = "v\<lparr>v_life := Gone\<rparr>"
  have "\<exists>t. seg (voice_handler e refuses ch VoiceUnmount) v = (cleanup_call ?v, [t], Ret ()) \<and> tells_leave e ch t"
    using assms(1) by (auto simp: doCleanup_def apiFetch_waits upd_def tells_leave_def)
  then obtain t where s: "seg (voice_handler e refuses ch VoiceUnmount) v = (cleanup_call ?v, [t], Ret ())" "tells_leave e ch t"
    by blast
  have "voice_enabled name VoiceUnmount v" using assms(2) by simp
  then show ?thesis
    using s(2) by (subst exec_event [of "voice_enabled name" _ v "voice_handler e refuses ch", OF _ s(1)]) auto
qed

text \<open>C30. Going to another channel ends the call of the voice channel that was shown: its view is removed, not
  reused, microphone, socket and peers are given up, the server is told which channel was left, and
  the old view offers nothing any more.\<close>

theorem changing_channel_ends_call:
  fixes w :: channel_view
  assumes "life w = Mounted" "channel_child w = VoiceChild k name" "ch \<noteq> k"
    and "reachable (voice_enabled name) (voice_handler e refuses k) (voice_init b) (v, vs)"
    and "v_life v = Mounted" "joinedRef v"
  shows "\<exists>w' ts' v' t. exec channel_enabled (channel_handler e refuses) [Event (Navigate s ch)] (w, ts) = Some (w', ts') \<and>
    \<not> same_instance (channel_child w) (channel_child w') \<and>
    exec (voice_enabled name) (voice_handler e refuses k) [Event VoiceUnmount] (v, vs) = Some (v', vs @ [t, Ret ()]) \<and>
    silent v' \<and> tells_leave e k t \<and>
    \<not> voice_enabled name Join v' \<and> \<not> voice_enabled name Leave v' \<and> \<not> voice_enabled name VoiceUnmount v'"
proof -
  from assms(2) have k: "k = channelId w" by (auto simp: channel_child_def text_child_def split: option.splits if_splits)
  let ?w = "channel_effects e refuses (moved_to s ch w)"
  from navigated [OF assms(1)] assms(3) k
  have w: "exec channel_enabled (channel_handler e refuses) [Event (Navigate s ch)] (w, ts) =
      Some (?w, ts @ [info_thread e s ch (moved_to s ch w), Ret ()])" by simp
  have "\<not> same_instance (channel_child w) (channel_child ?w)"
    using assms(2,3) by (auto simp: channel_child_def [of ?w] text_child_def split: option.split)
  moreover from page_left [OF assms(6,5), of name e refuses k vs] obtain t where
    t: "exec (voice_enabled name) (voice_handler e refuses k) [Event VoiceUnmount] (v, vs) =
      Some (cleanup_call (v\<lparr>v_life := Gone\<rparr>), vs @ [t, Ret ()])" "tells_leave e k t" by blast
  have "tidy_call v" by (rule voice_call.invariant [OF assms(4)])
  then have "calm v (v\<lparr>v_life := Gone\<rparr>)" by (rule calm_change) simp_all
  then have "silent (cleanup_call (v\<lparr>v_life := Gone\<rparr>))" by (intro cleanup_silent) (simp add: calm_def)
  moreover have "\<not> voice_enabled name Join (cleanup_call (v\<lparr>v_life := Gone\<rparr>))"
    "\<not> voice_enabled name Leave (cleanup_call (v\<lparr>v_life := Gone\<rparr>))"
    "\<not> voice_enabled name VoiceUnmount (cleanup_call (v\<lparr>v_life := Gone\<rparr>))" by simp_all
  ultimately show ?thesis using w t by blast
qed

definition demo_talk :: channel_view where
  "demo_talk = (channel_init demo_browser ''s'' ''c'')\<lparr>life := Mounted,
     channel := Some \<lparr>ch_id = ''c'', ch_name = ''Talk'', ch_type = VOICE\<rparr>\<rparr>"

theorem changing_channel_ends_call_witness:
  "\<exists>w' ts' v' t. exec channel_enabled (channel_handler call_env (\<lambda>_. False)) [Event (Navigate ''s'' ''d'')] (demo_talk, []) =
      Some (w', ts') \<and>
    exec (voice_enabled ''Talk'') (voice_handler call_env (\<lambda>_. False) ''c'') [Event VoiceUnmount] (demo_call, [Ret (), Ret ()]) =
      Some (v', [Ret (), Ret (), t, Ret ()]) \<and> silent v' \<and> tells_leave call_env ''c'' t"
proof -
  have "life demo_talk = Mounted" "channel_child demo_talk = VoiceChild ''c'' ''Talk''" "''d'' \<noteq> ''c''"
    by (simp_all add: demo_talk_def channel_init_def channel_child_def)
  note changing_channel_ends_call [OF this exec_reachable_init [OF demo_called] demo_call_state(1), where s = "''s''" and ts = "[]"]
  moreover have "joinedRef demo_call" by (simp add: demo_call_def entered_def)
  ultimately show ?thesis by (simp del: exec.simps channel_handler.simps voice_handler.simps) blast
qed

text \<open>The list of channels is not to be had: nothing comes of it.\<close>

lemma info_lost:
  assumes "n < length ts" "ts ! n = info_thread e s ch w"
  shows "\<exists>p. exec en h [Answer n 0 Rejected] (v, ts) = Some (v, ts[n := Ret ()] @ [p])"
  using assms by (simp add: info_thread_def load_info_def apiFetch_waits api_answer_def io_simps)

text \<open>
  The kind of the channel, though, is that of the channel before until the answer comes, and
  stays so when it never does: a text channel then shows the voice view, under the old name.
\<close>

theorem voice_view_of_other_channel:
  fixes w :: channel_view
  assumes "life w = Mounted" "channel w = Some c" "ch_type c = VOICE" "ch \<noteq> channelId w"
  shows "\<exists>w' ts'. exec channel_enabled (channel_handler e refuses)
      [Event (Navigate s ch), Answer (length ts) 0 Rejected] (w, ts) = Some (w', ts') \<and>
    channel_child w' = VoiceChild ch (ch_name c)"
proof -
  let ?w = "channel_effects e refuses (moved_to s ch w)"
  let ?ts = "ts @ [info_thread e s ch (moved_to s ch w), Ret ()]"
  obtain p where "exec channel_enabled (channel_handler e refuses) [Answer (length ts) 0 Rejected] (?w, ?ts) =
      Some (?w, ?ts[length ts := Ret ()] @ [p])"
    using info_lost [of "length ts" ?ts e s ch "moved_to s ch w" channel_enabled "channel_handler e refuses" ?w]
    by (auto simp del: exec.simps list_update_append)
  from exec_then [OF navigated [OF assms(1,4)] this]
  have "exec channel_enabled (channel_handler e refuses) [Event (Navigate s ch), Answer (length ts) 0 Rejected] (w, ts) =
      Some (?w, ?ts[length ts := Ret ()] @ [p])" by (simp del: exec.simps)
  moreover have "channel_child ?w = VoiceChild ch (ch_name c)" using assms(2,3) by (simp add: channel_child_def)
  ultimately show ?thesis by blast
qed

end
