(* ===== verification/Page.thy ===== *)
theory Page
  imports Composition ChannelSidebar Layout TipsPage ChannelPage
begin

text \<open>
  The whole client as it runs in a window: the frame of \<open>layout.tsx\<close>, the side bars it shows
  and the pages inside it, every instance that React mounts over time with a state of its own,
  and one browser under all of them. Their events and the answers to their requests come in any
  order; an instance that was removed can still have requests under way.
\<close>

section \<open>State\<close>

text \<open>
  What each instance keeps for itself is the extension of its record beyond \<open>browser\<close>. Side
  bars, channel views and tips pages are numbered; a message list and a voice view belong to a
  channel view.
\<close>

record app_page = browser +
  a_layout :: "unit layout_ext"
  a_servers :: "nat \<Rightarrow> unit server_sidebar_ext"
  a_channels :: "nat \<Rightarrow> unit channel_sidebar_ext"
  a_views :: "nat \<Rightarrow> unit message_input_ext channel_view_ext"
  a_lists :: "nat \<times> nat \<Rightarrow> unit message_list_ext"
  a_voices :: "nat \<times> nat \<Rightarrow> unit voice_ext"
  a_tips :: "nat \<Rightarrow> unit tips_page_ext tip_modal_ext"

text \<open>A component's state inside that of the page, and its way back.\<close>

definition part :: "('z browser_scheme \<Rightarrow> 'x) \<Rightarrow> 'z browser_scheme \<Rightarrow> 'x browser_scheme" where
  "part own s = browser.extend (browser.truncate s) (own s)"

definition put_part ::
  "('x \<Rightarrow> 'z browser_scheme \<Rightarrow> 'z browser_scheme) \<Rightarrow> 'x browser_scheme \<Rightarrow> 'z browser_scheme \<Rightarrow> 'z browser_scheme" where
  "put_part set_own w s = set_own (browser.more w) (s\<lparr>storage := storage w, hrefs := hrefs w\<rparr>)"

definition layout_of :: "app_page \<Rightarrow> layout" where
  "layout_of = part a_layout"

definition put_layout :: "layout \<Rightarrow> app_page \<Rightarrow> app_page" where
  "put_layout = put_part (\<lambda>x s. s\<lparr>a_layout := x\<rparr>)"

definition servers_of :: "nat \<Rightarrow> app_page \<Rightarrow> server_sidebar" where
  "servers_of n = part (\<lambda>s. a_servers s n)"

definition put_servers :: "nat \<Rightarrow> server_sidebar \<Rightarrow> app_page \<Rightarrow> app_page" where
  "put_servers n = put_part (\<lambda>x s. s\<lparr>a_servers := (a_servers s)(n := x)\<rparr>)"

definition channels_of :: "nat \<Rightarrow> app_page \<Rightarrow> channel_sidebar" where
  "channels_of n = part (\<lambda>s. a_channels s n)"

definition put_channels :: "nat \<Rightarrow> channel_sidebar \<Rightarrow> app_page \<Rightarrow> app_page" where
  "put_channels n = put_part (\<lambda>x s. s\<lparr>a_channels := (a_channels s)(n := x)\<rparr>)"

definition view_of :: "nat \<Rightarrow> app_page \<Rightarrow> message_input" where
  "view_of n = part (\<lambda>s. a_views s n)"

definition put_view :: "nat \<Rightarrow> message_input \<Rightarrow> app_page \<Rightarrow> app_page" where
  "put_view n = put_part (\<lambda>x s. s\<lparr>a_views := (a_views s)(n := x)\<rparr>)"

definition list_of :: "nat \<times> nat \<Rightarrow> app_page \<Rightarrow> message_list" where
  "list_of n = part (\<lambda>s. a_lists s n)"

definition put_list :: "nat \<times> nat \<Rightarrow> message_list \<Rightarrow> app_page \<Rightarrow> app_page" where
  "put_list n = put_part (\<lambda>x s. s\<lparr>a_lists := (a_lists s)(n := x)\<rparr>)"

definition voice_of :: "nat \<times> nat \<Rightarrow> app_page \<Rightarrow> voice" where
  "voice_of n = part (\<lambda>s. a_voices s n)"

definition put_voice :: "nat \<times> nat \<Rightarrow> voice \<Rightarrow> app_page \<Rightarrow> app_page" where
  "put_voice n = put_part (\<lambda>x s. s\<lparr>a_voices := (a_voices s)(n := x)\<rparr>)"

definition tips_of :: "nat \<Rightarrow> app_page \<Rightarrow> tips_page" where
  "tips_of n = part (\<lambda>s. a_tips s n)"

definition put_tips :: "nat \<Rightarrow> tips_page \<Rightarrow> app_page \<Rightarrow> app_page" where
  "put_tips n = put_part (\<lambda>x s. s\<lparr>a_tips := (a_tips s)(n := x)\<rparr>)"

named_theorems parts \<open>the states of the components inside that of the page\<close>

declare layout_of_def [parts] put_layout_def [parts] servers_of_def [parts] put_servers_def [parts]
  channels_of_def [parts] put_channels_def [parts] view_of_def [parts] put_view_def [parts]
  list_of_def [parts] put_list_def [parts] voice_of_def [parts] put_voice_def [parts]
  tips_of_def [parts] put_tips_def [parts] part_def [parts] put_part_def [parts] browser.defs [parts]

lemma browser_whole [simp]: "\<lparr>storage = storage w, hrefs = hrefs w, \<dots> = browser.more w\<rparr> = w"
  by (cases w) simp

lemma parts_own [simp]:
  "browser.more (layout_of p) = a_layout p"
  "browser.more (servers_of n p) = a_servers p n"
  "browser.more (channels_of n p) = a_channels p n"
  "browser.more (view_of n p) = a_views p n"
  "browser.more (list_of i p) = a_lists p i"
  "browser.more (voice_of i p) = a_voices p i"
  "browser.more (tips_of n p) = a_tips p n"
  by (simp_all add: parts)

lemma parts_browser [simp]:
  "storage (layout_of p) = storage p" "hrefs (layout_of p) = hrefs p"
  "storage (servers_of n p) = storage p" "hrefs (servers_of n p) = hrefs p"
  "storage (channels_of n p) = storage p" "hrefs (channels_of n p) = hrefs p"
  "storage (view_of n p) = storage p" "hrefs (view_of n p) = hrefs p"
  "storage (list_of i p) = storage p" "hrefs (list_of i p) = hrefs p"
  "storage (voice_of i p) = storage p" "hrefs (voice_of i p) = hrefs p"
  "storage (tips_of n p) = storage p" "hrefs (tips_of n p) = hrefs p"
  by (simp_all add: parts)

lemma put_layout_parts [simp]:
  "storage (put_layout w p) = storage w" "hrefs (put_layout w p) = hrefs w"
  "a_layout (put_layout w p) = browser.more w" "a_servers (put_layout w p) = a_servers p"
  "a_channels (put_layout w p) = a_channels p" "a_views (put_layout w p) = a_views p"
  "a_lists (put_layout w p) = a_lists p" "a_voices (put_layout w p) = a_voices p"
  "a_tips (put_layout w p) = a_tips p"
  by (simp_all add: parts)

lemma put_servers_parts [simp]:
  "storage (put_servers n w p) = storage w" "hrefs (put_servers n w p) = hrefs w"
  "a_layout (put_servers n w p) = a_layout p" "a_servers (put_servers n w p) = (a_servers p)(n := browser.more w)"
  "a_channels (put_servers n w p) = a_channels p" "a_views (put_servers n w p) = a_views p"
  "a_lists (put_servers n w p) = a_lists p" "a_voices (put_servers n w p) = a_voices p"
  "a_tips (put_servers n w p) = a_tips p"
  by (simp_all add: parts)

lemma put_channels_parts [simp]:
  "storage (put_channels n w p) = storage w" "hrefs (put_channels n w p) = hrefs w"
  "a_layout (put_channels n w p) = a_layout p" "a_servers (put_channels n w p) = a_servers p"
  "a_channels (put_channels n w p) = (a_channels p)(n := browser.more w)" "a_views (put_channels n w p) = a_views p"
  "a_lists (put_channels n w p) = a_lists p" "a_voices (put_channels n w p) = a_voices p"
  "a_tips (put_channels n w p) = a_tips p"
  by (simp_all add: parts)

lemma put_view_parts [simp]:
  "storage (put_view n w p) = storage w" "hrefs (put_view n w p) = hrefs w"
  "a_layout (put_view n w p) = a_layout p" "a_servers (put_view n w p) = a_servers p"
  "a_channels (put_view n w p) = a_channels p" "a_views (put_view n w p) = (a_views p)(n := browser.more w)"
  "a_lists (put_view n w p) = a_lists p" "a_voices (put_view n w p) = a_voices p"
  "a_tips (put_view n w p) = a_tips p"
  by (simp_all add: parts)

lemma put_list_parts [simp]:
  "storage (put_list i w p) = storage w" "hrefs (put_list i w p) = hrefs w"
  "a_layout (put_list i w p) = a_layout p" "a_servers (put_list i w p) = a_servers p"
  "a_channels (put_list i w p) = a_channels p" "a_views (put_list i w p) = a_views p"
  "a_lists (put_list i w p) = (a_lists p)(i := browser.more w)" "a_voices (put_list i w p) = a_voices p"
  "a_tips (put_list i w p) = a_tips p"
  by (simp_all add: parts)

lemma put_voice_parts [simp]:
  "storage (put_voice i w p) = storage w" "hrefs (put_voice i w p) = hrefs w"
  "a_layout (put_voice i w p) = a_layout p" "a_servers (put_voice i w p) = a_servers p"
  "a_channels (put_voice i w p) = a_channels p" "a_views (put_voice i w p) = a_views p"
  "a_lists (put_voice i w p) = a_lists p" "a_voices (put_voice i w p) = (a_voices p)(i := browser.more w)"
  "a_tips (put_voice i w p) = a_tips p"
  by (simp_all add: parts)

lemma put_tips_parts [simp]:
  "storage (put_tips n w p) = storage w" "hrefs (put_tips n w p) = hrefs w"
  "a_layout (put_tips n w p) = a_layout p" "a_servers (put_tips n w p) = a_servers p"
  "a_channels (put_tips n w p) = a_channels p" "a_views (put_tips n w p) = a_views p"
  "a_lists (put_tips n w p) = a_lists p" "a_voices (put_tips n w p) = a_voices p"
  "a_tips (put_tips n w p) = (a_tips p)(n := browser.more w)"
  by (simp_all add: parts)

interpretation layout_lens: lens layout_of put_layout
  by unfold_locales (simp_all add: parts)

interpretation servers_lens: lens "servers_of n" "put_servers n" for n
  by unfold_locales (simp_all add: parts)

interpretation channels_lens: lens "channels_of n" "put_channels n" for n
  by unfold_locales (simp_all add: parts)

interpretation view_lens: lens "view_of n" "put_view n" for n
  by unfold_locales (simp_all add: parts)

interpretation list_lens: lens "list_of n" "put_list n" for n
  by unfold_locales (simp_all add: parts)

interpretation voice_lens: lens "voice_of n" "put_voice n" for n
  by unfold_locales (simp_all add: parts)

interpretation tips_lens: lens "tips_of n" "put_tips n" for n
  by unfold_locales (simp_all add: parts)

section \<open>The page as a machine\<close>

text \<open>
  What is given from outside: the environment, whether the desktop shell is there, the browser's
  verdict on addresses and the reading of amounts, the path the window opens with, and the props
  each instance is first rendered with.
\<close>

record setting =
  s_env :: env
  s_desktop :: bool
  s_refuses :: "string \<Rightarrow> bool"
  s_cents :: "string \<Rightarrow> int option"
  s_path :: "string option"
  s_paths :: "nat \<Rightarrow> string"
  s_view :: "nat \<Rightarrow> string \<times> string"
  s_list :: "nat \<times> nat \<Rightarrow> string \<times> string option \<times> message list"
  s_voice :: "nat \<times> nat \<Rightarrow> string \<times> string"

text \<open>The props a list has.\<close>

definition props_event :: "'z message_list_scheme \<Rightarrow> list_event" where
  "props_event w = ListProps (ml_channelId w) (currentUserId w) (ml_extra w)"

datatype app_event =
    OnLayout layout_event
  | OnServers nat sidebar_event
  | OnChannels nat channel_sidebar_event
  | OnView nat text_event
  | OnList "nat \<times> nat" list_event
  | OnVoice "nat \<times> nat" voice_event
  | OnTips nat tips_event

fun app_handler :: "setting \<Rightarrow> app_event \<Rightarrow> (app_page, unit) io" where
  "app_handler S (OnLayout ev) =
     lift layout_of put_layout (layout_handler (s_env S) (s_desktop S) (s_refuses S) ev)"
| "app_handler S (OnServers n ev) = lift (servers_of n) (put_servers n) (sidebar_handler (s_env S) ev)"
| "app_handler S (OnChannels n ev) =
     lift (channels_of n) (put_channels n) (side_handler (s_env S) (s_desktop S) ev)"
| "app_handler S (OnView n ev) = lift (view_of n) (put_view n) (text_handler (s_env S) (s_refuses S) ev)"
| "app_handler S (OnList i ev) = lift (list_of i) (put_list i) (list_handler (s_env S) ev)"
| "app_handler S (OnVoice i ev) =
     lift (voice_of i) (put_voice i) (voice_handler (s_env S) (s_refuses S) (fst (s_voice S i)) ev)"
| "app_handler S (OnTips n ev) = lift (tips_of n) (put_tips n) (tips_handler (s_env S) (s_cents S) ev)"

text \<open>
  An event of an instance is possible when it is for the component alone, and what comes from a
  parent comes as the parent gives it: a side bar is mounted when the frame shows it and reads the
  path of the frame (\<open>usePathname\<close>); a list or a voice view is mounted, and a list rendered
  again, with the props the channel view renders it with. When a route is mounted or left is
  up to the router.
\<close>

fun app_enabled :: "setting \<Rightarrow> app_event \<Rightarrow> app_page \<Rightarrow> bool" where
  "app_enabled S (OnLayout ev) p = layout_enabled ev (layout_of p)"
| "app_enabled S (OnServers n ev) p =
     (sidebar_enabled ev (servers_of n p) \<and>
      (case ev of
         SidebarMount \<Rightarrow> ServerBar \<in> set (layout_view (layout_of p))
       | PathChanged u \<Rightarrow> ly_path (layout_of p) = Some u
       | _ \<Rightarrow> True))"
| "app_enabled S (OnChannels n ev) p =
     (side_enabled (s_desktop S) ev (channels_of n p) \<and>
      (case ev of
         SideMount \<Rightarrow> ChannelBar \<in> set (layout_view (layout_of p))
       | SidePath u \<Rightarrow> ly_path (layout_of p) = Some u
       | _ \<Rightarrow> True))"
| "app_enabled S (OnView n ev) p = text_enabled ev (view_of n p)"
| "app_enabled S (OnList i ev) p =
     (list_enabled ev (list_of i p) \<and>
      (case ev of
         ListMount \<Rightarrow> life (view_of (fst i) p) = Mounted \<and>
           list_props (view_of (fst i) p) = props_event (list_of i p)
       | ListProps ch u ms \<Rightarrow> ev = list_props (view_of (fst i) p)
       | _ \<Rightarrow> True))"
| "app_enabled S (OnVoice i ev) p =
     (voice_enabled (snd (s_voice S i)) ev (voice_of i p) \<and>
      (case ev of
         VoiceMount \<Rightarrow> life (view_of (fst i) p) = Mounted \<and>
           channel_child (view_of (fst i) p) = VoiceChild (fst (s_voice S i)) (snd (s_voice S i))
       | _ \<Rightarrow> True))"
| "app_enabled S (OnTips n ev) p = tips_enabled (s_cents S) ev (tips_of n p)"

definition app_init :: "setting \<Rightarrow> browser \<Rightarrow> app_page" where
  "app_init S b =
     \<lparr>storage = storage b, hrefs = hrefs b, a_layout = browser.more (layout_init b (s_path S)),
      a_servers = (\<lambda>n. browser.more (sidebar_init b (s_paths S n))),
      a_channels = (\<lambda>n. browser.more (side_init b (s_paths S n))),
      a_views = (\<lambda>n. browser.more (text_init b (fst (s_view S n)) (snd (s_view S n)))),
      a_lists = (\<lambda>i. case s_list S i of (ch, u, ms) \<Rightarrow> browser.more (list_init b ch u ms)),
      a_voices = (\<lambda>i. browser.more (voice_init b)),
      a_tips = (\<lambda>n. browser.more (tips_init b))\<rparr>"

text \<open>The machine the properties speak of.\<close>

abbreviation app_reachable :: "setting \<Rightarrow> browser \<Rightarrow> app_page \<times> app_page threads \<Rightarrow> bool" where
  "app_reachable S b \<equiv> reachable (app_enabled S) (app_handler S) (app_init S b)"

section \<open>Each component is at home\<close>

lemmas app_inits = app_init_def layout_init_def sidebar_init_def side_init_def text_init_def
  channel_init_def channel_view.defs message_input.defs voice_init_def tips_init_def list_init_def

lemmas beside = layout_lens.frames_beside servers_lens.frames_beside channels_lens.frames_beside
  view_lens.frames_beside list_lens.frames_beside voice_lens.frames_beside tips_lens.frames_beside

interpretation servers_home: placed "servers_of n" "put_servers n" "app_enabled S" "app_handler S" "app_init S b"
    sidebar_enabled "sidebar_handler (s_env S)" "sidebar_init b (s_paths S n)" browser.more "OnServers n"
  for n S b
proof
  show "servers_of n (app_init S b) = sidebar_init b (s_paths S n)" by (simp add: app_inits parts)
next
  fix ev assume "\<And>e. ev \<noteq> OnServers n e"
  then have "\<forall>e. ev \<noteq> OnServers n e" by simp
  then show "frames (\<lambda>s. browser.more (servers_of n s)) (app_handler S ev)"
    by (cases ev) (auto intro!: beside)
qed simp_all

interpretation view_home: placed "view_of n" "put_view n" "app_enabled S" "app_handler S" "app_init S b"
    text_enabled "text_handler (s_env S) (s_refuses S)" "text_init b (fst (s_view S n)) (snd (s_view S n))"
    browser.more "OnView n"
  for n S b
proof
  show "view_of n (app_init S b) = text_init b (fst (s_view S n)) (snd (s_view S n))"
    by (simp add: app_inits parts)
next
  fix ev assume "\<And>e. ev \<noteq> OnView n e"
  then have "\<forall>e. ev \<noteq> OnView n e" by simp
  then show "frames (\<lambda>s. browser.more (view_of n s)) (app_handler S ev)"
    by (cases ev) (auto intro!: beside)
qed simp_all

interpretation voice_home: placed "voice_of i" "put_voice i" "app_enabled S" "app_handler S" "app_init S b"
    "voice_enabled (snd (s_voice S i))" "voice_handler (s_env S) (s_refuses S) (fst (s_voice S i))" "voice_init b"
    browser.more "OnVoice i"
  for i S b
proof
  show "voice_of i (app_init S b) = voice_init b" by (simp add: app_inits parts)
next
  fix ev assume "\<And>e. ev \<noteq> OnVoice i e"
  then have "\<forall>e. ev \<noteq> OnVoice i e" by simp
  then show "frames (\<lambda>s. browser.more (voice_of i s)) (app_handler S ev)"
    by (cases ev) (auto intro!: beside)
qed simp_all

interpretation channels_home: placed "channels_of n" "put_channels n" "app_enabled S" "app_handler S" "app_init S b"
    "side_enabled (s_desktop S)" "side_handler (s_env S) (s_desktop S)" "side_init b (s_paths S n)"
    browser.more "OnChannels n"
  for n S b
proof
  show "channels_of n (app_init S b) = side_init b (s_paths S n)" by (simp add: app_inits parts)
next
  fix ev assume "\<And>e. ev \<noteq> OnChannels n e"
  then have "\<forall>e. ev \<noteq> OnChannels n e" by simp
  then show "frames (\<lambda>s. browser.more (channels_of n s)) (app_handler S ev)"
    by (cases ev) (auto intro!: beside)
qed simp_all

definition first_list :: "setting \<Rightarrow> browser \<Rightarrow> nat \<times> nat \<Rightarrow> message_list" where
  "first_list S b i = (case s_list S i of (ch, u, ms) \<Rightarrow> list_init b ch u ms)"

interpretation list_home: placed "list_of i" "put_list i" "app_enabled S" "app_handler S" "app_init S b"
    list_enabled "list_handler (s_env S)" "first_list S b i" browser.more "OnList i"
  for i S b
proof
  show "list_of i (app_init S b) = first_list S b i"
    by (simp add: first_list_def app_inits parts split: prod.split)
next
  fix ev assume "\<And>e. ev \<noteq> OnList i e"
  then have "\<forall>e. ev \<noteq> OnList i e" by simp
  then show "frames (\<lambda>s. browser.more (list_of i s)) (app_handler S ev)"
    by (cases ev) (auto intro!: beside)
qed simp_all

section \<open>What each component guarantees holds on the page\<close>

lemma own_servers:
  fixes w w' :: server_sidebar
  assumes "browser.more w' = browser.more w"
  shows "creating w' = creating w" "joining w' = joining w"
  using assms by (cases w; cases w'; simp)+

lemma own_view:
  fixes w w' :: message_input
  assumes "browser.more w' = browser.more w"
  shows "mi_sending w' = mi_sending w" "ids_distinct w' = ids_distinct w"
  using assms by (cases w; cases w'; simp add: ids_distinct_def)+

lemma own_voice:
  fixes w w' :: voice
  assumes "browser.more w' = browser.more w"
  shows "v_joining w' = v_joining w" "call_state w' = call_state w"
  using assms by (cases w; cases w'; simp add: call_state_def)+

lemma own_channels:
  fixes w w' :: channel_sidebar
  assumes "browser.more w' = browser.more w"
  shows "cs_creating w' = cs_creating w"
  using assms by (cases w; cases w'; simp)

lemma own_list:
  fixes w w' :: message_list
  assumes "browser.more w' = browser.more w"
  shows "loadingMore w' = loadingMore w" "(k \<in> set (deletingIds w')) = (k \<in> set (deletingIds w))"
  using assms by (cases w; cases w'; simp)+

lemma first_list_flights:
  "guarded_flight list_enabled (list_handler e) (first_list S b i) loadingMore"
  "guarded_flight list_enabled (list_handler e) (first_list S b i) (\<lambda>w. k \<in> set (deletingIds w))"
  unfolding first_list_def
  by (cases "s_list S i"; simp add: older_pages.guarded_flight_axioms deletion.guarded_flight_axioms)+

interpretation page_creation: guarded_flight "app_enabled S" "app_handler S" "app_init S b"
    "\<lambda>p. creating (servers_of n p)" for S b n
  by (rule servers_home.guards [OF creation.guarded_flight_axioms own_servers(1)])

interpretation page_joining: guarded_flight "app_enabled S" "app_handler S" "app_init S b"
    "\<lambda>p. joining (servers_of n p)" for S b n
  by (rule servers_home.guards [OF joining.guarded_flight_axioms own_servers(2)])

interpretation page_sending: guarded_flight "app_enabled S" "app_handler S" "app_init S b"
    "\<lambda>p. mi_sending (view_of n p)" for S b n
  by (rule view_home.guards [OF text_channel.guarded_flight_axioms own_view(1)])

interpretation page_channel_creation: guarded_flight "app_enabled S" "app_handler S" "app_init S b"
    "\<lambda>p. cs_creating (channels_of n p)" for S b n
  by (rule channels_home.guards [OF channel_creation.guarded_flight_axioms own_channels])

interpretation page_older: guarded_flight "app_enabled S" "app_handler S" "app_init S b"
    "\<lambda>p. loadingMore (list_of i p)" for S b i
  by (rule list_home.guards [OF first_list_flights(1) own_list(1)])

interpretation page_deletion: guarded_flight "app_enabled S" "app_handler S" "app_init S b"
    "\<lambda>p. k \<in> set (deletingIds (list_of i p))" for S b i k
  by (rule list_home.guards [OF first_list_flights(2) own_list(2)])

interpretation page_ids: component "app_enabled S" "app_handler S" "app_init S b"
    "\<lambda>p. ids_distinct (view_of n p)" for S b n
  by (rule view_home.keeps [OF text_ids.component_axioms own_view(2)])

interpretation page_calls: phased "app_enabled S" "app_handler S" "app_init S b"
    "\<lambda>p. v_joining (voice_of i p)" "\<lambda>p. tidy_call (voice_of i p)" "(\<lambda>J p. J (voice_of i p)) ` phases"
    "\<lambda>p. call_state (voice_of i p)" for S b i
  by (rule voice_home.phases_kept [OF voice_call.phased_axioms own_voice])

text \<open>
  What passes from a channel view to its list: a list that was mounted was never handed two
  messages with one identifier.
\<close>

definition handed :: "'z message_list_scheme \<Rightarrow> bool" where
  "handed w \<longleftrightarrow> ml_life w = Fresh \<or> distinct (map message_id (ml_extra w))"

abbreviation props_of :: "'z message_list_scheme \<Rightarrow> life \<times> message list" where
  "props_of w \<equiv> (ml_life w, ml_extra w)"

lemma handed_seen: "props_of w' = props_of w \<Longrightarrow> handed w \<Longrightarrow> handed w'"
  by (simp add: handed_def)

lemma frames_list:
  "frames props_of (load_effect e :: ('z message_list_scheme, unit) io)"
  "frames props_of (load_more e :: ('z message_list_scheme, unit) io)"
  "frames props_of (handleDelete e m :: ('z message_list_scheme, unit) io)"
  unfolding load_effect_def initial_load_def start_load_def load_more_unfold handleDelete_def fetchMessages_def
  by (auto simp: browser_ops cancelled_def split: list.split
      intro!: frames_finally frames_try frames_bind frames_apiFetch)

lemma list_handed:
  fixes w :: "'z message_list_scheme"
  assumes "handed w" "list_enabled ev w"
    and "\<And>ch u ms. ev = ListProps ch u ms \<Longrightarrow> distinct (map message_id ms)"
    and "ev = ListMount \<Longrightarrow> distinct (map message_id (ml_extra w))"
  shows "wp handed (list_handler e ev) w"
proof -
  note k = wp_frames [OF frames_list(1) handed_seen] wp_frames [OF frames_list(2) handed_seen]
    wp_frames [OF frames_list(3) handed_seen]
  show ?thesis
    using assms by (cases ev) (auto simp: Let_def upd_def handed_def intro!: k)
qed

interpretation page_lists: component "app_enabled S" "app_handler S" "app_init S b"
    "\<lambda>p. ids_distinct (view_of (fst i) p) \<and> handed (list_of i p)" for S b i
proof
  show "ids_distinct (view_of (fst i) (app_init S b)) \<and> handed (list_of i (app_init S b))"
    using page_ids.init [of "fst i" S b] by (simp add: handed_def app_init_def parts list_init_def split: prod.split)
next
  fix p ev
  let ?A = "\<lambda>p. ids_distinct (view_of (fst i) p)" and ?B = "\<lambda>p. handed (list_of i p)"
  assume inv: "?A p \<and> ?B p" and en: "app_enabled S ev p"
  have own_handed: "handed w' = handed w" if "browser.more w' = browser.more w" for w w' :: message_list
    using that by (cases w; cases w'; simp add: handed_def)
  show "wp (\<lambda>p. ?A p \<and> ?B p) (app_handler S ev) p"
  proof (cases "\<exists>e. ev = OnList i e")
    case True
    then obtain e where e: "ev = OnList i e" by blast
    have "wp handed (list_handler (s_env S) e) (list_of i p)"
      by (rule list_handed) (use inv en e in \<open>auto simp: ids_distinct_def list_props_def props_event_def\<close>)
    then have B: "wp ?B (app_handler S ev) p" by (simp add: e list_lens.wps_lift)
    have fr: "frames (\<lambda>p. a_views p (fst i)) (app_handler S ev)" by (simp add: e list_lens.frames_beside)
    have seen: "?A p'" if "a_views p' (fst i) = a_views p (fst i)" "?A p" for p p'
      using that own_view(2) [of "view_of (fst i) p'" "view_of (fst i) p"] by simp
    show ?thesis by (rule wps_beside [where f = "\<lambda>p. a_views p (fst i)", OF seen])
        (use fr B inv in simp_all)
  next
    case False
    have fr: "frames (\<lambda>p. a_lists p i) (app_handler S ev)"
      using False by (cases ev) (auto intro!: beside)
    have seen: "?B p'" if "a_lists p' i = a_lists p i" "?B p" for p p'
      using that own_handed [of "list_of i p'" "list_of i p"] by simp
    have "wp ?A (app_handler S ev) p" by (rule page_ids.keeps) (use inv en in simp_all)
    then have "wp (\<lambda>p. ?B p \<and> ?A p) (app_handler S ev) p"
      by (intro wps_beside [where f = "\<lambda>p. a_lists p i", OF seen]) (use fr inv in simp_all)
    then show ?thesis by (simp only: conj_commute)
  qed
qed

section \<open>What the components do to the browser they share\<close>

text \<open>
  The changes of the browser any of them may make: none but navigations; a new access token;
  the end of the session, with the navigation to the login page.
\<close>

definition shares :: "'z browser_scheme \<Rightarrow> 'z browser_scheme \<Rightarrow> bool" where
  "shares w w' \<longleftrightarrow>
     storage w' = storage w \<and> (\<exists>us. hrefs w' = hrefs w @ us) \<or>
     (\<exists>t. storage w' = (storage w)(''access_token'' \<mapsto> t)) \<and> hrefs w' = hrefs w \<or>
     storage w' = (storage w)(''access_token'' := None, ''refresh_token'' := None) \<and>
       hrefs w' = hrefs w @ [''/login'']"

lemma shares_same [simp]: "storage w' = storage w \<Longrightarrow> hrefs w' = hrefs w \<Longrightarrow> shares w w'"
  by (simp add: shares_def)

lemma shares_session [simp]: "shares w (setItem ''access_token'' t w)" "shares w (end_session w)"
  by (auto simp: shares_def)

lemma obeys_apiFetch [simp, intro]: "obeys shares (apiFetch e path i)"
  by (auto simp: apiFetch_def refresh_and_retry_def Let_def fetch_def read_json_def yield_def
      intro!: obeys_bind obeys_try split: reply.split option.split)

lemmas obeys_intros = obeys_bind obeys_try obeys_finally obeys_par

lemma layout_shares: "obeys shares (layout_handler e d refuses ev)"
  by (cases ev)
     (auto simp: layout_effect_def layout_cleanup_def ly_connectWs_def ly_onopen_def ly_onmessage_def
       ly_onclose_def shares_def Let_def split: option.split)

lemma servers_shares: "obeys shares (sidebar_handler e ev)"
proof -
  have "obeys shares (fetchServers e)"
    unfolding fetchServers_def by (auto intro!: obeys_intros)
  then show ?thesis
    by (cases ev) (auto simp: handleCreate_def handleJoin_def closeModal_def push_route_def Let_def
        intro!: obeys_intros)
qed

lemma channels_shares: "obeys shares (side_handler e d ev)"
proof -
  have "obeys shares (show_user u m)" for u m
    unfolding show_user_def by (auto intro!: obeys_intros)
  then have "obeys shares (show_server r)" for r
    by (cases r rule: show_server.cases) (auto intro!: obeys_intros)
  then have "obeys shares (fetchData e sid)" for sid
    unfolding fetchData_def by (auto intro!: obeys_intros)
  moreover have "obeys shares (load_preference d)" "obeys shares (createChannel e)" "obeys shares (logoutAction e)"
    unfolding load_preference_def createChannel_def logoutAction_def
    by (auto simp: cs_closeModal_def intro!: obeys_intros split: option.split json.split)
  ultimately show ?thesis
    by (cases ev) (auto simp: server_effect_def cs_openModal_def cs_closeModal_def toggleNotifications_def Let_def
        split: option.split)
qed

lemma view_shares: "obeys shares (text_handler e refuses ev)"
proof -
  have s: "obeys shares (handleSend e c now)" for c now
    unfolding handleSend_def edit_extra_def by (auto simp: Let_def intro!: obeys_intros split: option.split)
  have "obeys shares (load_info e s ch)" for s ch
    unfolding load_info_def by (auto intro!: obeys_intros)
  with s have v: "obeys shares (channel_handler e refuses v)" for v
    by (cases v) (auto simp: info_effect_def cv_defs on_message_def split: option.split)
  have "obeys shares (input_handler e (\<lambda>c. handleSend e c now) v)" for v now
    by (cases v) (auto simp: send_text_def upload_file_def Let_def intro!: obeys_intros s split: option.split)
  with v show ?thesis by (cases ev) simp_all
qed

lemma list_shares: "obeys shares (list_handler e ev)"
proof -
  have "obeys shares (load_effect e)" "obeys shares (load_more e)" "obeys shares (handleDelete e m)" for m
    unfolding load_effect_def initial_load_def start_load_def load_more_unfold handleDelete_def fetchMessages_def
    by (auto intro!: obeys_intros split: list.split)
  then show ?thesis by (cases ev) (auto simp: Let_def)
qed

lemma tips_shares: "obeys shares (tips_handler e cents ev)"
proof -
  have f: "obeys shares (fetchTips e d off app)" "obeys shares (load_user e)" for d off app
    unfolding fetchTips_def load_user_def by (auto intro!: obeys_intros)
  then have t: "obeys shares (tab_effect e)" "obeys shares tips_close" "obeys shares (tips_success e d msg)" for d msg
    by (auto simp: tab_effect_def tips_close_def tips_success_def)
  have "obeys shares (handleSubmit e cents tips_close (tips_success e d))" for d
    unfolding handleSubmit_def
    by (auto simp: Let_def in_modal_def intro!: obeys_intros t split: option.split)
  with t have "obeys shares (modal_handler e cents tips_close (tips_success e d) v)" for d v
    by (cases v) simp_all
  with f t show ?thesis by (cases ev) (auto simp: open_modal_def)
qed

lemma voice_browser [simp]:
  "storage (cleanup_call w) = storage w" "hrefs (cleanup_call w) = hrefs w"
  "storage (send_signal j w) = storage w" "hrefs (send_signal j w) = hrefs w"
  "storage (removePeer u w) = storage w" "hrefs (removePeer u w) = hrefs w"
  "storage (makePeer u w) = storage w" "hrefs (makePeer u w) = hrefs w"
  "storage (stop_mic w) = storage w" "hrefs (stop_mic w) = hrefs w"
  "storage (buffer u c w) = storage w" "hrefs (buffer u c w) = hrefs w"
  by (simp_all add: cleanup_call_def stop_mic_def send_signal_def removePeer_def makePeer_def buffer_def
      split: option.split)

lemma voice_shares: "obeys shares (voice_handler e refuses ch ev)"
proof -
  have pc: "obeys shares (on_pc op i a)" for op i a by (simp add: on_pc_def)
  have c: "obeys shares (addIceCandidate i a)" for i a
    unfolding addIceCandidate_def by (auto intro!: obeys_intros pc)
  have r: "obeys shares (setRemoteDescription i a)" for i a
    unfolding setRemoteDescription_def by (auto intro!: obeys_intros pc)
  have "obeys shares (add_all i cs)" for i cs by (induction cs) (auto intro!: obeys_intros c)
  then have fl: "obeys shares (flushCandidates u i)" for u i
    by (auto simp: flushCandidates_def split: option.split)
  have "obeys shares (handle_offer u d)" "obeys shares (handle_answer u d)" "obeys shares (addRemoteCandidate u a)"
    for u d a
    unfolding handle_offer_def handle_answer_def addRemoteCandidate_def
    by (auto simp: Let_def intro!: obeys_intros pc r fl c split: option.split)
  then have m: "obeys shares (handleMessage raw now)" for raw now
    by (auto simp: handleMessage_def participant_joined_def participant_left_def split: option.split)
  have "obeys shares (send_offer u i)" for u i
    unfolding send_offer_def by (auto intro!: obeys_intros pc)
  then have o: "obeys shares (offer_all us)" for us by (induction us) auto
  have d: "obeys shares (doCleanup e ch b)" for b
    unfolding doCleanup_def by (auto intro!: obeys_intros)
  have "obeys shares (handleJoinVoice e refuses ch)"
    unfolding handleJoinVoice_def join_call_def open_mic_def list_others_def connect_def
    by (auto simp: Let_def intro!: obeys_intros split: option.split)
  with m o d show ?thesis
    by (cases ev) (auto simp: handleLeave_def signal_opened_def signal_closed_def addAudio_def local_candidate_def
        intro!: obeys_intros split: option.split)
qed

lemma shares_put:
  "shares (layout_of p) va \<Longrightarrow> shares p (put_layout va p)"
  "shares (servers_of n p) vb \<Longrightarrow> shares p (put_servers n vb p)"
  "shares (channels_of n p) vc \<Longrightarrow> shares p (put_channels n vc p)"
  "shares (view_of n p) vd \<Longrightarrow> shares p (put_view n vd p)"
  "shares (list_of i p) ve \<Longrightarrow> shares p (put_list i ve p)"
  "shares (voice_of i p) vf \<Longrightarrow> shares p (put_voice i vf p)"
  "shares (tips_of n p) vg \<Longrightarrow> shares p (put_tips n vg p)"
  by (simp_all add: shares_def)

lemmas lifted_shares =
  layout_lens.obeys_lift [where R = shares and R' = shares, OF shares_put(1) layout_shares]
  servers_lens.obeys_lift [where R = shares and R' = shares, OF shares_put(2) servers_shares]
  channels_lens.obeys_lift [where R = shares and R' = shares, OF shares_put(3) channels_shares]
  view_lens.obeys_lift [where R = shares and R' = shares, OF shares_put(4) view_shares]
  list_lens.obeys_lift [where R = shares and R' = shares, OF shares_put(5) list_shares]
  voice_lens.obeys_lift [where R = shares and R' = shares, OF shares_put(6) voice_shares]
  tips_lens.obeys_lift [where R = shares and R' = shares, OF shares_put(7) tips_shares]

lemma app_shares: "obeys shares (app_handler S ev)"
  by (cases ev) (simp_all add: lifted_shares)

text \<open>
  What the shared storage keeps: every item but the two tokens; the refresh token, until it goes
  away together with a navigation to the login page; and an access token as long as there is a
  refresh token.
\<close>

definition page_session :: "browser \<Rightarrow> 'z browser_scheme \<Rightarrow> bool" where
  "page_session b p \<longleftrightarrow>
     (\<forall>k. k \<noteq> ''access_token'' \<and> k \<noteq> ''refresh_token'' \<longrightarrow> getItem p k = getItem b k) \<and>
     (getItem p ''refresh_token'' = getItem b ''refresh_token'' \<and>
        (getItem b ''access_token'' \<noteq> None \<longrightarrow> getItem p ''access_token'' \<noteq> None) \<or>
      getItem p ''refresh_token'' = None \<and> ''/login'' \<in> set (hrefs p)) \<and>
     (\<exists>us. hrefs p = hrefs b @ us)"

lemma page_session_shares: "shares p p' \<Longrightarrow> page_session b p \<Longrightarrow> page_session b p'"
  unfolding shares_def page_session_def getItem_def by (elim disjE exE conjE; simp; blast?)

interpretation page_storage: component "app_enabled S" "app_handler S" "app_init S b" "page_session b" for S b
proof
  show "page_session b (app_init S b)" by (simp add: page_session_def getItem_def app_init_def)
qed (rule wp_obeys [OF page_session_shares app_shares])

section \<open>The whole client\<close>

text \<open>C2. Whatever is shown in a window and however its parts interleave over the one storage they
  share: no stored item but the two tokens ever changes; the refresh token goes away only together
  with a navigation to the login page; and as long as it is there, so is the access token.\<close>

theorem page_shares_session:
  assumes "app_reachable S b (p, ts)"
  shows "(\<forall>k. k \<noteq> ''access_token'' \<and> k \<noteq> ''refresh_token'' \<longrightarrow> getItem p k = getItem b k) \<and>
    (getItem p ''refresh_token'' = getItem b ''refresh_token'' \<and>
       (getItem b ''access_token'' \<noteq> None \<longrightarrow> getItem p ''access_token'' \<noteq> None) \<or>
     getItem p ''refresh_token'' = None \<and> ''/login'' \<in> set (hrefs p))"
  using page_storage.invariant [OF assms] unfolding page_session_def by (elim conjE) (intro conjI)

definition demo_setting :: setting where
  "demo_setting =
     \<lparr>s_env = demo_env, s_desktop = False, s_refuses = (\<lambda>_. False), s_cents = (\<lambda>_. None), s_path = Some ''/'',
      s_paths = (\<lambda>_. ''/''), s_view = (\<lambda>_. (''s'', ''a'')), s_list = (\<lambda>_. (''a'', None, [])),
      s_voice = (\<lambda>_. (''v'', ''Talk''))\<rparr>"

definition expired_browser :: browser where
  "expired_browser = \<lparr>storage = [''refresh_token'' \<mapsto> ''r'', ''theme'' \<mapsto> ''dark''], hrefs = []\<rparr>"

lemmas app_start = demo_setting_def expired_browser_def demo_env_def app_inits sidebar_init_def
  layout_effect_def layout_view_def isAuthPage_def normalizedPathname_def

lemma session_lost_page:
  "\<exists>p ts. exec (app_enabled demo_setting) (app_handler demo_setting)
      [Event (OnLayout LayoutMount), Event (OnServers 0 SidebarMount), Answer 1 0 (HttpResp \<lparr>status = 401, body = None\<rparr>),
       Answer 1 0 (HttpResp \<lparr>status = 401, body = None\<rparr>)]
      (app_init demo_setting expired_browser, []) = Some (p, ts) \<and> hrefs p = [''/login'']"
  by (simp add: app_start parts fetchServers_def apiFetch_def refresh_and_retry_def io_simps Let_def ok_def getItem_def
      end_session_def set_href_def removeItem_def)

theorem page_shares_session_witness:
  "\<exists>p ts. app_reachable demo_setting expired_browser (p, ts) \<and> hrefs p = [''/login''] \<and>
    getItem p ''theme'' = Some ''dark''"
proof -
  obtain p ts where r: "app_reachable demo_setting expired_browser (p, ts)" and h: "hrefs p = [''/login'']"
    using session_lost_page by (blast intro: exec_reachable_init)
  from page_shares_session [OF r, THEN conjunct1] have "getItem p ''theme'' = getItem expired_browser ''theme''"
    by simp
  with r h show ?thesis by (auto simp: expired_browser_def getItem_def)
qed



text \<open>C5. What the parts of the window hold stays in order among all the others: no channel view holds a message
  twice and no list is handed one twice, and a microphone that is on or a signaling socket that is
  live belongs to the call of the one voice view that refers to it.\<close>

theorem page_parts_stay_tidy:
  assumes "app_reachable S b (p, ts)"
  shows "distinct (map message_id (extraMessages (view_of n p))) \<and>
    (ml_life (list_of i p) \<noteq> Fresh \<longrightarrow> distinct (map message_id (ml_extra (list_of i p)))) \<and>
    (\<forall>j<length (mics (voice_of i p)). mics (voice_of i p) ! j \<longrightarrow> localStream (voice_of i p) = Some j \<and>
       (joinedRef (voice_of i p) \<or> v_joining (voice_of i p))) \<and>
    (\<forall>k<length (v_sockets (voice_of i p)). live (v_sockets (voice_of i p) ! k) \<longrightarrow>
       v_wsRef (voice_of i p) = Some k \<and> joinedRef (voice_of i p))"
proof -
  have "distinct (map message_id (extraMessages (view_of n p)))"
    using page_ids.invariant [OF assms] by (simp add: ids_distinct_def)
  moreover have "ml_life (list_of i p) \<noteq> Fresh \<longrightarrow> distinct (map message_id (ml_extra (list_of i p)))"
    using page_lists.invariant [OF assms, of i] unfolding handed_def by blast
  moreover note tidy_held [OF page_calls.invariant [OF assms]]
  ultimately show ?thesis by blast
qed

theorem page_parts_stay_tidy_witness:
  "\<exists>p ts. app_reachable demo_setting expired_browser (p, ts) \<and> ml_life (list_of (0, 0) p) = Mounted \<and>
    distinct (map message_id (ml_extra (list_of (0, 0) p)))"
proof -
  have "\<exists>p ts. exec (app_enabled demo_setting) (app_handler demo_setting)
      [Event (OnView 0 (View Mount)), Event (OnList (0, 0) ListMount)]
      (app_init demo_setting expired_browser, []) = Some (p, ts) \<and> ml_life (list_of (0, 0) p) = Mounted"
    by (simp add: app_start parts load_info_def run_channel run_list list_props_def props_event_def load_effect_def
        start_load_def initial_load_def)
  then obtain p ts where r: "app_reachable demo_setting expired_browser (p, ts)"
    and m: "ml_life (list_of (0, 0) p) = Mounted"
    using exec_reachable_init by metis
  from page_parts_stay_tidy [OF r, THEN conjunct2, THEN conjunct1, of "(0, 0)"] r m show ?thesis by auto
qed

end
