(* ===== verification/Scrolling.thy ===== *)
theory Scrolling
  imports MessageList
begin

text \<open>
  The scroll position of \<open>MessageList.tsx\<close>: to the end after the first page, along with new
  messages for a reader who is near the end, and kept in place when an older page is put on
  top. The heights come from the browser's layout and are a parameter.
\<close>

section \<open>Layout\<close>

text \<open>
  A row's height depends on the message above it, with which it may be grouped; \<open>around\<close> is
  the sentinel and the padding.
\<close>

record layout =
  row_height :: "message option \<Rightarrow> message \<Rightarrow> int"
  around :: int
  spinner :: int
  empty_height :: int
  client_height :: int

record scrolled_list = message_list +
  scroll_top :: int
  initialScrolled :: bool
  prevExtraLen :: nat
  frames_due :: "int list"

fun rows_height :: "layout \<Rightarrow> message option \<Rightarrow> message list \<Rightarrow> int" where
  "rows_height L prev [] = 0"
| "rows_height L prev (m # ms) = row_height L prev m + rows_height L (Some m) ms"

definition list_height :: "layout \<Rightarrow> 'z message_list_scheme \<Rightarrow> int" where
  "list_height L w =
     around L + (if loadingMore w then spinner L else 0) +
     (if allMessages w = [] then empty_height L else rows_height L None (allMessages w))"

definition scrollHeight :: "layout \<Rightarrow> 'z message_list_scheme \<Rightarrow> int" where
  "scrollHeight L w = max (client_height L) (list_height L w)"

definition max_scroll :: "layout \<Rightarrow> 'z message_list_scheme \<Rightarrow> int" where
  "max_scroll L w = scrollHeight L w - client_height L"

text \<open>Setting \<open>scrollTop\<close>, which the browser keeps in range.\<close>

definition scroll_to :: "layout \<Rightarrow> int \<Rightarrow> 'z scrolled_list_scheme \<Rightarrow> 'z scrolled_list_scheme" where
  "scroll_to L x w = w\<lparr>scroll_top := max 0 (min x (max_scroll L w))\<rparr>"

section \<open>The effects\<close>

text \<open>While the list is loading there is no element to scroll.\<close>

definition scroll_initial :: "layout \<Rightarrow> 'z scrolled_list_scheme \<Rightarrow> 'z scrolled_list_scheme" where
  "scroll_initial L w =
     (if \<not> loading w \<and> \<not> initialScrolled w
      then (scroll_to L (scrollHeight L w) w)\<lparr>initialScrolled := True\<rparr> else w)"

definition scroll_new :: "layout \<Rightarrow> 'z scrolled_list_scheme \<Rightarrow> 'z scrolled_list_scheme" where
  "scroll_new L w =
     (let n = length (ml_extra w); w' = w\<lparr>prevExtraLen := n\<rparr> in
      if n \<le> prevExtraLen w \<or> loading w then w'
      else let nearBottom = (scrollHeight L w - scroll_top w - client_height L < 150) in
        if nearBottom then scroll_to L (scrollHeight L w) w' else w')"

text \<open>The animation frame that was asked for when the list was \<open>prevHeight\<close> high.\<close>

definition keep_view :: "layout \<Rightarrow> int \<Rightarrow> 'z scrolled_list_scheme \<Rightarrow> 'z scrolled_list_scheme" where
  "keep_view L prevHeight w =
     (if loading w then w else scroll_to L (scroll_top w + (scrollHeight L w - prevHeight)) w)"

text \<open>
  What follows a turn that took the state from \<open>w\<close> to \<open>w'\<close>: layout, with a new element after
  loading, then the effects whose dependencies have changed, in the order of the code.
\<close>

definition commit :: "layout \<Rightarrow> 'z scrolled_list_scheme \<Rightarrow> 'z scrolled_list_scheme \<Rightarrow> 'z scrolled_list_scheme" where
  "commit L w w' =
     (let w0 = scroll_to L (if loading w' then 0 else scroll_top w') w';
          w1 = (if load_run w' \<noteq> load_run w then w0\<lparr>initialScrolled := False\<rparr> else w0);
          w2 = (if loading w' \<noteq> loading w \<or> messages w' \<noteq> messages w then scroll_initial L w1 else w1)
      in if ml_extra w' \<noteq> ml_extra w then scroll_new L w2 else w2)"

datatype scroll_event = Page list_event | Painted | ReaderScrolls int

fun scroll_handler ::
  "layout \<Rightarrow> env \<Rightarrow> scroll_event \<Rightarrow> ('z scrolled_list_scheme, unit) io" where
  "scroll_handler L e (Page ev) =
     (if ev = TopVisible
      then load_more_then (scrollHeight L) (\<lambda>h w. w\<lparr>frames_due := frames_due w @ [h]\<rparr>) e
      else list_handler e ev)"
| "scroll_handler L e Painted = upd (\<lambda>w. (fold (keep_view L) (frames_due w) w)\<lparr>frames_due := []\<rparr>)"
| "scroll_handler L e (ReaderScrolls x) = upd (scroll_to L x)"

fun scroll_enabled :: "scroll_event \<Rightarrow> 'z scrolled_list_scheme \<Rightarrow> bool" where
  "scroll_enabled (Page ev) w = list_enabled ev w"
| "scroll_enabled Painted w = (frames_due w \<noteq> [])"
| "scroll_enabled (ReaderScrolls x) w = (ml_life w = Mounted \<and> \<not> loading w)"

definition scroll_step ::
  "layout \<Rightarrow> env \<Rightarrow> scroll_event turn \<Rightarrow> 'z scrolled_list_scheme \<times> 'z scrolled_list_scheme threads \<Rightarrow>
     ('z scrolled_list_scheme \<times> 'z scrolled_list_scheme threads) option" where
  "scroll_step L e t c =
     map_option (\<lambda>(w', ts'). (commit L (fst c) w', ts')) (sched_step scroll_enabled (scroll_handler L e) t c)"

fun scroll_run ::
  "layout \<Rightarrow> env \<Rightarrow> scroll_event turn list \<Rightarrow> 'z scrolled_list_scheme \<times> 'z scrolled_list_scheme threads \<Rightarrow>
     ('z scrolled_list_scheme \<times> 'z scrolled_list_scheme threads) option" where
  "scroll_run L e [] c = Some c"
| "scroll_run L e (t # ts) c = Option.bind (scroll_step L e t c) (scroll_run L e ts)"

section \<open>New messages\<close>

fun arriving :: "string \<Rightarrow> string option \<Rightarrow> message list \<Rightarrow> message list \<Rightarrow> scroll_event turn list" where
  "arriving ch u extra [] = []"
| "arriving ch u extra (m # ms) =
     Event (Page (ListProps ch u (extra @ [m]))) # arriving ch u (extra @ [m]) ms"

lemma rows_height_append:
  "rows_height L prev (xs @ ys) =
     rows_height L prev xs + rows_height L (if xs = [] then prev else Some (last xs)) ys"
  by (induction xs arbitrary: prev) auto

lemma seen_fields [simp]:
  "allMessages (w\<lparr>scroll_top := x\<rparr>) = allMessages w" "allMessages (w\<lparr>prevExtraLen := n\<rparr>) = allMessages w"
  "scrollHeight L (w\<lparr>scroll_top := x\<rparr>) = scrollHeight L w" "scrollHeight L (w\<lparr>prevExtraLen := n\<rparr>) = scrollHeight L w"
  "max_scroll L (w\<lparr>scroll_top := x\<rparr>) = max_scroll L w" "max_scroll L (w\<lparr>prevExtraLen := n\<rparr>) = max_scroll L w"
  "allMessages (w\<lparr>frames_due := fs\<rparr>) = allMessages w" "scrollHeight L (w\<lparr>frames_due := fs\<rparr>) = scrollHeight L w"
  "max_scroll L (w\<lparr>frames_due := fs\<rparr>) = max_scroll L w"
  by (simp_all add: allMessages_def max_scroll_def scrollHeight_def list_height_def)

text \<open>The state in which a message has arrived, before the effects.\<close>

definition arrived :: "string option \<Rightarrow> message \<Rightarrow> 'z scrolled_list_scheme \<Rightarrow> 'z scrolled_list_scheme" where
  "arrived u m w = w\<lparr>currentUserId := u, ml_extra := ml_extra w @ [m]\<rparr>"

lemma arrived_fields [simp]:
  "scroll_top (arrived u m w) = scroll_top w" "ml_life (arrived u m w) = ml_life w"
  "ml_extra (arrived u m w) = ml_extra w @ [m]" "loading (arrived u m w) = loading w"
  "prevExtraLen (arrived u m w) = prevExtraLen w" "ml_channelId (arrived u m w) = ml_channelId w"
  by (simp_all add: arrived_def)

lemma all_arrived:
  "allMessages (arrived u m w) =
     allMessages w @ (if message_id m \<in> message_id ` set (messages w) then [] else [m])"
  by (simp add: allMessages_def merge_def arrived_def)

lemma height_arrived:
  assumes "allMessages w \<noteq> []"
  shows "list_height L (arrived u m w) = list_height L w +
    (if message_id m \<in> message_id ` set (messages w) then 0 else row_height L (Some (last (allMessages w))) m)"
  using assms by (simp add: list_height_def all_arrived rows_height_append) (simp add: arrived_def)

lemma scroll_grows:
  assumes "allMessages w \<noteq> []" "\<forall>p. 0 \<le> row_height L p m"
  shows "max_scroll L w \<le> max_scroll L (arrived u m w)"
    and "\<forall>p. row_height L p m < 150 \<Longrightarrow> max_scroll L (arrived u m w) < max_scroll L w + 150"
proof -
  define r where "r = (if message_id m \<in> message_id ` set (messages w) then 0 else row_height L (Some (last (allMessages w))) m)"
  have "0 \<le> r" "list_height L (arrived u m w) = list_height L w + r"
    using assms height_arrived [OF assms(1)] by (simp_all add: r_def)
  then show "max_scroll L w \<le> max_scroll L (arrived u m w)" by (simp add: max_scroll_def scrollHeight_def)
  assume "\<forall>p. row_height L p m < 150"
  then have "r < 150" by (simp add: r_def)
  with \<open>list_height L (arrived u m w) = list_height L w + r\<close>
  show "max_scroll L (arrived u m w) < max_scroll L w + 150" by (auto simp: max_scroll_def scrollHeight_def)
qed

lemma scroll_new_grown:
  assumes "\<not> loading v" "prevExtraLen v < length (ml_extra v)" "0 \<le> scroll_top v" "scroll_top v \<le> max_scroll L v"
    and "0 \<le> client_height L"
  shows "scroll_new L v =
    (if max_scroll L v - scroll_top v < 150 then v\<lparr>prevExtraLen := length (ml_extra v), scroll_top := max_scroll L v\<rparr>
     else v\<lparr>prevExtraLen := length (ml_extra v)\<rparr>)"
proof -
  have "scrollHeight L v - scroll_top v - client_height L = max_scroll L v - scroll_top v" by (simp add: max_scroll_def)
  moreover have "max 0 (min (scrollHeight L v) (max_scroll L v)) = max_scroll L v"
    using assms(3-5) by (simp add: max_scroll_def)
  ultimately show ?thesis
    using assms(1,2) by (simp add: scroll_new_def Let_def scroll_to_def)
qed

lemma arrival:
  assumes "ml_life w = Mounted" "\<not> loading w" "prevExtraLen w = length (ml_extra w)" "0 \<le> client_height L"
    and "0 \<le> scroll_top w" "scroll_top w \<le> max_scroll L (arrived u m w)"
  shows "scroll_step L e (Event (Page (ListProps (ml_channelId w) u (ml_extra w @ [m])))) (w, ts) =
    Some (scroll_new L (arrived u m w), ts @ [Ret ()])"
proof -
  let ?v = "arrived u m w"
  have "scroll_step L e (Event (Page (ListProps (ml_channelId w) u (ml_extra w @ [m])))) (w, ts) =
      Some (commit L w ?v, ts @ [Ret ()])"
    using assms(1) by (simp add: scroll_step_def arrived_def Let_def)
  moreover have "commit L w ?v = scroll_new L (scroll_to L (scroll_top w) ?v)"
    using assms(2) by (simp add: commit_def Let_def) (simp add: arrived_def)
  moreover have "scroll_to L (scroll_top w) ?v = ?v"
    using assms(5,6) by (simp add: scroll_to_def)
  ultimately show ?thesis by simp
qed

text \<open>A reader of a loaded list, and one at its end.\<close>

definition reading :: "layout \<Rightarrow> 'z scrolled_list_scheme \<Rightarrow> bool" where
  "reading L w \<longleftrightarrow> ml_life w = Mounted \<and> \<not> loading w \<and> allMessages w \<noteq> [] \<and> prevExtraLen w = length (ml_extra w) \<and>
     0 \<le> scroll_top w \<and> scroll_top w \<le> max_scroll L w"

definition at_end :: "layout \<Rightarrow> 'z scrolled_list_scheme \<Rightarrow> bool" where
  "at_end L w \<longleftrightarrow> scroll_top w = max_scroll L w"

lemma arrival_reading:
  assumes "reading L w" "0 \<le> client_height L" "\<forall>p. 0 \<le> row_height L p m"
  obtains w' where "scroll_step L e (Event (Page (ListProps (ml_channelId w) u (ml_extra w @ [m])))) (w, ts) = Some (w', ts @ [Ret ()])"
    "reading L w'" "ml_extra w' = ml_extra w @ [m]" "ml_channelId w' = ml_channelId w"
    "at_end L w \<Longrightarrow> \<forall>p. row_height L p m < 150 \<Longrightarrow> at_end L w'"
    "scroll_top w + 150 \<le> max_scroll L w \<Longrightarrow> scroll_top w' = scroll_top w \<and> scroll_top w' + 150 \<le> max_scroll L w'"
proof
  let ?v = "arrived u m w"
  let ?w = "scroll_new L ?v"
  have w: "ml_life w = Mounted" "\<not> loading w" "allMessages w \<noteq> []" "prevExtraLen w = length (ml_extra w)"
    "0 \<le> scroll_top w" "scroll_top w \<le> max_scroll L w" using assms(1) by (simp_all add: reading_def)
  note g = scroll_grows [OF w(3) assms(3), where u = u]
  have s: "scroll_top w \<le> max_scroll L ?v" using w(6) g(1) by simp
  show "scroll_step L e (Event (Page (ListProps (ml_channelId w) u (ml_extra w @ [m])))) (w, ts) = Some (?w, ts @ [Ret ()])"
    by (rule arrival [OF w(1,2,4) assms(2) w(5) s])
  have n: "?w = (if max_scroll L ?v - scroll_top w < 150
      then ?v\<lparr>prevExtraLen := Suc (length (ml_extra w)), scroll_top := max_scroll L ?v\<rparr>
      else ?v\<lparr>prevExtraLen := Suc (length (ml_extra w))\<rparr>)"
    using scroll_new_grown [of ?v L] w s assms(2) by simp
  show "ml_extra ?w = ml_extra w @ [m]" "ml_channelId ?w = ml_channelId w" by (simp_all add: n)
  show "reading L ?w" using w s g(1) by (simp add: n reading_def all_arrived)
  show "at_end L ?w" if "at_end L w" "\<forall>p. row_height L p m < 150"
    using that g(2) by (simp add: n at_end_def)
  show "scroll_top ?w = scroll_top w \<and> scroll_top ?w + 150 \<le> max_scroll L ?w" if "scroll_top w + 150 \<le> max_scroll L w"
    using that g(1) by (simp add: n)
qed

text \<open>C18. New messages are followed by a reader at the end of the list, as long as each row is lower than 150
  pixels, and do not move a reader who has scrolled up by 150 pixels or more.\<close>

theorem new_messages_followed:
  assumes "reading L w" "0 \<le> client_height L" "\<forall>m\<in>set ms. \<forall>p. 0 \<le> row_height L p m"
  shows "\<exists>w' ts'. scroll_run L e (arriving (ml_channelId w) u (ml_extra w) ms) (w, ts) = Some (w', ts') \<and>
    ml_extra w' = ml_extra w @ ms \<and>
    (at_end L w \<and> (\<forall>m\<in>set ms. \<forall>p. row_height L p m < 150) \<longrightarrow> at_end L w') \<and>
    (scroll_top w + 150 \<le> max_scroll L w \<longrightarrow> scroll_top w' = scroll_top w)"
  using assms(1,3)
proof (induction ms arbitrary: w ts)
  case (Cons m ms)
  from Cons.prems(2) have "\<forall>p. 0 \<le> row_height L p m" by simp
  from arrival_reading [OF Cons.prems(1) assms(2) this, of e u ts] obtain v where
    v: "scroll_step L e (Event (Page (ListProps (ml_channelId w) u (ml_extra w @ [m])))) (w, ts) = Some (v, ts @ [Ret ()])"
      "reading L v" "ml_extra v = ml_extra w @ [m]" "ml_channelId v = ml_channelId w"
      "at_end L w \<Longrightarrow> \<forall>p. row_height L p m < 150 \<Longrightarrow> at_end L v"
      "scroll_top w + 150 \<le> max_scroll L w \<Longrightarrow> scroll_top v = scroll_top w \<and> scroll_top v + 150 \<le> max_scroll L v"
    by metis
  from Cons.IH [OF v(2), of "ts @ [Ret ()]"] Cons.prems(2) v show ?case by fastforce
qed simp

text \<open>
  A message of 150 pixels or more is not followed, not even by a reader at the very end: the
  distance is measured when the message is already there.
\<close>

theorem tall_message_not_followed:
  assumes "reading L w" "at_end L w" "0 \<le> client_height L" "client_height L \<le> list_height L w"
    and "message_id m \<notin> message_id ` set (messages w)" "\<forall>p. 150 \<le> row_height L p m"
  shows "\<exists>w'. scroll_step L e (Event (Page (ListProps (ml_channelId w) u (ml_extra w @ [m])))) (w, ts) = Some (w', ts @ [Ret ()]) \<and>
    scroll_top w' = scroll_top w \<and> scroll_top w' + 150 \<le> max_scroll L w'"
proof -
  let ?v = "arrived u m w"
  have w: "ml_life w = Mounted" "\<not> loading w" "allMessages w \<noteq> []" "prevExtraLen w = length (ml_extra w)"
    "0 \<le> scroll_top w" "scroll_top w = max_scroll L w" using assms(1,2) by (simp_all add: reading_def at_end_def)
  have "list_height L w + 150 \<le> list_height L ?v" using height_arrived [OF w(3), of L u m] assms(5,6) by simp
  then have h: "scroll_top w + 150 \<le> max_scroll L ?v" using w(6) assms(4) by (simp add: max_scroll_def scrollHeight_def)
  have "scroll_step L e (Event (Page (ListProps (ml_channelId w) u (ml_extra w @ [m])))) (w, ts) = Some (scroll_new L ?v, ts @ [Ret ()])"
    by (rule arrival [OF w(1,2,4) assms(3) w(5)]) (use h in simp)
  moreover have "scroll_new L ?v = ?v\<lparr>prevExtraLen := length (ml_extra ?v)\<rparr>"
    using scroll_new_grown [of ?v L] w(2,4,5) h assms(3) by simp
  ultimately show ?thesis using h by simp
qed

section \<open>Older messages\<close>

text \<open>The program that waits for an older page.\<close>

definition older_path :: "'z scrolled_list_scheme \<Rightarrow> string" where
  "older_path w = ''/channels/'' @ ml_channelId w @ ''/messages?'' @ page_params (Some (message_id (hd (messages w))))"

definition put_older :: "page \<Rightarrow> int \<Rightarrow> 'z scrolled_list_scheme \<Rightarrow> 'z scrolled_list_scheme" where
  "put_older p h v = v\<lparr>messages := rev (p_messages p) @ messages v, hasMore := p_has_more p, frames_due := frames_due v @ [h]\<rparr>"

definition older_waits :: "env \<Rightarrow> int \<Rightarrow> 'z scrolled_list_scheme \<Rightarrow> ('z scrolled_list_scheme, unit) io" where
  "older_waits e h v =
     Await [HttpFetch (api_request e (older_path v) no_init (first_headers e no_init v))] (\<lambda>_ x.
       finally_do
         (try_catch
            (bind (bind (api_answer e (older_path v) no_init v x)
                (\<lambda>res. if \<not> ok res then Throw (ErrorMsg (show_int (status res))) else read_as as_page res))
              (\<lambda>p. upd (put_older p h)))
            (\<lambda>_. skip))
         (\<lambda>w. w\<lparr>loadingMore := False\<rparr>))"

lemma spinner_grows: "\<not> loadingMore w \<Longrightarrow> 0 \<le> spinner L \<Longrightarrow> max_scroll L w \<le> max_scroll L (w\<lparr>loadingMore := True\<rparr>)"
  by (auto simp: max_scroll_def scrollHeight_def list_height_def allMessages_def intro: max.coboundedI2)

text \<open>A turn after which no effect runs.\<close>

lemma commit_still:
  assumes "loading w' = loading w" "\<not> loading w'" "load_run w' = load_run w" "ml_extra w' = ml_extra w"
    and "initialScrolled w' \<or> messages w' = messages w" "0 \<le> scroll_top w'" "scroll_top w' \<le> max_scroll L w'"
  shows "commit L w w' = w'"
  using assms by (auto simp: commit_def scroll_to_def scroll_initial_def Let_def)

lemma older_asked:
  assumes "reading L w" "hasMore w" "\<not> loadingMore w" "messages w \<noteq> []" "message_id (hd (messages w)) \<noteq> []" "0 \<le> spinner L"
  shows "\<exists>v. scroll_step L e (Event (Page TopVisible)) (w, ts) =
      Some (w\<lparr>loadingMore := True\<rparr>, ts @ [older_waits e (scrollHeight L w) v])"
proof -
  obtain m ms where m: "messages w = m # ms" "message_id m \<noteq> []" using assms(4,5) by (cases "messages w") auto
  let ?w = "w\<lparr>loadingMore := True\<rparr>"
  have "seg (scroll_handler L e (Page TopVisible)) w = (?w, [], older_waits e (scrollHeight L w) ?w)"
    using assms(1,2,3) m
    by (simp add: load_more_then_def reading_def fetchMessages_def apiFetch_waits older_waits_def older_path_def
        put_older_def [abs_def])
  then have "scroll_step L e (Event (Page TopVisible)) (w, ts) = Some (commit L w ?w, ts @ [older_waits e (scrollHeight L w) ?w])"
    using assms(1) by (simp add: scroll_step_def reading_def)
  moreover have "max_scroll L w \<le> max_scroll L ?w" by (rule spinner_grows [OF assms(3,6)])
  with assms(1) have "commit L w ?w = ?w" by (simp add: commit_def scroll_to_def reading_def Let_def)
  ultimately show ?thesis by auto
qed

lemma older_answered:
  assumes "n < length ts" "ts ! n = older_waits e h v" "ok r" "body r = Some j" "as_page j = Some p"
  shows "\<exists>t. scroll_step L e (Answer n 0 (HttpResp r)) (w, ts) = Some (commit L w w, ts[n := t]) \<and>
    (\<forall>L w ts x. n < length ts \<longrightarrow> ts ! n = t \<longrightarrow> scroll_step L e (Answer n 0 x) (w, ts) =
       Some (commit L w ((put_older p h w)\<lparr>loadingMore := False\<rparr>), ts[n := Ret ()]))"
proof -
  have "status r \<noteq> 401" using assms(3) by (auto simp: ok_def)
  with assms show ?thesis by (auto simp: scroll_step_def older_waits_def api_answered io_simps upd_def)
qed

text \<open>Where the \<open>i\<close>th row is on the screen, from the row area's top.\<close>

definition row_at :: "layout \<Rightarrow> 'z scrolled_list_scheme \<Rightarrow> nat \<Rightarrow> int" where
  "row_at L w i = rows_height L None (take i (allMessages w)) - scroll_top w"

lemma rows_pushed_down:
  assumes "0 < i" "i \<le> length ms"
  shows "rows_height L None (take (length os + i) (os @ ms)) =
    rows_height L None (take i ms) + (rows_height L None (os @ [hd ms]) - row_height L None (hd ms))"
proof -
  obtain m ms' k where m: "ms = m # ms'" "i = Suc k" using assms by (cases ms; cases i) auto
  show ?thesis by (simp add: m rows_height_append)
qed

text \<open>C19. An older page does not make the screen jump: the reader reaches the top, the page is asked for, comes
  and is put above; when the next frame is painted every message but the first, which may now be
  grouped with the one above it, is where it was.\<close>

theorem view_does_not_jump:
  fixes w :: scrolled_list
  assumes "reading L w" "initialScrolled w" "hasMore w" "\<not> loadingMore w" "frames_due w = []"
    and "messages w = m # ms" "message_id m \<noteq> []" "0 \<le> spinner L" "client_height L \<le> list_height L w"
    and "ok r" "body r = Some j" "as_page j = Some p"
    and "set (map message_id (p_messages p)) \<inter> set (map message_id (ml_extra w)) = {}"
    and "row_height L None m \<le> rows_height L None (rev (p_messages p) @ [m])"
  shows "\<exists>w'. scroll_run L e
      [Event (Page TopVisible), Answer (length ts) 0 (HttpResp r), Answer (length ts) 0 x, Event Painted] (w, ts) =
      Some (w', ts @ [Ret (), Ret ()]) \<and>
    allMessages w' = rev (p_messages p) @ allMessages w \<and>
    (\<forall>i. 0 < i \<and> i < length (allMessages w) \<longrightarrow> row_at L w' (length (p_messages p) + i) = row_at L w i)"
proof -
  let ?n = "length ts" and ?h = "scrollHeight L w"
  define v where "v = w\<lparr>loadingMore := True\<rparr>"
  define u where "u = (put_older p ?h v)\<lparr>loadingMore := False\<rparr>"
  define u' where "u' = u\<lparr>frames_due := [], scroll_top := scroll_top w + (scrollHeight L u - ?h)\<rparr>"
  define d where "d = rows_height L None (rev (p_messages p) @ [m]) - row_height L None m"
  have w: "ml_life w = Mounted" "\<not> loading w" "allMessages w \<noteq> []" "0 \<le> scroll_top w" "scroll_top w \<le> max_scroll L w"
    using assms(1) by (simp_all add: reading_def)
  from older_asked [OF assms(1,3,4) _ _ assms(8), of e ts] assms(6,7) obtain v0 where
    1: "scroll_step L e (Event (Page TopVisible)) (w, ts) = Some (v, ts @ [older_waits e ?h v0])" by (auto simp: v_def)
  have all: "allMessages u = rev (p_messages p) @ allMessages w"
    using assms(13) by (auto simp: u_def put_older_def v_def allMessages_def merge_def intro!: filter_cong)
  have hd: "hd (allMessages w) = m" by (simp add: allMessages_def merge_def assms(6))
  have rows: "rows_height L None (allMessages u) = rows_height L None (allMessages w) + d"
    using rows_pushed_down [of "length (allMessages w)" "allMessages w" L "rev (p_messages p)"] w(3)
    by (simp add: all hd d_def)
  have "list_height L u = list_height L w + d"
    using w(3) assms(4) rows all by (simp add: list_height_def) (simp add: u_def)
  moreover have "0 \<le> d" using assms(14) by (simp add: d_def)
  ultimately have hu: "scrollHeight L u = ?h + d" "0 \<le> d" using assms(9) by (simp_all add: scrollHeight_def)
  have r: "max_scroll L w \<le> max_scroll L v" unfolding v_def by (rule spinner_grows [OF assms(4,8)])
  have f: "initialScrolled u" "scroll_top u = scroll_top w" "frames_due u = [?h]" "loading u = loading w"
    "load_run u = load_run w" "ml_extra u = ml_extra w" "initialScrolled v" "scroll_top v = scroll_top w" "loading v = loading w"
    "load_run v = load_run w" "ml_extra v = ml_extra w" "ml_life u = ml_life w"
    using assms(2,5) by (simp_all add: u_def v_def put_older_def)
  have s: "0 \<le> scroll_top w" "scroll_top w \<le> max_scroll L v" "scroll_top w + d \<le> max_scroll L u" "scroll_top w \<le> max_scroll L u"
    using w(4,5) r hu by (simp_all add: max_scroll_def)
  have "commit L v v = v" "commit L v u = u"
    by (rule commit_still; simp add: f w s)+
  moreover from older_answered [of ?n "ts @ [older_waits e ?h v0]", OF _ _ assms(10,11,12)] obtain t where
    "scroll_step L e (Answer ?n 0 (HttpResp r)) (v, ts @ [older_waits e ?h v0]) = Some (commit L v v, ts @ [t])"
    "scroll_step L e (Answer ?n 0 x) (v, ts @ [t]) = Some (commit L v u, ts @ [Ret ()])"
    by (force simp: u_def)
  moreover have "scroll_step L e (Event Painted) (u, ts @ [Ret ()]) = Some (u', ts @ [Ret (), Ret ()])"
  proof -
    have "seg (scroll_handler L e Painted) u = (u', [], Ret ())"
      using w(2) s hu f by (simp add: upd_def keep_view_def scroll_to_def u'_def)
    moreover have "commit L u u' = u'"
      by (rule commit_still) (use w(2) s hu f in \<open>simp_all add: u'_def\<close>)
    ultimately show ?thesis using f(3) by (simp add: scroll_step_def)
  qed
  moreover have "row_at L u' (length (p_messages p) + i) = row_at L w i" if "0 < i" "i < length (allMessages w)" for i
    using rows_pushed_down [of i "allMessages w" L "rev (p_messages p)"] that hu
    by (simp add: row_at_def u'_def all hd d_def)
  moreover have "allMessages u' = rev (p_messages p) @ allMessages w" unfolding all [symmetric] by (simp add: u'_def)
  ultimately show ?thesis using 1 by simp
qed

section \<open>An example\<close>

definition demo_layout :: layout where
  "demo_layout = \<lparr>row_height = \<lambda>prev m. if prev = None then 60 else 30, around = 20, spinner = 40, empty_height = 80,
     client_height = 50\<rparr>"

definition demo_message :: "string \<Rightarrow> message" where
  "demo_message i = \<lparr>message_id = i, channel_id = ''a'', author_id = ''u1'', content = ''hi'', created_at = ''t0'', username = None\<rparr>"

definition demo_reader :: scrolled_list where
  "demo_reader = message_list.extend
     ((list_init demo_browser ''a'' None [])\<lparr>ml_life := Mounted, loading := False, hasMore := True, messages := [demo_message ''m2'']\<rparr>)
     (scrolled_list.fields 30 True 0 [])"

lemma demo_reader_fields:
  "ml_life demo_reader = Mounted" "\<not> loading demo_reader" "ml_extra demo_reader = []" "prevExtraLen demo_reader = 0"
  "scroll_top demo_reader = 30" "allMessages demo_reader = [demo_message ''m2'']" "initialScrolled demo_reader"
  "hasMore demo_reader" "\<not> loadingMore demo_reader" "frames_due demo_reader = []"
  "messages demo_reader = [demo_message ''m2'']" "ml_channelId demo_reader = ''a''"
  by (simp_all add: demo_reader_def message_list.defs scrolled_list.defs list_init_def allMessages_def merge_def)

lemma demo_reading: "reading demo_layout demo_reader" "at_end demo_layout demo_reader"
  by (simp_all add: reading_def at_end_def demo_reader_fields max_scroll_def scrollHeight_def list_height_def demo_layout_def)

theorem new_messages_followed_witness:
  "\<exists>w' ts'. scroll_run demo_layout demo_env (arriving ''a'' None [] [demo_message ''m3'', demo_message ''m4'']) (demo_reader, []) =
      Some (w', ts') \<and> at_end demo_layout w' \<and> length (ml_extra w') = 2"
proof -
  have "0 \<le> client_height demo_layout"
    "\<forall>m\<in>set [demo_message ''m3'', demo_message ''m4'']. \<forall>p. 0 \<le> row_height demo_layout p m"
    "\<forall>m\<in>set [demo_message ''m3'', demo_message ''m4'']. \<forall>p. row_height demo_layout p m < 150"
    by (simp_all add: demo_layout_def)
  with new_messages_followed [OF demo_reading(1) this(1,2), of demo_env None "[]"] demo_reading(2)
  show ?thesis by (auto simp: demo_reader_fields simp del: scroll_run.simps arriving.simps)
qed

definition demo_older :: json where
  "demo_older = page_json \<lparr>p_messages = [demo_message ''m1''], p_has_more = False\<rparr>"

theorem view_does_not_jump_witness:
  "\<exists>w'. scroll_run demo_layout demo_env
      [Event (Page TopVisible), Answer 0 0 (HttpResp \<lparr>status = 200, body = Some demo_older\<rparr>), Answer 0 0 Rejected, Event Painted]
      (demo_reader, []) = Some (w', [Ret (), Ret ()]) \<and> allMessages w' = [demo_message ''m1'', demo_message ''m2'']"
proof -
  have "message_id (demo_message ''m2'') \<noteq> []" "0 \<le> spinner demo_layout" "client_height demo_layout \<le> list_height demo_layout demo_reader"
    "ok \<lparr>status = 200, body = Some demo_older\<rparr>"
    "set (map message_id (p_messages \<lparr>p_messages = [demo_message ''m1''], p_has_more = False\<rparr>)) \<inter>
       set (map message_id (ml_extra demo_reader)) = {}"
    "row_height demo_layout None (demo_message ''m2'') \<le>
       rows_height demo_layout None (rev (p_messages \<lparr>p_messages = [demo_message ''m1''], p_has_more = False\<rparr>) @ [demo_message ''m2''])"
    by (simp_all add: demo_message_def demo_layout_def list_height_def demo_reader_fields ok_def)
  moreover have "as_page demo_older = Some \<lparr>p_messages = [demo_message ''m1''], p_has_more = False\<rparr>"
    unfolding demo_older_def by (rule as_page_json) (simp add: demo_message_def)
  ultimately show ?thesis
    using view_does_not_jump [OF demo_reading(1) demo_reader_fields(7-11), where e = demo_env and ts = "[]" and x = Rejected and
        r = "\<lparr>status = 200, body = Some demo_older\<rparr>" and j = demo_older and
        p = "\<lparr>p_messages = [demo_message ''m1''], p_has_more = False\<rparr>"]
    by (simp add: demo_reader_fields del: scroll_run.simps rows_height.simps)
qed

end
