(* ===== verification/Spec2Isabelle.thy ===== *)
theory Spec2Isabelle
  imports AuthService AuthPages TipsPage Timestamps Resources Desktop Handshake Page Scrolling
begin

text \<open>
  Concordia, a chat application: its web client (\<open>apps/web-app\<close>, React on Next.js), its desktop
  client (\<open>apps/desktop-app\<close>, Electron around the same pages) and the program that deploys it
  (\<open>infra/cdk\<close>). This development models the TypeScript and JavaScript of the three. The
  services behind the gateway are written in other languages; of them only the contracts the
  clients rest on are here.

  \<^bold>\<open>How programs are modelled.\<close> \<open>Runtime\<close> is the event loop. A handler is a value of type
  \<open>('w, 'a) io\<close> over the state \<open>'w\<close> of its component, a record that extends \<open>Browser.browser\<close>
  (\<open>localStorage\<close> and navigations): it reads and updates the state, throws, awaits calls
  (\<open>fetch\<close>, a promise of the platform, a settled promise) and starts asynchronous functions. It
  runs without interruption to its next \<open>await\<close>; \<open>sched_step\<close> is one turn of the loop, an event
  the page can fire or the answer to a pending call, in any order; \<open>reachable\<close> is what every
  interleaving reaches, \<open>exec\<close> follows one. Exceptions are values of \<open>exn\<close> and are caught where
  the code catches them. The controls a page offers are computed from its markup (\<open>ui\<close> of
  \<open>Prelude\<close>): an event is possible when a control that is shown and not disabled fires it.
  Sockets and timers are objects of the browser with a state of their own (\<open>Sockets\<close>).

  \<^bold>\<open>Interfaces.\<close> The locales of \<open>Runtime\<close> state what a component must show of its handlers to get
  a property of all interleavings: \<open>handlers\<close> and \<open>component\<close> an invariant, \<open>single_flight\<close> and
  \<open>guarded_flight\<close> that a flag guards one operation, \<open>quiet_threads\<close> that suspended handlers
  leave a part of the state alone. \<open>Interference\<close> adds \<open>phased\<close>: the guarded operation goes
  through phases, each with an assertion that the other handlers do not disturb, and the
  invariant follows. \<open>Browser\<close> has the contract of the storage, \<open>Api\<close> what a page must promise to
  call \<open>apiFetch\<close>, \<open>MessageInput\<close> that of \<open>onSend\<close>, \<open>Handshake\<close> that of the relay, \<open>Routes\<close> that of
  the framework's router. Each component
  interprets those it rests on with its own handlers, in its own theory.

  \<^bold>\<open>Composition.\<close> \<open>Composition\<close> puts components on one page: \<open>lens\<close> is a part of a larger state,
  \<open>lift\<close> a program of the part run on the whole, and \<open>placed\<close> the conditions under which what was
  proved of a component alone (an instance of \<open>component\<close>, \<open>guarded_flight\<close> or \<open>phased\<close>) holds on the
  page, whatever the others do; \<open>obeys\<close> is what a program may do to what it shares. \<open>Page\<close> is the
  window: every instance of every component that is ever mounted, over one storage. Its events
  are those of the components, with the props a parent passes taken from the parent's state; which
  route is mounted when is left open, so that the properties hold for every router. An interpretation
  of \<open>placed\<close> for the side bar of the servers, the channel view and the voice view carries their
  guarantees over.

  \<^bold>\<open>The theories and the code.\<close>
  \<^item> \<open>Prelude\<close>: JavaScript strings, JSON, rendered pages, lists with keys. \<open>Runtime\<close>, \<open>Browser\<close>,
    \<open>Sockets\<close>: see above.
  \<^item> \<open>Api\<close>: \<open>lib/api.ts\<close>, \<open>getWebSocketUrl\<close> and \<open>apiFetch\<close> with the refresh of the token.
    Lemmas: how many requests it makes, what it stores, how it ends a session. \<open>AuthService\<close>:
    the rotation of refresh tokens by the auth service, and the two together, one request at a
    time and two at once.
  \<^item> \<open>Auth\<close>: \<open>actions/auth.ts\<close>. \<open>AuthPages\<close>: \<open>login/page.tsx\<close> and \<open>register/page.tsx\<close>, forms that
    are submitted once and when valid.
  \<^item> \<open>Chat\<close>: the data of the chat (messages, channels, users), ISO times. \<open>ChannelView\<close>:
    \<open>components/ChannelView.tsx\<close>, the socket of a channel with its reconnections, and sending with
    a placeholder that the answer and the echo replace. \<open>MessageInput\<close>: \<open>MessageInput.tsx\<close> on a
    channel view. \<open>MessageList\<close>: \<open>MessageList.tsx\<close>, with the paging of \<open>list_messages\<close> of the chat
    service; the main result is that scrolling up reads the history the service holds.
    \<open>Scrolling\<close>: its scroll position, on a layout that is a parameter. \<open>ChannelPage\<close>: the channel view
    with the children it renders. \<open>Timestamps\<close>: the times that are written are read back.
  \<^item> \<open>SendTip\<close>, \<open>TipsPage\<close>: \<open>SendTipModal.tsx\<close>, \<open>app/tips/page.tsx\<close>, with the paging of
    \<open>list_tips\<close> of the tips service.
  \<^item> \<open>ServerSidebar\<close>, \<open>ChannelSidebar\<close>, \<open>Layout\<close>: \<open>ServerSidebar.tsx\<close>, \<open>ChannelSidebar.tsx\<close>,
    \<open>layout.tsx\<close>, the frame around every page. \<open>Routes\<close>: \<open>app/page.tsx\<close>, \<open>servers/[id]/page.tsx\<close>,
    \<open>servers/[id]/channels/[cid]/page.tsx\<close> and \<open>next.config.ts\<close>; the paths the side bars push, the
    pages they lead to and what is read back from them.
  \<^item> \<open>Composition\<close>, \<open>Page\<close>: see above.
  \<^item> \<open>Voice\<close>: \<open>VoiceChannelView.tsx\<close>, joining and leaving a voice channel, the peer connections
    and the signaling between them, and the invariant of a call (an interpretation of \<open>phased\<close>
    with the phases before and after the microphone is granted). \<open>VoiceCalls\<close>: the courses of a
    call, the offers of a newcomer, candidates that arrive early, and how a call ends. \<open>Handshake\<close>:
    two voice views and the relay of the voice service between them, whose contract is the locale
    \<open>signaling\<close>.
  \<^item> \<open>Desktop\<close>: \<open>main.js\<close> and \<open>preload.js\<close>, the window, the tray, the preference and the
    notifications, and their way from a frame on the socket of \<open>Layout\<close> to a click and back.
  \<^item> \<open>Cluster\<close>: \<open>cluster-construct.ts\<close>, each manifest as the JSON object the code builds.
    \<open>Topology\<close>: what the manifests promise together. \<open>Deploy\<close>: \<open>network-construct.ts\<close>,
    \<open>data-construct.ts\<close>, \<open>concordia-stack.ts\<close>, \<open>bin/concordia.ts\<close>. \<open>Resources\<close>: the EKS cluster, its
    storage add-on, the lookups and outputs, and the order in which the resources come into being,
    a step relation on what exists so far.

  \<^bold>\<open>What the properties show.\<close> Invariants and safety hold of every reachable state of a component,
  under every order of events and answers. Functional properties follow a given course of turns
  through \<open>exec\<close>, often in any order of the answers. Where the code does not do what it means to,
  a theorem exhibits the course on which it fails, from any state in which it can begin.

  \<^bold>\<open>Parameters.\<close> The build-time environment and the page's address (\<open>env\<close>), the browser's verdict
  on a WebSocket address (\<open>refuses\<close>), the router of the framework, the parsing of amounts and the formatting of dates by the
  locale, the heights of the layout, the addresses the cloud assigns, random bytes and the contents of certificates.

  \<^bold>\<open>Bounds.\<close> Strings are lists of code units below 256, which covers the literals of the code and
  the identifiers of the services. Times are milliseconds from 1970 to 9999. The hash of
  \<open>serverColor\<close> is computed on 32-bit words as \<open>|\<close> does; other numbers of the code stay far below
  \<open>2 ^ 53\<close> and are integers. Every definition terminates; nothing uses fuel: a handler that waits
  for ever is a suspended program.

  \<^bold>\<open>Not modelled.\<close> Styling, pictograms and focus; tests; the media that voice calls carry; what
  the CDK library and the framework generate by themselves; on the page of \<open>Page\<close>, the tip dialog that
  a message list opens (it is modelled with the tips page) and the login and register pages, which
  the frame shows alone; the services, but for the
  contracts named above. A body of an answer that does not have the type the code casts it to is
  outside the contract of the services: reading it throws.
\<close>

end
